theory Spec2Isabelle
  imports Main
begin

section \<open>Strings\<close>

text \<open>
  Go strings are byte sequences; they are modelled as \<open>string\<close> (a list of \<open>char\<close>).
  \<open>strings_Split s c\<close> is \<^verbatim>\<open>strings.Split(s, sep)\<close> for a separator \<open>sep\<close> of one
  byte \<open>c\<close>, which is the only way the controller calls it (\<^verbatim>\<open>"/"\<close>): the pieces between
  the separators, one more piece than there are separators.
\<close>

fun strings_Split :: "string \<Rightarrow> char \<Rightarrow> string list" where
  "strings_Split [] c = [[]]"
| "strings_Split (x # xs) c =
     (if x = c then [] # strings_Split xs c
      else (case strings_Split xs c of
              [] \<Rightarrow> [[x]]
            | p # ps \<Rightarrow> (x # p) # ps))"

text \<open>
  Indexing a Go slice out of range panics: \<open>index xs i\<close> is \<open>None\<close> there.
\<close>

definition index :: "'a list \<Rightarrow> nat \<Rightarrow> 'a option" where
  "index xs i = (if i < length xs then Some (xs ! i) else None)"

text \<open>The verb \<^verbatim>\<open>%d\<close> of \<^verbatim>\<open>fmt\<close> on a non-negative integer: its decimal digits.\<close>

definition digit :: "nat \<Rightarrow> char" where
  "digit d = ''0123456789'' ! d"

function fmt_d :: "nat \<Rightarrow> string" where
  "fmt_d n = (if n < 10 then [digit n] else fmt_d (n div 10) @ [digit (n mod 10)])"
  by pat_completeness auto
termination
  by (relation "measure (\<lambda>n. n)") auto

declare fmt_d.simps [simp del]

section \<open>Errors and results\<close>

text \<open>
  A Go \<^verbatim>\<open>error\<close> value. The controller distinguishes two classes of errors:
  those for which \<^verbatim>\<open>errors.As(err, &goipam.NotFoundError{})\<close> holds (the address pool
  did not find the prefix or the address) and those for which \<^verbatim>\<open>apierrors.IsNotFound\<close>
  holds (the object store did not find the object). Every other error, among them the
  ones built by \<^verbatim>\<open>fmt.Errorf\<close>, is an \<open>Err\<close> with its message.
\<close>

datatype error =
    IpamNotFoundError string
  | ApiNotFound string
  | Err string

definition As_NotFoundError :: "error \<Rightarrow> bool" where
  "As_NotFoundError e = (case e of IpamNotFoundError m \<Rightarrow> True | _ \<Rightarrow> False)"

definition IsNotFound :: "error \<Rightarrow> bool" where
  "IsNotFound e = (case e of ApiNotFound m \<Rightarrow> True | _ \<Rightarrow> False)"

text \<open>\<^verbatim>\<open>client.IgnoreNotFound\<close>: nil for a not-found error of the object store.\<close>

definition IgnoreNotFound :: "error \<Rightarrow> error option" where
  "IgnoreNotFound e = (if IsNotFound e then None else Some e)"

text \<open>
  \<^verbatim>\<open>ctrl.Result\<close>; a \<^verbatim>\<open>time.Duration\<close> is a number of nanoseconds.
\<close>

record Result =
  Requeue :: bool
  RequeueAfter :: int

definition Result_empty :: Result where
  "Result_empty = \<lparr>Requeue = False, RequeueAfter = 0\<rparr>"

definition Second :: int where
  "Second = 1000000000"

definition RequeueDuration :: int where
  "RequeueDuration = Second * 30"

definition Result_RequeueAfter :: Result where
  "Result_RequeueAfter = \<lparr>Requeue = False, RequeueAfter = RequeueDuration\<rparr>"

text \<open>
  What a call of \<^verbatim>\<open>Reconcile\<close> ends with: it returns a result and an error (nil is
  \<open>None\<close>), or it panics on an index out of range.
\<close>

datatype outcome = Return Result "error option" | Panic

section \<open>The data model\<close>

record OwnerReference =
  ref_APIVersion :: string
  ref_Kind :: string
  ref_Name :: string
  ref_UID :: string
  ref_Controller :: bool
  ref_BlockOwnerDeletion :: bool

text \<open>
  The fields of \<^verbatim>\<open>metav1.ObjectMeta\<close> that the controller reads or writes. A nil
  \<^verbatim>\<open>DeletionTimestamp\<close> is \<open>None\<close>; a time is counted from the zero instant.
\<close>

record ObjectMeta =
  om_Name :: string
  om_GenerateName :: string
  om_UID :: string
  om_Labels :: "string \<rightharpoonup> string"
  om_Annotations :: "string \<rightharpoonup> string"
  om_Finalizers :: "string list"
  om_DeletionTimestamp :: "nat option"
  om_OwnerReferences :: "OwnerReference list"

definition IsZero :: "nat option \<Rightarrow> bool" where
  "IsZero ts = (case ts of None \<Rightarrow> True | Some t \<Rightarrow> t = 0)"


text \<open>\<^verbatim>\<open>controllerutil.ContainsFinalizer\<close>, \<^verbatim>\<open>AddFinalizer\<close> and \<^verbatim>\<open>RemoveFinalizer\<close>.\<close>

definition ContainsFinalizer :: "ObjectMeta \<Rightarrow> string \<Rightarrow> bool" where
  "ContainsFinalizer om f = (f \<in> set (om_Finalizers om))"

definition AddFinalizer :: "ObjectMeta \<Rightarrow> string \<Rightarrow> ObjectMeta" where
  "AddFinalizer om f =
     (if f \<in> set (om_Finalizers om) then om
      else om\<lparr>om_Finalizers := om_Finalizers om @ [f]\<rparr>)"

definition RemoveFinalizer :: "ObjectMeta \<Rightarrow> string \<Rightarrow> ObjectMeta" where
  "RemoveFinalizer om f = om\<lparr>om_Finalizers := filter (\<lambda>g. g \<noteq> f) (om_Finalizers om)\<rparr>"

record TypeMeta =
  tm_Kind :: string
  tm_APIVersion :: string

text \<open>
  Addresses of heap cells. A pointer is an \<open>addr option\<close> (nil is \<open>None\<close>); a slice is
  nil or a window of \<open>s_len\<close> elements, from position \<open>s_off\<close>, of the backing array at
  \<open>s_arr\<close>.
\<close>

type_synonym addr = nat

record slice =
  s_arr :: addr
  s_off :: nat
  s_len :: nat

record NetworkInterfaceSpec =
  nis_NodeName :: string
  nis_Address :: string
  nis_ID :: string

record NetworkInterfaceStatus =
  nist_MacAddress :: string

record NetworkInterface =
  ni_TypeMeta :: TypeMeta
  ni_ObjectMeta :: ObjectMeta
  ni_Spec :: NetworkInterfaceSpec
  ni_Status :: NetworkInterfaceStatus

text \<open>
  The declarations of \<^verbatim>\<open>PrivateNetworkRoute\<close> and \<^verbatim>\<open>PrivateNetworkStatus\<close> are not part
  of the source. Their generated copy functions are the plain assignment
  \<^verbatim>\<open>*out = *in\<close>, so they are values without pointers; nothing else about them is used.
\<close>

typedecl PrivateNetworkRoute

typedecl PrivateNetworkStatus

record PrivateNetworkIPAMStatic =
  AvailableRanges :: "slice option"

record PrivateNetworkIPAM =
  Static :: "addr option"

record PrivateNetworkSpec =
  pns_ID :: string
  pns_Zone :: string
  pns_CIDR :: string
  pns_IPAM :: "addr option"
  pns_Routes :: "slice option"

record PrivateNetwork =
  pn_TypeMeta :: TypeMeta
  pn_ObjectMeta :: ObjectMeta
  pn_Spec :: PrivateNetworkSpec
  pn_Status :: PrivateNetworkStatus

text \<open>The cluster node and the cloud provider's server with its private NICs.\<close>

record Node =
  node_Name :: string
  node_ProviderID :: string

record PrivateNIC =
  pnic_ID :: string
  pnic_PrivateNetworkID :: string
  pnic_MacAddress :: string

record Server =
  srv_ID :: string
  srv_Zone :: string
  srv_PrivateNics :: "PrivateNIC list"

text \<open>
  The address pool's prefix, and the network of a prefix: \<^verbatim>\<open>net.IPNet.String()\<close> is the
  address, a slash and the length of the mask.
\<close>

record Prefix =
  Cidr :: string

record IPNet =
  ipnet_IP :: string
  ipnet_Ones :: nat

definition IPNet_String :: "IPNet \<Rightarrow> string" where
  "IPNet_String n = ipnet_IP n @ ''/'' @ fmt_d (ipnet_Ones n)"

section \<open>Constants of the controller\<close>

definition ipFinalizerName :: string where
  "ipFinalizerName = ''scaleway.com/finalizer-ip''"

definition finalizerName :: string where
  "finalizerName = ''scaleway.com/finalizer''"

definition privateNetworkLabel :: string where
  "privateNetworkLabel = ''private-network''"

definition nodeLabel :: string where
  "nodeLabel = ''node''"

definition regexpProduct :: string where
  "regexpProduct = ''product''"

definition regexpLocalization :: string where
  "regexpLocalization = ''localization''"

definition regexpUUID :: string where
  "regexpUUID = ''uuid''"

section \<open>The external systems\<close>

text \<open>
  The reconciler talks to three external systems: the object store of the cluster
  (\<^verbatim>\<open>client.Client\<close>), the address pool (\<^verbatim>\<open>goipam.Ipamer\<close>) and the cloud provider
  (\<^verbatim>\<open>instance.API\<close>, \<^verbatim>\<open>vpc.API\<close>). Every call it makes and every line it logs is an
  event, and the state of a pass is the history of its events, in order.
\<close>

datatype (discs_sels) event =
    Get_PrivateNetwork string
  | NewPrefix string
  | Update_PrivateNetwork PrivateNetwork
  | List_NetworkInterface "string \<rightharpoonup> string"
  | Delete_NetworkInterface NetworkInterface
  | ReleaseIPFromPrefix string string
  | Get_Node string
  | GetServer string string
  | ListServers string string
  | DeletePrivateNIC string string string
  | Update_NetworkInterface NetworkInterface
  | DeletePrefix string
  | GetPrivateNetwork string string
  | List_Node
  | CreatePrivateNIC string string string
  | AcquireIP string
  | Create_NetworkInterface NetworkInterface
  | Status_Update_NetworkInterface NetworkInterface
  | Log_Error error string
  | Log_Info string

type_synonym history = "event list"

text \<open>
  What the external systems answer. Each answer may depend on the history of the pass so
  far (a list made after a creation may show the new object) and is otherwise arbitrary:
  every property below holds for all environments. An answer is an error or a value; a
  call without a value answers \<open>Some\<close> error or \<open>None\<close>.

  \<open>Client_Create_NetworkInterface\<close> and \<open>Client_Update_PrivateNetwork\<close> answer the
  object as the store wrote it back into the caller's variable. \<open>Prefix_IPNet\<close> (the
  method \<^verbatim>\<open>Prefix.IPNet\<close>) and \<open>SetControllerReference_check\<close> (the conditions under
  which \<^verbatim>\<open>ctrl.SetControllerReference\<close> fails, and the API version and kind it finds
  for the owner in the scheme) do not depend on the history.
\<close>

record env =
  Client_Get_PrivateNetwork :: "history \<Rightarrow> string \<Rightarrow> error + PrivateNetwork"
  IPAM_NewPrefix :: "history \<Rightarrow> string \<Rightarrow> error + Prefix"
  Client_Update_PrivateNetwork :: "history \<Rightarrow> PrivateNetwork \<Rightarrow> error + PrivateNetwork"
  Client_List_NetworkInterface ::
    "history \<Rightarrow> (string \<rightharpoonup> string) \<Rightarrow> error + NetworkInterface list"
  Client_Delete_NetworkInterface :: "history \<Rightarrow> NetworkInterface \<Rightarrow> error option"
  IPAM_ReleaseIPFromPrefix :: "history \<Rightarrow> string \<Rightarrow> string \<Rightarrow> error option"
  Client_Get_Node :: "history \<Rightarrow> string \<Rightarrow> error + Node"
  InstanceAPI_GetServer :: "history \<Rightarrow> string \<Rightarrow> string \<Rightarrow> error + Server"
  InstanceAPI_ListServers :: "history \<Rightarrow> string \<Rightarrow> string \<Rightarrow> error + Server list"
  InstanceAPI_DeletePrivateNIC ::
    "history \<Rightarrow> string \<Rightarrow> string \<Rightarrow> string \<Rightarrow> error option"
  Client_Update_NetworkInterface :: "history \<Rightarrow> NetworkInterface \<Rightarrow> error option"
  IPAM_DeletePrefix :: "history \<Rightarrow> string \<Rightarrow> error option"
  VpcAPI_GetPrivateNetwork :: "history \<Rightarrow> string \<Rightarrow> string \<Rightarrow> error option"
  Client_List_Node :: "history \<Rightarrow> error + Node list"
  InstanceAPI_CreatePrivateNIC ::
    "history \<Rightarrow> string \<Rightarrow> string \<Rightarrow> string \<Rightarrow> error + PrivateNIC"
  IPAM_AcquireIP :: "history \<Rightarrow> string \<Rightarrow> error + string"
  Prefix_IPNet :: "Prefix \<Rightarrow> error + IPNet"
  Client_Create_NetworkInterface ::
    "history \<Rightarrow> NetworkInterface \<Rightarrow> error + NetworkInterface"
  Client_Status_Update_NetworkInterface :: "history \<Rightarrow> NetworkInterface \<Rightarrow> error option"
  SetControllerReference_check ::
    "PrivateNetwork \<Rightarrow> NetworkInterface \<Rightarrow> error + string \<times> string"

section \<open>The node resolver\<close>

text \<open>
  The pattern \<^verbatim>\<open>providerIDRegexp\<close> is
  \<^verbatim>\<open>scaleway://((?P<product>.*?)/(?P<localization>.*?)/(?P<uuid>.*)|(?P<uuid>.*))\<close>.
  It is not anchored, so it matches from the first place where \<^verbatim>\<open>scaleway://\<close> occurs;
  \<open>after_literal lit s\<close> is the text that follows the first occurrence of \<open>lit\<close> in \<open>s\<close>.
\<close>

fun after_literal :: "string \<Rightarrow> string \<Rightarrow> string option" where
  "after_literal lit [] = (if lit = [] then Some [] else None)"
| "after_literal lit (c # cs) =
     (if take (length lit) (c # cs) = lit then Some (drop (length lit) (c # cs))
      else after_literal lit cs)"

text \<open>
  \<^verbatim>\<open>providerIDRegexp.FindStringSubmatch\<close>: \<open>None\<close> where the pattern does not match (the
  nil slice, and \<^verbatim>\<open>MatchString\<close> is false), else the texts of the whole match and of the
  five groups, a group that takes no part in the match being empty. A dot does not match
  a newline, so the groups lie in the rest of the line. The first alternative is
  preferred; it matches when that rest has two slashes, with the product up to the first
  one and the localization up to the second one (both groups are lazy). Otherwise the
  second alternative takes the rest of the line as uuid.
\<close>

definition FindStringSubmatch :: "string \<Rightarrow> string list option" where
  "FindStringSubmatch s =
     (case after_literal ''scaleway://'' s of
        None \<Rightarrow> None
      | Some rest \<Rightarrow>
          let line = takeWhile (\<lambda>c. c \<noteq> CHR 0x0A) rest;
              product = takeWhile (\<lambda>c. c \<noteq> CHR ''/'') line;
              line1 = drop (length product + 1) line;
              localization = takeWhile (\<lambda>c. c \<noteq> CHR ''/'') line1;
              uuid = drop (length localization + 1) line1
          in if length product < length line \<and> length localization < length line1
             then Some [''scaleway://'' @ line, line, product, localization, uuid, '''']
             else Some [''scaleway://'' @ line, line, '''', '''', '''', line])"

definition MatchString :: "string \<Rightarrow> bool" where
  "MatchString s = (FindStringSubmatch s \<noteq> None)"

definition SubexpNames :: "string list" where
  "SubexpNames = ['''', '''', regexpProduct, regexpLocalization, regexpUUID, regexpUUID]"

text \<open>
  The loop over \<^verbatim>\<open>SubexpNames()\<close> in \<^verbatim>\<open>getServerFromNode\<close>, on the pairs of an index and
  a name; the state is the pair of \<^verbatim>\<open>instanceID\<close> and \<^verbatim>\<open>zone\<close>.
\<close>

fun scanSubexp :: "(nat \<times> string) list \<Rightarrow> string list \<Rightarrow> string \<times> string \<Rightarrow> string \<times> string" where
  "scanSubexp [] match acc = acc"
| "scanSubexp ((i, name) # rest) match (instanceID, zone) =
     scanSubexp rest match
       (if i \<noteq> 0 \<and> name \<noteq> '''' then
          (if match ! i \<noteq> '''' then
             (if name = regexpUUID then (match ! i, zone)
              else if name = regexpLocalization then (instanceID, match ! i)
              else (instanceID, zone))
           else (instanceID, zone))
        else (instanceID, zone))"

text \<open>The first part of \<^verbatim>\<open>getServerFromNode\<close>: the instance ID and the zone of a node.\<close>

definition parseProviderID :: "Node \<Rightarrow> string \<times> string" where
  "parseProviderID node =
     (if node_ProviderID node \<noteq> '''' then
        (case FindStringSubmatch (node_ProviderID node) of
           None \<Rightarrow> ('''', '''')
         | Some match \<Rightarrow> scanSubexp (zip [0..<length SubexpNames] SubexpNames) match ('''', ''''))
      else ('''', ''''))"

text \<open>The last part of \<^verbatim>\<open>getServerFromNode\<close>: the lookup by zone and name.\<close>

definition listServersByName ::
  "env \<Rightarrow> string \<Rightarrow> string \<Rightarrow> history \<Rightarrow> (error + Server) \<times> history" where
  "listServersByName env zone name h =
     (let h1 = h @ [ListServers zone name] in
      case InstanceAPI_ListServers env h zone name of
        Inl err \<Rightarrow> (Inl err, h1)
      | Inr servers \<Rightarrow>
          if length servers \<noteq> 1
          then (Inl (Err (''found '' @ fmt_d (length servers) @ '' servers with name '' @ name
                          @ '' instead of 1'')), h1)
          else (Inr (servers ! 0), h1))"

definition getServerFromNode :: "env \<Rightarrow> Node \<Rightarrow> history \<Rightarrow> (error + Server) \<times> history" where
  "getServerFromNode env node h =
     (case parseProviderID node of (instanceID, zone) \<Rightarrow>
        if instanceID \<noteq> '''' then
          (case InstanceAPI_GetServer env h zone instanceID of
             Inr server \<Rightarrow> (Inr server, h @ [GetServer zone instanceID])
           | Inl err \<Rightarrow> listServersByName env zone (node_Name node) (h @ [GetServer zone instanceID]))
        else listServersByName env zone (node_Name node) h)"

section \<open>Construction of a NetworkInterface\<close>

text \<open>
  \<^verbatim>\<open>ctrl.SetControllerReference(pn, nic, r.Scheme)\<close>. When it does not fail, it records
  on the object an owner reference to the owner, marked as controller and as blocking
  the owner's deletion. The object is a new one without owner references, so the
  reference is added to an empty list.
\<close>

definition SetControllerReference ::
  "env \<Rightarrow> PrivateNetwork \<Rightarrow> NetworkInterface \<Rightarrow> error + NetworkInterface" where
  "SetControllerReference env pn nic =
     (case SetControllerReference_check env pn nic of
        Inl err \<Rightarrow> Inl err
      | Inr (apiVersion, kind) \<Rightarrow>
          Inr (nic\<lparr>ni_ObjectMeta := (ni_ObjectMeta nic)
                 \<lparr>om_OwnerReferences := om_OwnerReferences (ni_ObjectMeta nic) @
                    [\<lparr>ref_APIVersion = apiVersion, ref_Kind = kind,
                      ref_Name = om_Name (pn_ObjectMeta pn),
                      ref_UID = om_UID (pn_ObjectMeta pn),
                      ref_Controller = True, ref_BlockOwnerDeletion = True\<rparr>]\<rparr>\<rparr>))"

text \<open>
  \<^verbatim>\<open>constructNetworkInterfaceForPrivateNetwork\<close>. The two loops copy the annotations and
  the labels of the network into the empty maps of the new object; the two identifying
  labels are written after them.
\<close>

definition constructNetworkInterfaceForPrivateNetwork ::
  "env \<Rightarrow> PrivateNetwork \<Rightarrow> string \<Rightarrow> error + NetworkInterface" where
  "constructNetworkInterfaceForPrivateNetwork env pn nodeName =
     (let om0 = \<lparr>om_Name = '''', om_GenerateName = om_Name (pn_ObjectMeta pn) @ ''-'',
                 om_UID = '''', om_Labels = Map.empty, om_Annotations = Map.empty,
                 om_Finalizers = [], om_DeletionTimestamp = None, om_OwnerReferences = []\<rparr>;
          om1 = om0\<lparr>om_Annotations := om_Annotations om0 ++ om_Annotations (pn_ObjectMeta pn)\<rparr>;
          om2 = om1\<lparr>om_Labels := om_Labels om1 ++ om_Labels (pn_ObjectMeta pn)\<rparr>;
          om3 = om2\<lparr>om_Labels := (om_Labels om2)(privateNetworkLabel \<mapsto> om_Name (pn_ObjectMeta pn))\<rparr>;
          om4 = om3\<lparr>om_Labels := (om_Labels om3)(nodeLabel \<mapsto> nodeName)\<rparr>;
          nic = \<lparr>ni_TypeMeta = \<lparr>tm_Kind = '''', tm_APIVersion = ''''\<rparr>,
                 ni_ObjectMeta = om4,
                 ni_Spec = \<lparr>nis_NodeName = nodeName, nis_Address = '''', nis_ID = ''''\<rparr>,
                 ni_Status = \<lparr>nist_MacAddress = ''''\<rparr>\<rparr>
      in case SetControllerReference env pn nic of
           Inl err \<Rightarrow> Inl err
         | Inr nic1 \<Rightarrow>
             let nic2 = nic1\<lparr>ni_ObjectMeta := AddFinalizer (ni_ObjectMeta nic1) finalizerName\<rparr>;
                 nic3 = nic2\<lparr>ni_ObjectMeta := AddFinalizer (ni_ObjectMeta nic2) ipFinalizerName\<rparr>
             in Inr nic3)"

section \<open>The reconciler\<close>

text \<open>
  How the body of a loop ends: with the next element, with \<^verbatim>\<open>break\<close>, or with a
  \<^verbatim>\<open>return\<close> (or a panic) of \<^verbatim>\<open>Reconcile\<close>.
\<close>

datatype flow = Next | Break | Exit outcome

subsection \<open>Deletion\<close>

text \<open>
  Lines 440 to 445: the address finalizer is removed from the child and the child is
  updated.
\<close>

definition removeIPFinalizer :: "env \<Rightarrow> NetworkInterface \<Rightarrow> history \<Rightarrow> flow \<times> history" where
  "removeIPFinalizer env nic h =
     (let nic1 = nic\<lparr>ni_ObjectMeta := RemoveFinalizer (ni_ObjectMeta nic) ipFinalizerName\<rparr>;
          h1 = h @ [Update_NetworkInterface nic1]
      in case Client_Update_NetworkInterface env h nic1 of
           Some err \<Rightarrow>
             (Exit (Return Result_empty (Some err)),
              h1 @ [Log_Error err (''failed to delete networkInterface '' @ om_Name (ni_ObjectMeta nic1))])
         | None \<Rightarrow> (Next, h1))"

text \<open>
  Lines 415 to 437: the server of the child's node is resolved, and the private NIC it
  has on the network, if it has one with an identifier, is deleted.
\<close>

definition deletePrivateNICOfNode ::
  "env \<Rightarrow> PrivateNetwork \<Rightarrow> Node \<Rightarrow> history \<Rightarrow> flow \<times> history" where
  "deletePrivateNICOfNode env pn node h =
     (case getServerFromNode env node h of
        (Inl err, h1) \<Rightarrow>
          (Exit (Return Result_empty (Some err)),
           h1 @ [Log_Error err ''error getting server from node''])
      | (Inr server, h1) \<Rightarrow>
          let privateNicID =
                (case find (\<lambda>pnic. pnic_PrivateNetworkID pnic = pns_ID (pn_Spec pn))
                        (srv_PrivateNics server) of
                   None \<Rightarrow> ''''
                 | Some pnic \<Rightarrow> pnic_ID pnic)
          in if privateNicID \<noteq> '''' then
               (let h2 = h1 @ [DeletePrivateNIC (srv_Zone server) privateNicID (srv_ID server)]
                in case InstanceAPI_DeletePrivateNIC env h1 (srv_Zone server) privateNicID
                          (srv_ID server) of
                     Some err \<Rightarrow>
                       (Exit (Return Result_empty (Some err)),
                        h2 @ [Log_Error err ''unable to delete private nic from server''])
                   | None \<Rightarrow> (Next, h2))
             else (Next, h1))"

text \<open>
  Lines 401 to 445, for a child that is marked for deletion and has no generic
  finalizer: its address is released, its private NIC is deleted, its address finalizer
  is removed.
\<close>

definition releaseNetworkInterface ::
  "env \<Rightarrow> PrivateNetwork \<Rightarrow> NetworkInterface \<Rightarrow> history \<Rightarrow> flow \<times> history" where
  "releaseNetworkInterface env pn nic h =
     (let cidr = pns_CIDR (pn_Spec pn);
          ip = strings_Split (nis_Address (ni_Spec nic)) CHR ''/'' ! 0;
          h1 = h @ [ReleaseIPFromPrefix cidr ip];
          failed = (case IPAM_ReleaseIPFromPrefix env h cidr ip of
                      None \<Rightarrow> None
                    | Some err \<Rightarrow> if \<not> As_NotFoundError err then Some err else None)
      in case failed of
           Some err \<Rightarrow>
             (Exit (Return Result_empty (Some err)),
              h1 @ [Log_Error err (''could not delete IP '' @ nis_Address (ni_Spec nic)
                                   @ '' from prefix '' @ cidr)])
         | None \<Rightarrow>
             (let h2 = h1 @ [Get_Node (nis_NodeName (ni_Spec nic))]
              in case Client_Get_Node env h1 (nis_NodeName (ni_Spec nic)) of
                   Inl err \<Rightarrow>
                     if \<not> IsNotFound err
                     then (Exit (Return Result_empty (Some err)),
                           h2 @ [Log_Error err ''error getting node''])
                     else removeIPFinalizer env nic h2
                 | Inr node \<Rightarrow>
                     (case deletePrivateNICOfNode env pn node h2 of
                        (Next, h3) \<Rightarrow> removeIPFinalizer env nic h3
                      | (Break, h3) \<Rightarrow> (Break, h3)
                      | (Exit out, h3) \<Rightarrow> (Exit out, h3))))"

text \<open>Lines 393 to 447: the body of the loop over the children.\<close>

definition deleteNetworkInterface ::
  "env \<Rightarrow> PrivateNetwork \<Rightarrow> NetworkInterface \<Rightarrow> history \<Rightarrow> flow \<times> history" where
  "deleteNetworkInterface env pn nic h =
     (if IsZero (om_DeletionTimestamp (ni_ObjectMeta nic)) then
        (let h1 = h @ [Delete_NetworkInterface nic]
         in case Client_Delete_NetworkInterface env h nic of
              Some err \<Rightarrow>
                (Exit (Return Result_empty (Some err)),
                 h1 @ [Log_Error err (''failed to delete networkInterface '' @ om_Name (ni_ObjectMeta nic))])
            | None \<Rightarrow> (Next, h1))
      else if \<not> ContainsFinalizer (ni_ObjectMeta nic) finalizerName then
        releaseNetworkInterface env pn nic h
      else (Next, h))"

text \<open>Lines 392 to 448: the loop over the children.\<close>

fun deleteNetworkInterfaces ::
  "env \<Rightarrow> PrivateNetwork \<Rightarrow> NetworkInterface list \<Rightarrow> history \<Rightarrow> flow \<times> history" where
  "deleteNetworkInterfaces env pn [] h = (Next, h)"
| "deleteNetworkInterfaces env pn (nic # nics) h =
     (case deleteNetworkInterface env pn nic h of
        (Next, h1) \<Rightarrow> deleteNetworkInterfaces env pn nics h1
      | (Break, h1) \<Rightarrow> (Break, h1)
      | (Exit out, h1) \<Rightarrow> (Exit out, h1))"

text \<open>
  Lines 450 to 462, the cleanup of the network itself: the prefix is deleted, the generic
  finalizer is removed from the network and the network is updated.
\<close>

definition deletePrefixAndFinalizer :: "env \<Rightarrow> PrivateNetwork \<Rightarrow> history \<Rightarrow> outcome \<times> history" where
  "deletePrefixAndFinalizer env pn h =
     (let cidr = pns_CIDR (pn_Spec pn);
          h1 = h @ [DeletePrefix cidr];
          failed = (case IPAM_DeletePrefix env h cidr of
                      None \<Rightarrow> None
                    | Some err \<Rightarrow> if \<not> As_NotFoundError err then Some err else None)
      in case failed of
           Some err \<Rightarrow>
             (Return Result_empty (Some err),
              h1 @ [Log_Error err ''failed to delete PrivateNetwork prefix''])
         | None \<Rightarrow>
             (let pn1 = pn\<lparr>pn_ObjectMeta := RemoveFinalizer (pn_ObjectMeta pn) finalizerName\<rparr>;
                  h2 = h1 @ [Update_PrivateNetwork pn1]
              in case Client_Update_PrivateNetwork env h1 pn1 of
                   Inl err \<Rightarrow> (Return Result_empty (Some err), h2 @ [Log_Error err ''failed to add finalizer''])
                 | Inr pn2 \<Rightarrow> (Return Result_empty None, h2)))"

text \<open>Lines 380 to 467: the pass on a network that is marked for deletion.\<close>

definition reconcileDelete :: "env \<Rightarrow> PrivateNetwork \<Rightarrow> history \<Rightarrow> outcome \<times> history" where
  "reconcileDelete env pn h =
     (if ContainsFinalizer (pn_ObjectMeta pn) finalizerName then
        (let labels = [privateNetworkLabel \<mapsto> om_Name (pn_ObjectMeta pn)];
             h1 = h @ [List_NetworkInterface labels]
         in case Client_List_NetworkInterface env h labels of
              Inl err \<Rightarrow>
                (Return Result_empty (Some err),
                 h1 @ [Log_Error err (''could not list NetworkInterface for privateNetwork ''
                                      @ om_Name (pn_ObjectMeta pn))])
            | Inr items \<Rightarrow>
                (case deleteNetworkInterfaces env pn items h1 of
                   (Exit out, h2) \<Rightarrow> (out, h2)
                 | (Next, h2) \<Rightarrow>
                     if length items = 0 then deletePrefixAndFinalizer env pn h2
                     else (Return Result_RequeueAfter None, h2)
                 | (Break, h2) \<Rightarrow>
                     if length items = 0 then deletePrefixAndFinalizer env pn h2
                     else (Return Result_RequeueAfter None, h2)))
      else (Return Result_empty None, h))"

subsection \<open>Synchronization\<close>

text \<open>
  Lines 504 to 522: the private NIC of the server on the network is the first one the
  server has with the network's identifier; when it has none, one is created.
\<close>

definition ensurePrivateNIC ::
  "env \<Rightarrow> PrivateNetwork \<Rightarrow> Server \<Rightarrow> history \<Rightarrow> (outcome + PrivateNIC) \<times> history" where
  "ensurePrivateNIC env pn server h =
     (case find (\<lambda>pnic. pnic_PrivateNetworkID pnic = pns_ID (pn_Spec pn)) (srv_PrivateNics server) of
        Some privateNIC \<Rightarrow> (Inr privateNIC, h)
      | None \<Rightarrow>
          (let h1 = h @ [CreatePrivateNIC (srv_Zone server) (pns_ID (pn_Spec pn)) (srv_ID server)]
           in case InstanceAPI_CreatePrivateNIC env h (srv_Zone server) (pns_ID (pn_Spec pn))
                     (srv_ID server) of
                Inl err \<Rightarrow>
                  (Inl (Return Result_RequeueAfter (Some err)),
                   h1 @ [Log_Error err (''unable to create private on server '' @ srv_ID server)])
              | Inr privateNIC \<Rightarrow> (Inr privateNIC, h1)))"

text \<open>
  Lines 529 to 558: a NetworkInterface is constructed, an address is acquired, the
  object is created and its status is updated.
\<close>

definition createNetworkInterface ::
  "env \<Rightarrow> PrivateNetwork \<Rightarrow> Prefix \<Rightarrow> Node \<Rightarrow> PrivateNIC \<Rightarrow> history \<Rightarrow> flow \<times> history" where
  "createNetworkInterface env pn prefix node privateNIC h =
     (case constructNetworkInterfaceForPrivateNetwork env pn (node_Name node) of
        Inl err \<Rightarrow>
          (Exit (Return Result_RequeueAfter (Some err)),
           h @ [Log_Error err ''unable to construct networkInterface from privateNetwork''])
      | Inr nic \<Rightarrow>
          (let h1 = h @ [AcquireIP (Cidr prefix)]
           in case IPAM_AcquireIP env h (Cidr prefix) of
                Inl err \<Rightarrow>
                  (Exit (Return Result_RequeueAfter (Some err)),
                   h1 @ [Log_Error err (''error acquiring ip for cidr '' @ Cidr prefix)])
              | Inr ip \<Rightarrow>
                  (case Prefix_IPNet env prefix of
                     Inl err \<Rightarrow>
                       (Exit (Return Result_RequeueAfter (Some err)),
                        h1 @ [Log_Error err ''failed to get ipnet from prefix''])
                   | Inr ipnet \<Rightarrow>
                       (case index (strings_Split (IPNet_String ipnet) CHR ''/'') 1 of
                          None \<Rightarrow> (Exit Panic, h1)
                        | Some ones \<Rightarrow>
                            (let nic1 = nic\<lparr>ni_Spec := (ni_Spec nic)
                                          \<lparr>nis_Address := ip @ ''/'' @ ones,
                                           nis_ID := pnic_ID privateNIC\<rparr>\<rparr>;
                                 h2 = h1 @ [Create_NetworkInterface nic1]
                             in case Client_Create_NetworkInterface env h1 nic1 of
                                  Inl err \<Rightarrow>
                                    (Exit (Return Result_RequeueAfter (Some err)),
                                     h2 @ [Log_Error err ''could not create networkInterface''])
                                | Inr nic2 \<Rightarrow>
                                    (let nic3 = nic2\<lparr>ni_Status := (ni_Status nic2)
                                                  \<lparr>nist_MacAddress := pnic_MacAddress privateNIC\<rparr>\<rparr>;
                                         h3 = h2 @ [Status_Update_NetworkInterface nic3]
                                     in case Client_Status_Update_NetworkInterface env h2 nic3 of
                                          Some err \<Rightarrow>
                                            (Exit (Return Result_RequeueAfter (Some err)),
                                             h3 @ [Log_Error err ''could not update networkInterface status''])
                                        | None \<Rightarrow>
                                            (Next,
                                             h3 @ [Log_Info (''Successfully created networkInterface ''
                                                     @ om_Name (ni_ObjectMeta nic3) @ '' on node ''
                                                     @ node_Name node)])))))))"

text \<open>
  Lines 486 to 559: the body of the loop over the nodes. The error returned with the
  reschedule at line 526 is the variable of line 498, which is nil there.
\<close>

definition syncNode ::
  "env \<Rightarrow> PrivateNetwork \<Rightarrow> Prefix \<Rightarrow> Node \<Rightarrow> history \<Rightarrow> flow \<times> history" where
  "syncNode env pn prefix node h =
     (let labels = [privateNetworkLabel \<mapsto> om_Name (pn_ObjectMeta pn), nodeLabel \<mapsto> node_Name node];
          h1 = h @ [List_NetworkInterface labels]
      in case Client_List_NetworkInterface env h labels of
           Inl err \<Rightarrow>
             (Exit (Return Result_RequeueAfter (Some err)),
              h1 @ [Log_Error err (''could not list NetworkInterface for node '' @ node_Name node
                                   @ '' and privateNetwork '' @ om_Name (pn_ObjectMeta pn))])
         | Inr items \<Rightarrow>
             (case getServerFromNode env node h1 of
                (Inl err, h2) \<Rightarrow>
                  (Break,
                   h2 @ [Log_Error err (''could not get scaleway server from node '' @ node_Name node)])
              | (Inr server, h2) \<Rightarrow>
                  (case ensurePrivateNIC env pn server h2 of
                     (Inl out, h3) \<Rightarrow> (Exit out, h3)
                   | (Inr privateNIC, h3) \<Rightarrow>
                       if length items > 1 then
                         (Exit (Return Result_RequeueAfter None),
                          h3 @ [Log_Error
                                  (Err (''node '' @ node_Name node @ '' have '' @ fmt_d (length items)
                                        @ '' networkInterfaces instead of at most one''))
                                  ''could not handle node''])
                       else if length items = 0 then
                         createNetworkInterface env pn prefix node privateNIC h3
                       else (Next, h3))))"

text \<open>Lines 485 to 560: the loop over the nodes.\<close>

fun syncNodes ::
  "env \<Rightarrow> PrivateNetwork \<Rightarrow> Prefix \<Rightarrow> Node list \<Rightarrow> history \<Rightarrow> flow \<times> history" where
  "syncNodes env pn prefix [] h = (Next, h)"
| "syncNodes env pn prefix (node # nodes) h =
     (case syncNode env pn prefix node h of
        (Next, h1) \<Rightarrow> syncNodes env pn prefix nodes h1
      | (Break, h1) \<Rightarrow> (Break, h1)
      | (Exit out, h1) \<Rightarrow> (Exit out, h1))"

text \<open>Lines 469 to 563: the pass on a network that is not marked for deletion.\<close>

definition reconcileNormal ::
  "env \<Rightarrow> PrivateNetwork \<Rightarrow> Prefix \<Rightarrow> history \<Rightarrow> outcome \<times> history" where
  "reconcileNormal env pn prefix h =
     (let h1 = h @ [GetPrivateNetwork (pns_Zone (pn_Spec pn)) (pns_ID (pn_Spec pn))]
      in case VpcAPI_GetPrivateNetwork env h (pns_Zone (pn_Spec pn)) (pns_ID (pn_Spec pn)) of
           Some err \<Rightarrow>
             (Return Result_RequeueAfter (Some err),
              h1 @ [Log_Error err ''error getting private network from api''])
         | None \<Rightarrow>
             (let h2 = h1 @ [List_Node]
              in case Client_List_Node env h1 of
                   Inl err \<Rightarrow>
                     (Return Result_RequeueAfter (Some err), h2 @ [Log_Error err ''could not list nodes''])
                 | Inr nodes \<Rightarrow>
                     (case syncNodes env pn prefix nodes h2 of
                        (Exit out, h3) \<Rightarrow> (out, h3)
                      | (Next, h3) \<Rightarrow> (Return Result_empty None, h3)
                      | (Break, h3) \<Rightarrow> (Return Result_empty None, h3))))"

text \<open>
  \<^verbatim>\<open>Reconcile\<close>. The request is the name of the network.
\<close>

definition Reconcile :: "env \<Rightarrow> string \<Rightarrow> history \<Rightarrow> outcome \<times> history" where
  "Reconcile env req h =
     (let h1 = h @ [Get_PrivateNetwork req]
      in case Client_Get_PrivateNetwork env h req of
           Inl err \<Rightarrow>
             (Return Result_empty (IgnoreNotFound err), h1 @ [Log_Error err ''could not find object''])
         | Inr pn \<Rightarrow>
             (let h2 = h1 @ [NewPrefix (pns_CIDR (pn_Spec pn))]
              in case IPAM_NewPrefix env h1 (pns_CIDR (pn_Spec pn)) of
                   Inl err \<Rightarrow>
                     (Return Result_empty (Some err), h2 @ [Log_Error err ''error creating new prefix''])
                 | Inr prefix \<Rightarrow>
                     if IsZero (om_DeletionTimestamp (pn_ObjectMeta pn)) then
                       (if \<not> ContainsFinalizer (pn_ObjectMeta pn) finalizerName then
                          (let pn1 = pn\<lparr>pn_ObjectMeta := AddFinalizer (pn_ObjectMeta pn) finalizerName\<rparr>;
                               h3 = h2 @ [Update_PrivateNetwork pn1]
                           in case Client_Update_PrivateNetwork env h2 pn1 of
                                Inl err \<Rightarrow>
                                  (Return Result_empty (Some err),
                                   h3 @ [Log_Error err ''failed to add finalizer''])
                              | Inr pn2 \<Rightarrow> reconcileNormal env pn2 prefix h3)
                        else reconcileNormal env pn prefix h2)
                     else reconcileDelete env pn h2))"

section \<open>Histories\<close>

text \<open>The events of the node resolver, of the loop over the children, and of the loop over the nodes.\<close>

definition resolver_event :: "event \<Rightarrow> bool" where
  "resolver_event e = (is_GetServer e \<or> is_ListServers e)"

definition child_event :: "event \<Rightarrow> bool" where
  "child_event e =
     (is_Delete_NetworkInterface e \<or> is_ReleaseIPFromPrefix e \<or> is_Get_Node e \<or>
      resolver_event e \<or> is_DeletePrivateNIC e \<or> is_Update_NetworkInterface e \<or> is_Log_Error e)"

definition node_event :: "event \<Rightarrow> bool" where
  "node_event e =
     (is_List_NetworkInterface e \<or> resolver_event e \<or> is_CreatePrivateNIC e \<or> is_AcquireIP e \<or>
      is_Create_NetworkInterface e \<or> is_Status_Update_NetworkInterface e \<or> is_Log_Error e \<or>
      is_Log_Info e)"

text \<open>
  How a step of the deletion ends, from the history \<open>h\<close> to the history \<open>h'\<close>: it goes
  on without having logged an error, or it returns the error that it has logged last.
\<close>

definition child_step :: "history \<Rightarrow> flow \<Rightarrow> history \<Rightarrow> bool" where
  "child_step h r h' =
     (\<exists>es. h' = h @ es \<and> list_all child_event es \<and>
        (r = Next \<and> list_all (\<lambda>e. \<not> is_Log_Error e) es \<or>
         (\<exists>err msg. r = Exit (Return Result_empty (Some err)) \<and> es \<noteq> [] \<and>
            last es = Log_Error err msg)))"


section \<open>Failed steps of the deletion\<close>




section \<open>The generated copy functions\<close>

text \<open>
  The copy functions follow pointers and slices, so the objects live in a heap: a list
  of cells, the address of a cell being its position. A cell holds a struct that a
  pointer points to, or the backing array of a slice. \<^verbatim>\<open>new\<close> and \<^verbatim>\<open>make\<close> add a cell at the
  end, at an address that no cell had; nothing is freed.

  \<^verbatim>\<open>metav1.ListMeta\<close> and \<^verbatim>\<open>metav1.ObjectMeta\<close> belong to the Kubernetes library, and so do
  their copy functions, which the generated code calls: here they are values, copied as
  values.
\<close>

typedecl ListMeta

record NetworkInterfaceList =
  nil_TypeMeta :: TypeMeta
  nil_ListMeta :: ListMeta
  nil_Items :: "slice option"

record PrivateNetworkList =
  pnl_TypeMeta :: TypeMeta
  pnl_ListMeta :: ListMeta
  pnl_Items :: "slice option"

datatype cell =
    NetworkInterface_cell NetworkInterface
  | NetworkInterfaceList_cell NetworkInterfaceList
  | NetworkInterfaceSpec_cell NetworkInterfaceSpec
  | NetworkInterfaceStatus_cell NetworkInterfaceStatus
  | PrivateNetwork_cell PrivateNetwork
  | PrivateNetworkIPAM_cell PrivateNetworkIPAM
  | PrivateNetworkIPAMStatic_cell PrivateNetworkIPAMStatic
  | PrivateNetworkList_cell PrivateNetworkList
  | PrivateNetworkRoute_cell PrivateNetworkRoute
  | PrivateNetworkSpec_cell PrivateNetworkSpec
  | PrivateNetworkStatus_cell PrivateNetworkStatus
  | string_array "string list"
  | PrivateNetworkRoute_array "PrivateNetworkRoute list"
  | NetworkInterface_array "NetworkInterface list"
  | PrivateNetwork_array "PrivateNetwork list"

type_synonym heap = "cell list"

definition load :: "heap \<Rightarrow> addr \<Rightarrow> cell option" where
  "load h a = (if a < length h then Some (h ! a) else None)"

definition store :: "addr \<Rightarrow> cell \<Rightarrow> heap \<Rightarrow> heap" where
  "store a c h = h[a := c]"

definition new :: "cell \<Rightarrow> heap \<Rightarrow> addr \<times> heap" where
  "new zero h = (length h, h @ [zero])"

text \<open>
  The elements of a slice in its backing array, and \<^verbatim>\<open>copy(dst, src)\<close> on the elements
  of the two slices: as many elements as the shorter one has are overwritten.
\<close>

definition window :: "slice \<Rightarrow> 'a list \<Rightarrow> 'a list option" where
  "window s xs =
     (if s_off s + s_len s \<le> length xs then Some (take (s_len s) (drop (s_off s) xs)) else None)"

definition copy :: "'a list \<Rightarrow> 'a list \<Rightarrow> 'a list" where
  "copy dst src =
     take (min (length dst) (length src)) src @ drop (min (length dst) (length src)) dst"

text \<open>
  The zero values that \<^verbatim>\<open>new\<close> and \<^verbatim>\<open>make\<close> fill a cell with. Those of the three structs
  whose declarations are not part of the source are not known; every cell is overwritten
  before it is read.
\<close>

definition zero_TypeMeta :: TypeMeta where
  "zero_TypeMeta = \<lparr>tm_Kind = '''', tm_APIVersion = ''''\<rparr>"

definition zero_ObjectMeta :: ObjectMeta where
  "zero_ObjectMeta =
     \<lparr>om_Name = '''', om_GenerateName = '''', om_UID = '''', om_Labels = Map.empty,
      om_Annotations = Map.empty, om_Finalizers = [], om_DeletionTimestamp = None,
      om_OwnerReferences = []\<rparr>"

definition zero_ListMeta :: ListMeta where
  "zero_ListMeta = undefined"

definition zero_PrivateNetworkRoute :: PrivateNetworkRoute where
  "zero_PrivateNetworkRoute = undefined"

definition zero_PrivateNetworkStatus :: PrivateNetworkStatus where
  "zero_PrivateNetworkStatus = undefined"

definition zero_NetworkInterfaceSpec :: NetworkInterfaceSpec where
  "zero_NetworkInterfaceSpec = \<lparr>nis_NodeName = '''', nis_Address = '''', nis_ID = ''''\<rparr>"

definition zero_NetworkInterfaceStatus :: NetworkInterfaceStatus where
  "zero_NetworkInterfaceStatus = \<lparr>nist_MacAddress = ''''\<rparr>"

definition zero_NetworkInterface :: NetworkInterface where
  "zero_NetworkInterface =
     \<lparr>ni_TypeMeta = zero_TypeMeta, ni_ObjectMeta = zero_ObjectMeta,
      ni_Spec = zero_NetworkInterfaceSpec, ni_Status = zero_NetworkInterfaceStatus\<rparr>"

definition zero_NetworkInterfaceList :: NetworkInterfaceList where
  "zero_NetworkInterfaceList =
     \<lparr>nil_TypeMeta = zero_TypeMeta, nil_ListMeta = zero_ListMeta, nil_Items = None\<rparr>"

definition zero_PrivateNetworkIPAMStatic :: PrivateNetworkIPAMStatic where
  "zero_PrivateNetworkIPAMStatic = \<lparr>AvailableRanges = None\<rparr>"

definition zero_PrivateNetworkIPAM :: PrivateNetworkIPAM where
  "zero_PrivateNetworkIPAM = \<lparr>Static = None\<rparr>"

definition zero_PrivateNetworkSpec :: PrivateNetworkSpec where
  "zero_PrivateNetworkSpec =
     \<lparr>pns_ID = '''', pns_Zone = '''', pns_CIDR = '''', pns_IPAM = None, pns_Routes = None\<rparr>"

definition zero_PrivateNetwork :: PrivateNetwork where
  "zero_PrivateNetwork =
     \<lparr>pn_TypeMeta = zero_TypeMeta, pn_ObjectMeta = zero_ObjectMeta,
      pn_Spec = zero_PrivateNetworkSpec, pn_Status = zero_PrivateNetworkStatus\<rparr>"

definition zero_PrivateNetworkList :: PrivateNetworkList where
  "zero_PrivateNetworkList =
     \<lparr>pnl_TypeMeta = zero_TypeMeta, pnl_ListMeta = zero_ListMeta, pnl_Items = None\<rparr>"

definition ObjectMeta_DeepCopyInto :: "ObjectMeta \<Rightarrow> ObjectMeta" where
  "ObjectMeta_DeepCopyInto om = om"

definition ListMeta_DeepCopyInto :: "ListMeta \<Rightarrow> ListMeta" where
  "ListMeta_DeepCopyInto lm = lm"

subsection \<open>DeepCopyInto\<close>

text \<open>
  \<^verbatim>\<open>in.DeepCopyInto(out)\<close> takes the struct that \<open>in\<close> points to (here \<open>inp\<close>) and
  the heap, and gives the struct that it leaves where \<open>out\<close> points to, and the heap
  with the cells it has made. It is \<open>None\<close> where a pointer or a slice of the struct does
  not point to a cell of its type, which no Go value does.
\<close>

definition NetworkInterface_DeepCopyInto ::
  "NetworkInterface \<Rightarrow> heap \<Rightarrow> (NetworkInterface \<times> heap) option" where
  "NetworkInterface_DeepCopyInto inp h =
     (let out = inp;
          out = out\<lparr>ni_TypeMeta := ni_TypeMeta inp\<rparr>;
          out = out\<lparr>ni_ObjectMeta := ObjectMeta_DeepCopyInto (ni_ObjectMeta inp)\<rparr>;
          out = out\<lparr>ni_Spec := ni_Spec inp\<rparr>;
          out = out\<lparr>ni_Status := ni_Status inp\<rparr>
      in Some (out, h))"

definition NetworkInterfaceSpec_DeepCopyInto ::
  "NetworkInterfaceSpec \<Rightarrow> heap \<Rightarrow> (NetworkInterfaceSpec \<times> heap) option" where
  "NetworkInterfaceSpec_DeepCopyInto inp h = (let out = inp in Some (out, h))"

definition NetworkInterfaceStatus_DeepCopyInto ::
  "NetworkInterfaceStatus \<Rightarrow> heap \<Rightarrow> (NetworkInterfaceStatus \<times> heap) option" where
  "NetworkInterfaceStatus_DeepCopyInto inp h = (let out = inp in Some (out, h))"

definition PrivateNetworkRoute_DeepCopyInto ::
  "PrivateNetworkRoute \<Rightarrow> heap \<Rightarrow> (PrivateNetworkRoute \<times> heap) option" where
  "PrivateNetworkRoute_DeepCopyInto inp h = (let out = inp in Some (out, h))"

definition PrivateNetworkStatus_DeepCopyInto ::
  "PrivateNetworkStatus \<Rightarrow> heap \<Rightarrow> (PrivateNetworkStatus \<times> heap) option" where
  "PrivateNetworkStatus_DeepCopyInto inp h = (let out = inp in Some (out, h))"

text \<open>
  The loop of \<^verbatim>\<open>NetworkInterfaceList.DeepCopyInto\<close>: for the \<open>k\<close> indices from \<open>i\<close> on,
  the element of the slice \<open>s\<close> is copied into the element of the array at \<open>a\<close>.
\<close>

fun copy_NetworkInterfaces :: "slice \<Rightarrow> addr \<Rightarrow> nat \<Rightarrow> nat \<Rightarrow> heap \<Rightarrow> heap option" where
  "copy_NetworkInterfaces s a i 0 h = Some h"
| "copy_NetworkInterfaces s a i (Suc k) h =
     (case load h (s_arr s) of
        Some (NetworkInterface_array xs) \<Rightarrow>
          if s_off s + i < length xs then
            (case NetworkInterface_DeepCopyInto (xs ! (s_off s + i)) h of
               None \<Rightarrow> None
             | Some (x, h1) \<Rightarrow>
                 (case load h1 a of
                    Some (NetworkInterface_array ys) \<Rightarrow>
                      if i < length ys
                      then copy_NetworkInterfaces s a (Suc i) k
                             (store a (NetworkInterface_array (ys[i := x])) h1)
                      else None
                  | _ \<Rightarrow> None))
          else None
      | _ \<Rightarrow> None)"

definition NetworkInterfaceList_DeepCopyInto ::
  "NetworkInterfaceList \<Rightarrow> heap \<Rightarrow> (NetworkInterfaceList \<times> heap) option" where
  "NetworkInterfaceList_DeepCopyInto inp h =
     (let out = inp;
          out = out\<lparr>nil_TypeMeta := nil_TypeMeta inp\<rparr>;
          out = out\<lparr>nil_ListMeta := ListMeta_DeepCopyInto (nil_ListMeta inp)\<rparr>
      in case nil_Items inp of
           None \<Rightarrow> Some (out, h)
         | Some s \<Rightarrow>
             (case new (NetworkInterface_array (replicate (s_len s) zero_NetworkInterface)) h of
                (a, h1) \<Rightarrow>
                  (case copy_NetworkInterfaces s a 0 (s_len s) h1 of
                     None \<Rightarrow> None
                   | Some h2 \<Rightarrow>
                       Some (out\<lparr>nil_Items := Some \<lparr>s_arr = a, s_off = 0, s_len = s_len s\<rparr>\<rparr>, h2))))"

definition PrivateNetworkIPAMStatic_DeepCopyInto ::
  "PrivateNetworkIPAMStatic \<Rightarrow> heap \<Rightarrow> (PrivateNetworkIPAMStatic \<times> heap) option" where
  "PrivateNetworkIPAMStatic_DeepCopyInto inp h =
     (let out = inp
      in case AvailableRanges inp of
           None \<Rightarrow> Some (out, h)
         | Some s \<Rightarrow>
             (case new (string_array (replicate (s_len s) '''')) h of
                (a, h1) \<Rightarrow>
                  (case (load h1 a, load h1 (s_arr s)) of
                     (Some (string_array dst), Some (string_array xs)) \<Rightarrow>
                       (case window s xs of
                          None \<Rightarrow> None
                        | Some src \<Rightarrow>
                            Some (out\<lparr>AvailableRanges := Some \<lparr>s_arr = a, s_off = 0, s_len = s_len s\<rparr>\<rparr>,
                                  store a (string_array (copy dst src)) h1))
                   | _ \<Rightarrow> None)))"

definition PrivateNetworkIPAM_DeepCopyInto ::
  "PrivateNetworkIPAM \<Rightarrow> heap \<Rightarrow> (PrivateNetworkIPAM \<times> heap) option" where
  "PrivateNetworkIPAM_DeepCopyInto inp h =
     (let out = inp
      in case Static inp of
           None \<Rightarrow> Some (out, h)
         | Some p \<Rightarrow>
             (case new (PrivateNetworkIPAMStatic_cell zero_PrivateNetworkIPAMStatic) h of
                (a, h1) \<Rightarrow>
                  (case load h1 p of
                     Some (PrivateNetworkIPAMStatic_cell static) \<Rightarrow>
                       (case PrivateNetworkIPAMStatic_DeepCopyInto static h1 of
                          None \<Rightarrow> None
                        | Some (static', h2) \<Rightarrow>
                            Some (out\<lparr>Static := Some a\<rparr>,
                                  store a (PrivateNetworkIPAMStatic_cell static') h2))
                   | _ \<Rightarrow> None)))"

text \<open>
  The two parts of \<^verbatim>\<open>PrivateNetworkSpec.DeepCopyInto\<close> after the assignment: the IPAM
  pointer and the slice of routes.
\<close>

definition copy_IPAM :: "addr option \<Rightarrow> heap \<Rightarrow> (addr option \<times> heap) option" where
  "copy_IPAM ipam h =
     (case ipam of
        None \<Rightarrow> Some (None, h)
      | Some p \<Rightarrow>
          (case new (PrivateNetworkIPAM_cell zero_PrivateNetworkIPAM) h of
             (a, h1) \<Rightarrow>
               (case load h1 p of
                  Some (PrivateNetworkIPAM_cell ipam0) \<Rightarrow>
                    (case PrivateNetworkIPAM_DeepCopyInto ipam0 h1 of
                       None \<Rightarrow> None
                     | Some (ipam', h2) \<Rightarrow> Some (Some a, store a (PrivateNetworkIPAM_cell ipam') h2))
                | _ \<Rightarrow> None)))"

definition copy_Routes :: "slice option \<Rightarrow> heap \<Rightarrow> (slice option \<times> heap) option" where
  "copy_Routes routes h =
     (case routes of
        None \<Rightarrow> Some (None, h)
      | Some s \<Rightarrow>
          (case new (PrivateNetworkRoute_array (replicate (s_len s) zero_PrivateNetworkRoute)) h of
             (a, h1) \<Rightarrow>
               (case (load h1 a, load h1 (s_arr s)) of
                  (Some (PrivateNetworkRoute_array dst), Some (PrivateNetworkRoute_array xs)) \<Rightarrow>
                    (case window s xs of
                       None \<Rightarrow> None
                     | Some src \<Rightarrow>
                         Some (Some \<lparr>s_arr = a, s_off = 0, s_len = s_len s\<rparr>,
                               store a (PrivateNetworkRoute_array (copy dst src)) h1))
                | _ \<Rightarrow> None)))"

definition PrivateNetworkSpec_DeepCopyInto ::
  "PrivateNetworkSpec \<Rightarrow> heap \<Rightarrow> (PrivateNetworkSpec \<times> heap) option" where
  "PrivateNetworkSpec_DeepCopyInto inp h =
     (let out = inp
      in case copy_IPAM (pns_IPAM inp) h of
           None \<Rightarrow> None
         | Some (ipam, h1) \<Rightarrow>
             (case copy_Routes (pns_Routes inp) h1 of
                None \<Rightarrow> None
              | Some (routes, h2) \<Rightarrow> Some (out\<lparr>pns_IPAM := ipam, pns_Routes := routes\<rparr>, h2)))"

definition PrivateNetwork_DeepCopyInto ::
  "PrivateNetwork \<Rightarrow> heap \<Rightarrow> (PrivateNetwork \<times> heap) option" where
  "PrivateNetwork_DeepCopyInto inp h =
     (let out = inp;
          out = out\<lparr>pn_TypeMeta := pn_TypeMeta inp\<rparr>;
          out = out\<lparr>pn_ObjectMeta := ObjectMeta_DeepCopyInto (pn_ObjectMeta inp)\<rparr>
      in case PrivateNetworkSpec_DeepCopyInto (pn_Spec inp) h of
           None \<Rightarrow> None
         | Some (spec, h1) \<Rightarrow> Some (out\<lparr>pn_Spec := spec, pn_Status := pn_Status inp\<rparr>, h1))"

text \<open>The loop of \<^verbatim>\<open>PrivateNetworkList.DeepCopyInto\<close>, as the one above.\<close>

fun copy_PrivateNetworks :: "slice \<Rightarrow> addr \<Rightarrow> nat \<Rightarrow> nat \<Rightarrow> heap \<Rightarrow> heap option" where
  "copy_PrivateNetworks s a i 0 h = Some h"
| "copy_PrivateNetworks s a i (Suc k) h =
     (case load h (s_arr s) of
        Some (PrivateNetwork_array xs) \<Rightarrow>
          if s_off s + i < length xs then
            (case PrivateNetwork_DeepCopyInto (xs ! (s_off s + i)) h of
               None \<Rightarrow> None
             | Some (x, h1) \<Rightarrow>
                 (case load h1 a of
                    Some (PrivateNetwork_array ys) \<Rightarrow>
                      if i < length ys
                      then copy_PrivateNetworks s a (Suc i) k
                             (store a (PrivateNetwork_array (ys[i := x])) h1)
                      else None
                  | _ \<Rightarrow> None))
          else None
      | _ \<Rightarrow> None)"

definition PrivateNetworkList_DeepCopyInto ::
  "PrivateNetworkList \<Rightarrow> heap \<Rightarrow> (PrivateNetworkList \<times> heap) option" where
  "PrivateNetworkList_DeepCopyInto inp h =
     (let out = inp;
          out = out\<lparr>pnl_TypeMeta := pnl_TypeMeta inp\<rparr>;
          out = out\<lparr>pnl_ListMeta := ListMeta_DeepCopyInto (pnl_ListMeta inp)\<rparr>
      in case pnl_Items inp of
           None \<Rightarrow> Some (out, h)
         | Some s \<Rightarrow>
             (case new (PrivateNetwork_array (replicate (s_len s) zero_PrivateNetwork)) h of
                (a, h1) \<Rightarrow>
                  (case copy_PrivateNetworks s a 0 (s_len s) h1 of
                     None \<Rightarrow> None
                   | Some h2 \<Rightarrow>
                       Some (out\<lparr>pnl_Items := Some \<lparr>s_arr = a, s_off = 0, s_len = s_len s\<rparr>\<rparr>, h2))))"

subsection \<open>DeepCopy\<close>

text \<open>
  \<^verbatim>\<open>in.DeepCopy()\<close>, the same for every type: nil for the nil pointer, and else the
  address of a cell made by \<^verbatim>\<open>new\<close>, into which the struct at \<open>in\<close> is copied. \<open>get\<close>
  reads a struct of the type from a cell, \<open>cell\<close> makes a cell of one.
\<close>

definition DeepCopy ::
  "(cell \<Rightarrow> 'v option) \<Rightarrow> ('v \<Rightarrow> cell) \<Rightarrow> 'v \<Rightarrow> ('v \<Rightarrow> heap \<Rightarrow> ('v \<times> heap) option) \<Rightarrow>
   addr option \<Rightarrow> heap \<Rightarrow> (addr option \<times> heap) option" where
  "DeepCopy get cell zero DeepCopyInto inp h =
     (case inp of
        None \<Rightarrow> Some (None, h)
      | Some p \<Rightarrow>
          (case new (cell zero) h of
             (out, h1) \<Rightarrow>
               (case load h1 p of
                  None \<Rightarrow> None
                | Some c \<Rightarrow>
                    (case get c of
                       None \<Rightarrow> None
                     | Some v \<Rightarrow>
                         (case DeepCopyInto v h1 of
                            None \<Rightarrow> None
                          | Some (v', h2) \<Rightarrow> Some (Some out, store out (cell v') h2))))))"

definition NetworkInterface_DeepCopy :: "addr option \<Rightarrow> heap \<Rightarrow> (addr option \<times> heap) option" where
  "NetworkInterface_DeepCopy =
     DeepCopy (\<lambda>c. case c of NetworkInterface_cell v \<Rightarrow> Some v | _ \<Rightarrow> None)
       NetworkInterface_cell zero_NetworkInterface NetworkInterface_DeepCopyInto"

definition NetworkInterfaceList_DeepCopy :: "addr option \<Rightarrow> heap \<Rightarrow> (addr option \<times> heap) option" where
  "NetworkInterfaceList_DeepCopy =
     DeepCopy (\<lambda>c. case c of NetworkInterfaceList_cell v \<Rightarrow> Some v | _ \<Rightarrow> None)
       NetworkInterfaceList_cell zero_NetworkInterfaceList NetworkInterfaceList_DeepCopyInto"

definition NetworkInterfaceSpec_DeepCopy :: "addr option \<Rightarrow> heap \<Rightarrow> (addr option \<times> heap) option" where
  "NetworkInterfaceSpec_DeepCopy =
     DeepCopy (\<lambda>c. case c of NetworkInterfaceSpec_cell v \<Rightarrow> Some v | _ \<Rightarrow> None)
       NetworkInterfaceSpec_cell zero_NetworkInterfaceSpec NetworkInterfaceSpec_DeepCopyInto"

definition NetworkInterfaceStatus_DeepCopy :: "addr option \<Rightarrow> heap \<Rightarrow> (addr option \<times> heap) option" where
  "NetworkInterfaceStatus_DeepCopy =
     DeepCopy (\<lambda>c. case c of NetworkInterfaceStatus_cell v \<Rightarrow> Some v | _ \<Rightarrow> None)
       NetworkInterfaceStatus_cell zero_NetworkInterfaceStatus NetworkInterfaceStatus_DeepCopyInto"

definition PrivateNetwork_DeepCopy :: "addr option \<Rightarrow> heap \<Rightarrow> (addr option \<times> heap) option" where
  "PrivateNetwork_DeepCopy =
     DeepCopy (\<lambda>c. case c of PrivateNetwork_cell v \<Rightarrow> Some v | _ \<Rightarrow> None)
       PrivateNetwork_cell zero_PrivateNetwork PrivateNetwork_DeepCopyInto"

definition PrivateNetworkIPAM_DeepCopy :: "addr option \<Rightarrow> heap \<Rightarrow> (addr option \<times> heap) option" where
  "PrivateNetworkIPAM_DeepCopy =
     DeepCopy (\<lambda>c. case c of PrivateNetworkIPAM_cell v \<Rightarrow> Some v | _ \<Rightarrow> None)
       PrivateNetworkIPAM_cell zero_PrivateNetworkIPAM PrivateNetworkIPAM_DeepCopyInto"

definition PrivateNetworkIPAMStatic_DeepCopy :: "addr option \<Rightarrow> heap \<Rightarrow> (addr option \<times> heap) option" where
  "PrivateNetworkIPAMStatic_DeepCopy =
     DeepCopy (\<lambda>c. case c of PrivateNetworkIPAMStatic_cell v \<Rightarrow> Some v | _ \<Rightarrow> None)
       PrivateNetworkIPAMStatic_cell zero_PrivateNetworkIPAMStatic PrivateNetworkIPAMStatic_DeepCopyInto"

definition PrivateNetworkList_DeepCopy :: "addr option \<Rightarrow> heap \<Rightarrow> (addr option \<times> heap) option" where
  "PrivateNetworkList_DeepCopy =
     DeepCopy (\<lambda>c. case c of PrivateNetworkList_cell v \<Rightarrow> Some v | _ \<Rightarrow> None)
       PrivateNetworkList_cell zero_PrivateNetworkList PrivateNetworkList_DeepCopyInto"

definition PrivateNetworkRoute_DeepCopy :: "addr option \<Rightarrow> heap \<Rightarrow> (addr option \<times> heap) option" where
  "PrivateNetworkRoute_DeepCopy =
     DeepCopy (\<lambda>c. case c of PrivateNetworkRoute_cell v \<Rightarrow> Some v | _ \<Rightarrow> None)
       PrivateNetworkRoute_cell zero_PrivateNetworkRoute PrivateNetworkRoute_DeepCopyInto"

definition PrivateNetworkSpec_DeepCopy :: "addr option \<Rightarrow> heap \<Rightarrow> (addr option \<times> heap) option" where
  "PrivateNetworkSpec_DeepCopy =
     DeepCopy (\<lambda>c. case c of PrivateNetworkSpec_cell v \<Rightarrow> Some v | _ \<Rightarrow> None)
       PrivateNetworkSpec_cell zero_PrivateNetworkSpec PrivateNetworkSpec_DeepCopyInto"

definition PrivateNetworkStatus_DeepCopy :: "addr option \<Rightarrow> heap \<Rightarrow> (addr option \<times> heap) option" where
  "PrivateNetworkStatus_DeepCopy =
     DeepCopy (\<lambda>c. case c of PrivateNetworkStatus_cell v \<Rightarrow> Some v | _ \<Rightarrow> None)
       PrivateNetworkStatus_cell zero_PrivateNetworkStatus PrivateNetworkStatus_DeepCopyInto"

subsection \<open>What a struct holds, and where\<close>

text \<open>
  The contents of a struct in a heap: its plain fields, and in place of each pointer and
  slice what it points to (\<open>None\<close> for nil). Two structs are structurally equal when
  their contents are equal. The contents are defined (\<open>Some\<close>) when every pointer and
  slice of the struct points to a cell of its type.
\<close>

definition contents_strings :: "heap \<Rightarrow> slice option \<Rightarrow> string list option option" where
  "contents_strings h sl =
     (case sl of
        None \<Rightarrow> Some None
      | Some s \<Rightarrow>
          (case load h (s_arr s) of
             Some (string_array xs) \<Rightarrow> map_option Some (window s xs)
           | _ \<Rightarrow> None))"

definition contents_routes :: "heap \<Rightarrow> slice option \<Rightarrow> PrivateNetworkRoute list option option" where
  "contents_routes h sl =
     (case sl of
        None \<Rightarrow> Some None
      | Some s \<Rightarrow>
          (case load h (s_arr s) of
             Some (PrivateNetworkRoute_array xs) \<Rightarrow> map_option Some (window s xs)
           | _ \<Rightarrow> None))"

definition contents_PrivateNetworkIPAMStatic ::
  "heap \<Rightarrow> PrivateNetworkIPAMStatic \<Rightarrow> string list option option" where
  "contents_PrivateNetworkIPAMStatic h static = contents_strings h (AvailableRanges static)"

definition contents_PrivateNetworkIPAM ::
  "heap \<Rightarrow> PrivateNetworkIPAM \<Rightarrow> string list option option option" where
  "contents_PrivateNetworkIPAM h ipam =
     (case Static ipam of
        None \<Rightarrow> Some None
      | Some p \<Rightarrow>
          (case load h p of
             Some (PrivateNetworkIPAMStatic_cell static) \<Rightarrow>
               map_option Some (contents_PrivateNetworkIPAMStatic h static)
           | _ \<Rightarrow> None))"

definition contents_IPAM :: "heap \<Rightarrow> addr option \<Rightarrow> string list option option option option" where
  "contents_IPAM h ipam =
     (case ipam of
        None \<Rightarrow> Some None
      | Some p \<Rightarrow>
          (case load h p of
             Some (PrivateNetworkIPAM_cell ipam0) \<Rightarrow> map_option Some (contents_PrivateNetworkIPAM h ipam0)
           | _ \<Rightarrow> None))"

type_synonym spec_contents =
  "string \<times> string \<times> string \<times> string list option option option \<times> PrivateNetworkRoute list option"

definition contents_PrivateNetworkSpec :: "heap \<Rightarrow> PrivateNetworkSpec \<Rightarrow> spec_contents option" where
  "contents_PrivateNetworkSpec h spec =
     (case (contents_IPAM h (pns_IPAM spec), contents_routes h (pns_Routes spec)) of
        (Some ipam, Some routes) \<Rightarrow> Some (pns_ID spec, pns_Zone spec, pns_CIDR spec, ipam, routes)
      | _ \<Rightarrow> None)"

type_synonym network_contents = "TypeMeta \<times> ObjectMeta \<times> spec_contents \<times> PrivateNetworkStatus"

definition contents_PrivateNetwork :: "heap \<Rightarrow> PrivateNetwork \<Rightarrow> network_contents option" where
  "contents_PrivateNetwork h pn =
     map_option (\<lambda>spec. (pn_TypeMeta pn, pn_ObjectMeta pn, spec, pn_Status pn))
       (contents_PrivateNetworkSpec h (pn_Spec pn))"

definition contents_PrivateNetworkList ::
  "heap \<Rightarrow> PrivateNetworkList \<Rightarrow> (TypeMeta \<times> ListMeta \<times> network_contents list option) option" where
  "contents_PrivateNetworkList h l =
     (case pnl_Items l of
        None \<Rightarrow> Some (pnl_TypeMeta l, pnl_ListMeta l, None)
      | Some s \<Rightarrow>
          (case load h (s_arr s) of
             Some (PrivateNetwork_array xs) \<Rightarrow>
               (case window s xs of
                  None \<Rightarrow> None
                | Some items \<Rightarrow>
                    map_option (\<lambda>cs. (pnl_TypeMeta l, pnl_ListMeta l, Some cs))
                      (those (map (contents_PrivateNetwork h) items)))
           | _ \<Rightarrow> None))"

definition contents_NetworkInterfaceList ::
  "heap \<Rightarrow> NetworkInterfaceList \<Rightarrow> (TypeMeta \<times> ListMeta \<times> NetworkInterface list option) option" where
  "contents_NetworkInterfaceList h l =
     (case nil_Items l of
        None \<Rightarrow> Some (nil_TypeMeta l, nil_ListMeta l, None)
      | Some s \<Rightarrow>
          (case load h (s_arr s) of
             Some (NetworkInterface_array xs) \<Rightarrow>
               map_option (\<lambda>items. (nil_TypeMeta l, nil_ListMeta l, Some items)) (window s xs)
           | _ \<Rightarrow> None))"

text \<open>The contents of a struct without pointers are the struct.\<close>

definition contents_plain :: "heap \<Rightarrow> 'v \<Rightarrow> 'v option" where
  "contents_plain h v = Some v"

text \<open>The addresses of the cells that a struct reaches through its pointers and slices.\<close>

definition cells_slice :: "slice option \<Rightarrow> addr list" where
  "cells_slice sl = (case sl of None \<Rightarrow> [] | Some s \<Rightarrow> [s_arr s])"

definition cells_PrivateNetworkIPAMStatic :: "heap \<Rightarrow> PrivateNetworkIPAMStatic \<Rightarrow> addr list" where
  "cells_PrivateNetworkIPAMStatic h static = cells_slice (AvailableRanges static)"

definition cells_PrivateNetworkIPAM :: "heap \<Rightarrow> PrivateNetworkIPAM \<Rightarrow> addr list" where
  "cells_PrivateNetworkIPAM h ipam =
     (case Static ipam of
        None \<Rightarrow> []
      | Some p \<Rightarrow>
          p # (case load h p of
                 Some (PrivateNetworkIPAMStatic_cell static) \<Rightarrow> cells_PrivateNetworkIPAMStatic h static
               | _ \<Rightarrow> []))"

definition cells_IPAM :: "heap \<Rightarrow> addr option \<Rightarrow> addr list" where
  "cells_IPAM h ipam =
     (case ipam of
        None \<Rightarrow> []
      | Some p \<Rightarrow>
          p # (case load h p of
                 Some (PrivateNetworkIPAM_cell ipam0) \<Rightarrow> cells_PrivateNetworkIPAM h ipam0
               | _ \<Rightarrow> []))"

definition cells_PrivateNetworkSpec :: "heap \<Rightarrow> PrivateNetworkSpec \<Rightarrow> addr list" where
  "cells_PrivateNetworkSpec h spec = cells_IPAM h (pns_IPAM spec) @ cells_slice (pns_Routes spec)"

definition cells_PrivateNetwork :: "heap \<Rightarrow> PrivateNetwork \<Rightarrow> addr list" where
  "cells_PrivateNetwork h pn = cells_PrivateNetworkSpec h (pn_Spec pn)"

definition cells_PrivateNetworkList :: "heap \<Rightarrow> PrivateNetworkList \<Rightarrow> addr list" where
  "cells_PrivateNetworkList h l =
     (case pnl_Items l of
        None \<Rightarrow> []
      | Some s \<Rightarrow>
          s_arr s #
          (case load h (s_arr s) of
             Some (PrivateNetwork_array xs) \<Rightarrow>
               concat (map (cells_PrivateNetwork h) (take (s_len s) (drop (s_off s) xs)))
           | _ \<Rightarrow> []))"

definition cells_NetworkInterfaceList :: "heap \<Rightarrow> NetworkInterfaceList \<Rightarrow> addr list" where
  "cells_NetworkInterfaceList h l = cells_slice (nil_Items l)"

definition cells_plain :: "heap \<Rightarrow> 'v \<Rightarrow> addr list" where
  "cells_plain h v = []"

text \<open>
  What it is for the \<^verbatim>\<open>DeepCopy\<close> of a type to be right. Of the nil pointer it returns
  nil and leaves the heap as it is. Of a pointer \<open>p\<close> to a struct whose contents are
  defined it returns a pointer \<open>q\<close> to a new cell (no cell of the heap had its address)
  that holds a struct with the same contents, all the cells that this struct reaches
  are new too, and the cells that the heap had are unchanged.
\<close>

definition deep_copies ::
  "(addr option \<Rightarrow> heap \<Rightarrow> (addr option \<times> heap) option) \<Rightarrow> ('v \<Rightarrow> cell) \<Rightarrow>
   (heap \<Rightarrow> 'v \<Rightarrow> 'c option) \<Rightarrow> (heap \<Rightarrow> 'v \<Rightarrow> addr list) \<Rightarrow> bool" where
  "deep_copies copy_of cell contents cells =
     ((\<forall>h. copy_of None h = Some (None, h)) \<and>
      (\<forall>h p v. load h p = Some (cell v) \<and> contents h v \<noteq> None \<longrightarrow>
         (\<exists>q h' v'. copy_of (Some p) h = Some (Some q, h') \<and>
            length h \<le> q \<and> take (length h) h' = h \<and>
            load h' q = Some (cell v') \<and>
            contents h' v' = contents h v \<and>
            (\<forall>a\<in>set (cells h' v'). length h \<le> a))))"

text \<open>
  Two properties from which that follows. \<open>framed\<close>: a struct with defined contents
  reaches only cells of the heap, and its contents and the cells it reaches are the same
  in every heap that has the same cells at these addresses. \<open>copies_into\<close>: the
  \<^verbatim>\<open>DeepCopyInto\<close> of the type, on a struct with defined contents, gives a struct with the
  same contents that reaches new cells only, in a heap that has the old cells unchanged.
\<close>

definition framed :: "(heap \<Rightarrow> 'v \<Rightarrow> 'c option) \<Rightarrow> (heap \<Rightarrow> 'v \<Rightarrow> addr list) \<Rightarrow> bool" where
  "framed contents cells =
     ((\<forall>h v. contents h v \<noteq> None \<longrightarrow> (\<forall>a\<in>set (cells h v). a < length h)) \<and>
      (\<forall>h h' v. contents h v \<noteq> None \<and> (\<forall>a\<in>set (cells h v). load h' a = load h a) \<longrightarrow>
         contents h' v = contents h v \<and> cells h' v = cells h v))"

definition copies_into ::
  "('v \<Rightarrow> heap \<Rightarrow> ('v \<times> heap) option) \<Rightarrow> (heap \<Rightarrow> 'v \<Rightarrow> 'c option) \<Rightarrow>
   (heap \<Rightarrow> 'v \<Rightarrow> addr list) \<Rightarrow> bool" where
  "copies_into into contents cells =
     (\<forall>h v. contents h v \<noteq> None \<longrightarrow>
        (\<exists>v' h'. into v h = Some (v', h') \<and> take (length h) h' = h \<and>
           contents h' v' = contents h v \<and>
           (\<forall>a\<in>set (cells h' v'). length h \<le> a \<and> a < length h')))"

section \<open>Example environments\<close>

text \<open>
  Concrete objects and answers on which the properties below are exercised. In
  \<open>unavailable\<close> every external call fails; an example overrides the answers it needs.
\<close>

definition unavailable :: env where
  "unavailable =
     \<lparr>Client_Get_PrivateNetwork = (\<lambda>h name. Inl (Err ''unavailable'')),
      IPAM_NewPrefix = (\<lambda>h cidr. Inl (Err ''unavailable'')),
      Client_Update_PrivateNetwork = (\<lambda>h pn. Inl (Err ''unavailable'')),
      Client_List_NetworkInterface = (\<lambda>h labels. Inl (Err ''unavailable'')),
      Client_Delete_NetworkInterface = (\<lambda>h nic. Some (Err ''unavailable'')),
      IPAM_ReleaseIPFromPrefix = (\<lambda>h cidr ip. Some (Err ''unavailable'')),
      Client_Get_Node = (\<lambda>h name. Inl (Err ''unavailable'')),
      InstanceAPI_GetServer = (\<lambda>h zone id. Inl (Err ''unavailable'')),
      InstanceAPI_ListServers = (\<lambda>h zone name. Inl (Err ''unavailable'')),
      InstanceAPI_DeletePrivateNIC = (\<lambda>h zone nic server. Some (Err ''unavailable'')),
      Client_Update_NetworkInterface = (\<lambda>h nic. Some (Err ''unavailable'')),
      IPAM_DeletePrefix = (\<lambda>h cidr. Some (Err ''unavailable'')),
      VpcAPI_GetPrivateNetwork = (\<lambda>h zone id. Some (Err ''unavailable'')),
      Client_List_Node = (\<lambda>h. Inl (Err ''unavailable'')),
      InstanceAPI_CreatePrivateNIC = (\<lambda>h zone pn server. Inl (Err ''unavailable'')),
      IPAM_AcquireIP = (\<lambda>h cidr. Inl (Err ''unavailable'')),
      Prefix_IPNet = (\<lambda>prefix. Inl (Err ''unavailable'')),
      Client_Create_NetworkInterface = (\<lambda>h nic. Inl (Err ''unavailable'')),
      Client_Status_Update_NetworkInterface = (\<lambda>h nic. Some (Err ''unavailable'')),
      SetControllerReference_check = (\<lambda>pn nic. Inl (Err ''unavailable''))\<rparr>"

definition node1 :: Node where
  "node1 = \<lparr>node_Name = ''node-1'', node_ProviderID = ''''\<rparr>"

definition node2 :: Node where
  "node2 = \<lparr>node_Name = ''node-2'', node_ProviderID = ''scaleway://instance/fr-par-1/abc''\<rparr>"

definition node3 :: Node where
  "node3 = \<lparr>node_Name = ''node-3'', node_ProviderID = ''scaleway://instance/fr-par-1/''\<rparr>"

definition server1 :: Server where
  "server1 = \<lparr>srv_ID = ''abc'', srv_Zone = ''fr-par-1'', srv_PrivateNics = []\<rparr>"

definition server2 :: Server where
  "server2 = \<lparr>srv_ID = ''def'', srv_Zone = ''fr-par-1'',
              srv_PrivateNics = [\<lparr>pnic_ID = ''nic-7'', pnic_PrivateNetworkID = ''net-a'',
                                  pnic_MacAddress = ''02:00:00:00:00:07''\<rparr>]\<rparr>"

definition two_servers :: env where
  "two_servers = unavailable\<lparr>InstanceAPI_ListServers := (\<lambda>h zone name. Inr [server1, server2])\<rparr>"

definition one_server :: env where
  "one_server = unavailable\<lparr>InstanceAPI_ListServers := (\<lambda>h zone name. Inr [server1])\<rparr>"

text \<open>
  The network \<open>pn-a\<close> with the generic finalizer, and the same network marked for
  deletion; its status, of which nothing is known, is left unspecified.
\<close>

definition pn_a :: PrivateNetwork where
  "pn_a =
     \<lparr>pn_TypeMeta = \<lparr>tm_Kind = ''PrivateNetwork'', tm_APIVersion = ''vpc.scaleway.com/v1alpha1''\<rparr>,
      pn_ObjectMeta =
        \<lparr>om_Name = ''pn-a'', om_GenerateName = '''', om_UID = ''uid-a'', om_Labels = Map.empty,
         om_Annotations = Map.empty, om_Finalizers = [''scaleway.com/finalizer''],
         om_DeletionTimestamp = None, om_OwnerReferences = []\<rparr>,
      pn_Spec = \<lparr>pns_ID = ''net-a'', pns_Zone = ''fr-par-1'', pns_CIDR = ''10.0.0.0/24'',
                 pns_IPAM = None, pns_Routes = None\<rparr>,
      pn_Status = undefined\<rparr>"

definition pn_a_deleting :: PrivateNetwork where
  "pn_a_deleting = pn_a\<lparr>pn_ObjectMeta := (pn_ObjectMeta pn_a)\<lparr>om_DeletionTimestamp := Some 1700000000\<rparr>\<rparr>"

text \<open>
  A child of \<open>pn-a\<close> on \<open>node-1\<close>: as it is created, and marked for deletion with its
  generic finalizer cleared.
\<close>

definition child1 :: NetworkInterface where
  "child1 =
     \<lparr>ni_TypeMeta = \<lparr>tm_Kind = ''NetworkInterface'', tm_APIVersion = ''vpc.scaleway.com/v1alpha1''\<rparr>,
      ni_ObjectMeta =
        \<lparr>om_Name = ''pn-a-x7k2p'', om_GenerateName = ''pn-a-'', om_UID = ''uid-1'',
         om_Labels = [''private-network'' \<mapsto> ''pn-a'', ''node'' \<mapsto> ''node-1''],
         om_Annotations = Map.empty,
         om_Finalizers = [''scaleway.com/finalizer'', ''scaleway.com/finalizer-ip''],
         om_DeletionTimestamp = None, om_OwnerReferences = []\<rparr>,
      ni_Spec = \<lparr>nis_NodeName = ''node-1'', nis_Address = ''10.0.0.2/24'', nis_ID = ''nic-7''\<rparr>,
      ni_Status = \<lparr>nist_MacAddress = ''02:00:00:00:00:07''\<rparr>\<rparr>"

definition child1_released :: NetworkInterface where
  "child1_released =
     child1\<lparr>ni_ObjectMeta := (ni_ObjectMeta child1)
              \<lparr>om_DeletionTimestamp := Some 1700000000,
               om_Finalizers := [''scaleway.com/finalizer-ip'']\<rparr>\<rparr>"



text \<open>
  The store has \<open>pn-a\<close>, not marked for deletion, and the pool knows its prefix
  (\<open>store_has_pn_a\<close>); the cloud provider knows the network too (\<open>cloud_has_net_a\<close>).
\<close>

definition store_has_pn_a :: env where
  "store_has_pn_a = unavailable
     \<lparr>Client_Get_PrivateNetwork := (\<lambda>h name. Inr pn_a),
      IPAM_NewPrefix := (\<lambda>h cidr. Inr \<lparr>Cidr = cidr\<rparr>)\<rparr>"

definition cloud_has_net_a :: env where
  "cloud_has_net_a = store_has_pn_a\<lparr>VpcAPI_GetPrivateNetwork := (\<lambda>h zone id. None)\<rparr>"

text \<open>
  The cluster has the node \<open>node-1\<close>, whose provider identifier is empty, and the cloud
  provider lists no server with its name; the network has no child.
\<close>

definition unresolvable_node :: env where
  "unresolvable_node = cloud_has_net_a
     \<lparr>Client_List_Node := (\<lambda>h. Inr [node1]),
      Client_List_NetworkInterface := (\<lambda>h labels. Inr []),
      InstanceAPI_ListServers := (\<lambda>h zone name. Inr [])\<rparr>"

text \<open>
  The store has \<open>pn-a\<close>, marked for deletion, and its child, marked for deletion with
  the generic finalizer cleared. The pool does not find the address of the child any
  more, and the store does not find the node of the child; the update of the child
  succeeds.
\<close>

definition child_released_node_gone :: env where
  "child_released_node_gone = unavailable
     \<lparr>Client_Get_PrivateNetwork := (\<lambda>h name. Inr pn_a_deleting),
      IPAM_NewPrefix := (\<lambda>h cidr. Inr \<lparr>Cidr = cidr\<rparr>),
      Client_List_NetworkInterface := (\<lambda>h labels. Inr [child1_released]),
      IPAM_ReleaseIPFromPrefix := (\<lambda>h cidr ip. Some (IpamNotFoundError ''NotFound'')),
      Client_Get_Node := (\<lambda>h name. Inl (ApiNotFound ''nodes node-1 not found'')),
      Client_Update_NetworkInterface := (\<lambda>h nic. None)\<rparr>"

text \<open>
  The store has \<open>pn-a\<close>, marked for deletion, and no child of it; the pool does not
  find the prefix any more; the update of the network succeeds.
\<close>

definition no_child_prefix_gone :: env where
  "no_child_prefix_gone = unavailable
     \<lparr>Client_Get_PrivateNetwork := (\<lambda>h name. Inr pn_a_deleting),
      IPAM_NewPrefix := (\<lambda>h cidr. Inr \<lparr>Cidr = cidr\<rparr>),
      Client_List_NetworkInterface := (\<lambda>h labels. Inr []),
      IPAM_DeletePrefix := (\<lambda>h cidr. Some (IpamNotFoundError ''NotFound'')),
      Client_Update_PrivateNetwork := (\<lambda>h pn. Inr pn)\<rparr>"

text \<open>
  The store lists two children of \<open>pn-a\<close> for the node \<open>node-1\<close>. In
  \<open>two_children\<close> the server of the node has a private NIC on the network; in
  \<open>two_children_no_nic\<close> it has none, and the creation of one fails.
\<close>

definition child1_twin :: NetworkInterface where
  "child1_twin =
     child1\<lparr>ni_ObjectMeta := (ni_ObjectMeta child1)\<lparr>om_Name := ''pn-a-q9d4m'', om_UID := ''uid-2''\<rparr>,
            ni_Spec := (ni_Spec child1)\<lparr>nis_Address := ''10.0.0.3/24''\<rparr>\<rparr>"

definition two_children :: env where
  "two_children = cloud_has_net_a
     \<lparr>Client_List_Node := (\<lambda>h. Inr [node1]),
      Client_List_NetworkInterface := (\<lambda>h labels. Inr [child1, child1_twin]),
      InstanceAPI_ListServers := (\<lambda>h zone name. Inr [server2])\<rparr>"

definition two_children_no_nic :: env where
  "two_children_no_nic = two_children\<lparr>InstanceAPI_ListServers := (\<lambda>h zone name. Inr [server1])\<rparr>"

text \<open>
  An environment that remembers: the store lists the NetworkInterfaces created so far,
  and the server \<open>abc\<close>, found by the name of the node, has the private NICs created so
  far. Every call succeeds. The store has the network \<open>pn\<close> and the node \<open>node-1\<close>.
\<close>

definition created_interfaces :: "history \<Rightarrow> NetworkInterface list" where
  "created_interfaces h =
     List.map_filter (\<lambda>e. case e of Create_NetworkInterface nic \<Rightarrow> Some nic | _ \<Rightarrow> None) h"

definition created_nics :: "history \<Rightarrow> PrivateNIC list" where
  "created_nics h =
     List.map_filter
       (\<lambda>e. case e of
               CreatePrivateNIC zone network server \<Rightarrow>
                 Some \<lparr>pnic_ID = ''nic-1'', pnic_PrivateNetworkID = network,
                       pnic_MacAddress = ''02:00:00:00:00:01''\<rparr>
             | _ \<Rightarrow> None) h"

definition remembering :: "PrivateNetwork \<Rightarrow> env" where
  "remembering pn =
     \<lparr>Client_Get_PrivateNetwork = (\<lambda>h name. Inr pn),
      IPAM_NewPrefix = (\<lambda>h cidr. Inr \<lparr>Cidr = cidr\<rparr>),
      Client_Update_PrivateNetwork = (\<lambda>h pn. Inr pn),
      Client_List_NetworkInterface = (\<lambda>h labels. Inr (created_interfaces h)),
      Client_Delete_NetworkInterface = (\<lambda>h nic. None),
      IPAM_ReleaseIPFromPrefix = (\<lambda>h cidr ip. None),
      Client_Get_Node = (\<lambda>h name. Inr node1),
      InstanceAPI_GetServer = (\<lambda>h zone id. Inl (Err ''unavailable'')),
      InstanceAPI_ListServers =
        (\<lambda>h zone name. Inr [\<lparr>srv_ID = ''abc'', srv_Zone = ''fr-par-1'',
                                srv_PrivateNics = created_nics h\<rparr>]),
      InstanceAPI_DeletePrivateNIC = (\<lambda>h zone nic server. None),
      Client_Update_NetworkInterface = (\<lambda>h nic. None),
      IPAM_DeletePrefix = (\<lambda>h cidr. None),
      VpcAPI_GetPrivateNetwork = (\<lambda>h zone id. None),
      Client_List_Node = (\<lambda>h. Inr [node1]),
      InstanceAPI_CreatePrivateNIC =
        (\<lambda>h zone network server.
           Inr \<lparr>pnic_ID = ''nic-1'', pnic_PrivateNetworkID = network,
                 pnic_MacAddress = ''02:00:00:00:00:01''\<rparr>),
      IPAM_AcquireIP = (\<lambda>h cidr. Inr ''10.0.0.2''),
      Prefix_IPNet = (\<lambda>prefix. Inr \<lparr>ipnet_IP = ''10.0.0.0'', ipnet_Ones = 24\<rparr>),
      Client_Create_NetworkInterface =
        (\<lambda>h nic. Inr (nic\<lparr>ni_ObjectMeta := (ni_ObjectMeta nic)
                              \<lparr>om_Name := om_GenerateName (ni_ObjectMeta nic) @ ''x7k2p''\<rparr>\<rparr>)),
      Client_Status_Update_NetworkInterface = (\<lambda>h nic. None),
      SetControllerReference_check =
        (\<lambda>pn nic. Inr (''vpc.scaleway.com/v1alpha1'', ''PrivateNetwork''))\<rparr>"

text \<open>The NetworkInterface that a pass creates for \<open>pn-a\<close> and \<open>node-1\<close> there.\<close>

definition created1 :: NetworkInterface where
  "created1 =
     \<lparr>ni_TypeMeta = \<lparr>tm_Kind = '''', tm_APIVersion = ''''\<rparr>,
      ni_ObjectMeta =
        \<lparr>om_Name = '''', om_GenerateName = ''pn-a-'', om_UID = '''',
         om_Labels = [''private-network'' \<mapsto> ''pn-a'', ''node'' \<mapsto> ''node-1''],
         om_Annotations = Map.empty,
         om_Finalizers = [''scaleway.com/finalizer'', ''scaleway.com/finalizer-ip''],
         om_DeletionTimestamp = None,
         om_OwnerReferences =
           [\<lparr>ref_APIVersion = ''vpc.scaleway.com/v1alpha1'', ref_Kind = ''PrivateNetwork'',
             ref_Name = ''pn-a'', ref_UID = ''uid-a'', ref_Controller = True,
             ref_BlockOwnerDeletion = True\<rparr>]\<rparr>,
      ni_Spec = \<lparr>nis_NodeName = ''node-1'', nis_Address = ''10.0.0.2/24'', nis_ID = ''nic-1''\<rparr>,
      ni_Status = \<lparr>nist_MacAddress = ''''\<rparr>\<rparr>"

text \<open>The history of the first pass on \<open>pn-a\<close> in \<open>remembering pn_a\<close>.\<close>

definition first_pass :: history where
  "first_pass =
     [Get_PrivateNetwork ''pn-a'', NewPrefix ''10.0.0.0/24'', GetPrivateNetwork ''fr-par-1'' ''net-a'',
      List_Node, List_NetworkInterface [''private-network'' \<mapsto> ''pn-a'', ''node'' \<mapsto> ''node-1''],
      ListServers '''' ''node-1'', CreatePrivateNIC ''fr-par-1'' ''net-a'' ''abc'',
      AcquireIP ''10.0.0.0/24'', Create_NetworkInterface created1,
      Status_Update_NetworkInterface
        (created1\<lparr>ni_ObjectMeta := (ni_ObjectMeta created1)\<lparr>om_Name := ''pn-a-x7k2p''\<rparr>,
                  ni_Status := \<lparr>nist_MacAddress = ''02:00:00:00:00:01''\<rparr>\<rparr>),
      Log_Info ''Successfully created networkInterface pn-a-x7k2p on node node-1'']"

text \<open>The network \<open>pn-a\<close> with a label of its own under the key \<open>node\<close>.\<close>

definition pn_a_labelled :: PrivateNetwork where
  "pn_a_labelled =
     pn_a\<lparr>pn_ObjectMeta := (pn_ObjectMeta pn_a)\<lparr>om_Labels := [''node'' \<mapsto> ''other'']\<rparr>\<rparr>"

text \<open>
  A heap with the network \<open>pn-a\<close> at address 4, given a static address pool and a
  route: its \<^verbatim>\<open>IPAM\<close> points to the cell at 2, whose \<^verbatim>\<open>Static\<close> points to the cell at 1,
  whose ranges are two of the three strings of the array at 0; its routes are the array
  at 3.
\<close>

definition pn_a_static :: PrivateNetwork where
  "pn_a_static =
     pn_a\<lparr>pn_Spec := (pn_Spec pn_a)
            \<lparr>pns_IPAM := Some 2, pns_Routes := Some \<lparr>s_arr = 3, s_off = 0, s_len = 1\<rparr>\<rparr>\<rparr>"

definition heap_a :: heap where
  "heap_a =
     [string_array [''10.0.0.0/28'', ''10.0.0.16/28'', ''10.0.0.32/28''],
      PrivateNetworkIPAMStatic_cell \<lparr>AvailableRanges = Some \<lparr>s_arr = 0, s_off = 1, s_len = 2\<rparr>\<rparr>,
      PrivateNetworkIPAM_cell \<lparr>Static = Some 1\<rparr>,
      PrivateNetworkRoute_array [zero_PrivateNetworkRoute],
      PrivateNetwork_cell pn_a_static]"

section \<open>Formatting\<close>

lemma fmt_d_2: "fmt_d (Suc (Suc 0)) = ''2''"
  by (simp add: fmt_d.simps digit_def)

section \<open>The events of the blocks\<close>

lemma listServersByName_events:
  "listServersByName env zone name h = (r, h') \<Longrightarrow> \<exists>es. h' = h @ es \<and> list_all resolver_event es"
  by (auto simp: listServersByName_def Let_def resolver_event_def split: sum.splits if_splits)

lemma getServerFromNode_events:
  "getServerFromNode env node h = (r, h') \<Longrightarrow> \<exists>es. h' = h @ es \<and> list_all resolver_event es"
  by (auto simp: getServerFromNode_def resolver_event_def
      split: sum.splits prod.splits if_splits dest!: listServersByName_events)

lemma resolver_child_event: "list_all resolver_event es \<Longrightarrow> list_all child_event es"
  by (simp add: list_all_iff child_event_def)

lemma resolver_no_Log_Error: "list_all resolver_event es \<Longrightarrow> list_all (\<lambda>e. \<not> is_Log_Error e) es"
  by (auto simp: list_all_iff resolver_event_def)

lemma removeIPFinalizer_step:
  "removeIPFinalizer env nic h = (r, h') \<Longrightarrow> child_step h r h'"
  by (auto simp: removeIPFinalizer_def Let_def child_event_def child_step_def split: option.splits)

lemma deletePrivateNICOfNode_step:
  "deletePrivateNICOfNode env pn node h = (r, h') \<Longrightarrow> child_step h r h'"
  by (auto simp: deletePrivateNICOfNode_def Let_def child_event_def child_step_def
      resolver_child_event resolver_no_Log_Error
      split: option.splits sum.splits prod.splits if_splits dest!: getServerFromNode_events)

lemma releaseNetworkInterface_step:
  "releaseNetworkInterface env pn nic h = (r, h') \<Longrightarrow> child_step h r h'"
  by (auto simp: releaseNetworkInterface_def Let_def child_event_def child_step_def
      split: option.splits sum.splits prod.splits flow.splits if_splits
      dest!: deletePrivateNICOfNode_step removeIPFinalizer_step)

lemma deleteNetworkInterface_step:
  "deleteNetworkInterface env pn nic h = (r, h') \<Longrightarrow> child_step h r h'"
  by (auto simp: deleteNetworkInterface_def Let_def
      split: option.splits if_splits dest!: releaseNetworkInterface_step)
   (auto simp: child_step_def child_event_def)

lemma deleteNetworkInterfaces_step:
  "deleteNetworkInterfaces env pn nics h = (r, h') \<Longrightarrow> child_step h r h'"
proof (induction nics arbitrary: h)
  case Nil
  then show ?case by (simp add: child_step_def)
next
  case (Cons nic nics)
  obtain r1 h1 where b: "deleteNetworkInterface env pn nic h = (r1, h1)"
    by (cases "deleteNetworkInterface env pn nic h")
  note s1 = deleteNetworkInterface_step [OF b]
  show ?case
  proof (cases r1)
    case Next
    with Cons.prems b have "deleteNetworkInterfaces env pn nics h1 = (r, h')" by simp
    from Cons.IH [OF this] s1 Next show ?thesis by (auto simp: child_step_def)
  next
    case Break
    with s1 show ?thesis by (simp add: child_step_def)
  next
    case (Exit out)
    with Cons.prems b s1 show ?thesis by auto
  qed
qed



lemma resolver_node_event: "list_all resolver_event es \<Longrightarrow> list_all node_event es"
  by (simp add: list_all_iff node_event_def)

lemma ensurePrivateNIC_events:
  "ensurePrivateNIC env pn server h = (r, h') \<Longrightarrow> \<exists>es. h' = h @ es \<and> list_all node_event es"
  by (auto simp: ensurePrivateNIC_def Let_def node_event_def split: option.splits sum.splits)

lemma createNetworkInterface_events:
  "createNetworkInterface env pn prefix node privateNIC h = (r, h') \<Longrightarrow>
   \<exists>es. h' = h @ es \<and> list_all node_event es"
  by (auto simp: createNetworkInterface_def Let_def node_event_def
      split: option.splits sum.splits)

lemma syncNode_events:
  "syncNode env pn prefix node h = (r, h') \<Longrightarrow> \<exists>es. h' = h @ es \<and> list_all node_event es"
  by (auto simp: syncNode_def Let_def node_event_def resolver_node_event
      split: option.splits sum.splits prod.splits if_splits
      dest!: getServerFromNode_events ensurePrivateNIC_events createNetworkInterface_events)

lemma syncNodes_events:
  "syncNodes env pn prefix nodes h = (r, h') \<Longrightarrow> \<exists>es. h' = h @ es \<and> list_all node_event es"
proof (induction nodes arbitrary: h)
  case Nil
  then show ?case by simp
next
  case (Cons node nodes)
  obtain r1 h1 where b: "syncNode env pn prefix node h = (r1, h1)"
    by (cases "syncNode env pn prefix node h")
  from syncNode_events [OF b]
  obtain es1 where e1: "h1 = h @ es1" "list_all node_event es1" by blast
  show ?case
  proof (cases r1)
    case Next
    with Cons.prems b have "syncNodes env pn prefix nodes h1 = (r, h')" by simp
    from Cons.IH [OF this] e1 show ?thesis by auto
  next
    case Break
    with Cons.prems b e1 show ?thesis by auto
  next
    case (Exit out)
    with Cons.prems b e1 show ?thesis by auto
  qed
qed



text \<open>The pass on a network that is marked for deletion is \<open>reconcileDelete\<close>.\<close>

lemma Reconcile_deleting:
  assumes "Client_Get_PrivateNetwork env h req = Inr pn"
    and "IPAM_NewPrefix env (h @ [Get_PrivateNetwork req]) (pns_CIDR (pn_Spec pn)) = Inr prefix"
    and "\<not> IsZero (om_DeletionTimestamp (pn_ObjectMeta pn))"
  shows "Reconcile env req h =
           reconcileDelete env pn (h @ [Get_PrivateNetwork req, NewPrefix (pns_CIDR (pn_Spec pn))])"
  using assms by (simp add: Reconcile_def Let_def)

lemma Reconcile_not_deleting:
  assumes "Client_Get_PrivateNetwork env h req = Inr pn"
    and "IPAM_NewPrefix env (h @ [Get_PrivateNetwork req]) (pns_CIDR (pn_Spec pn)) = Inr prefix"
    and "IsZero (om_DeletionTimestamp (pn_ObjectMeta pn))"
    and "ContainsFinalizer (pn_ObjectMeta pn) finalizerName"
  shows "Reconcile env req h =
           reconcileNormal env pn prefix
             (h @ [Get_PrivateNetwork req, NewPrefix (pns_CIDR (pn_Spec pn))])"
  using assms by (simp add: Reconcile_def Let_def)

lemma Reconcile_add_finalizer:
  assumes "Client_Get_PrivateNetwork env h req = Inr pn"
    and "IPAM_NewPrefix env (h @ [Get_PrivateNetwork req]) (pns_CIDR (pn_Spec pn)) = Inr prefix"
    and "IsZero (om_DeletionTimestamp (pn_ObjectMeta pn))"
    and "\<not> ContainsFinalizer (pn_ObjectMeta pn) finalizerName"
    and "Client_Update_PrivateNetwork env
           (h @ [Get_PrivateNetwork req, NewPrefix (pns_CIDR (pn_Spec pn))])
           (pn\<lparr>pn_ObjectMeta := AddFinalizer (pn_ObjectMeta pn) finalizerName\<rparr>) = Inr pn2"
  shows "Reconcile env req h =
           reconcileNormal env pn2 prefix
             (h @ [Get_PrivateNetwork req, NewPrefix (pns_CIDR (pn_Spec pn)),
                   Update_PrivateNetwork
                     (pn\<lparr>pn_ObjectMeta := AddFinalizer (pn_ObjectMeta pn) finalizerName\<rparr>)])"
  using assms by (simp add: Reconcile_def Let_def)

lemma deleteNetworkInterfaces_append:
  "deleteNetworkInterfaces env pn before h1 = (Next, h) \<Longrightarrow>
   deleteNetworkInterfaces env pn (before @ rest) h1 = deleteNetworkInterfaces env pn rest h"
proof (induction before arbitrary: h1)
  case Nil
  then show ?case by simp
next
  case (Cons nic before)
  obtain r2 h2 where b: "deleteNetworkInterface env pn nic h1 = (r2, h2)"
    by (cases "deleteNetworkInterface env pn nic h1")
  with Cons.prems have r2: "r2 = Next"
    by (cases r2) auto
  with Cons.prems b have "deleteNetworkInterfaces env pn before h2 = (Next, h)" by simp
  from Cons.IH [OF this] b r2 show ?case by simp
qed

text \<open>The pass that has reached a child goes on with the loop from that child.\<close>

lemma Reconcile_reaches_child:
  assumes get: "Client_Get_PrivateNetwork env h0 req = Inr pn"
    and prefix: "IPAM_NewPrefix env (h0 @ [Get_PrivateNetwork req]) (pns_CIDR (pn_Spec pn)) = Inr prefix"
    and deleting: "\<not> IsZero (om_DeletionTimestamp (pn_ObjectMeta pn))"
    and fin: "ContainsFinalizer (pn_ObjectMeta pn) finalizerName"
    and list: "Client_List_NetworkInterface env
           (h0 @ [Get_PrivateNetwork req, NewPrefix (pns_CIDR (pn_Spec pn))])
           [privateNetworkLabel \<mapsto> om_Name (pn_ObjectMeta pn)] = Inr (before @ nic # after)"
    and reach: "deleteNetworkInterfaces env pn before
           (h0 @ [Get_PrivateNetwork req, NewPrefix (pns_CIDR (pn_Spec pn)),
                  List_NetworkInterface [privateNetworkLabel \<mapsto> om_Name (pn_ObjectMeta pn)]])
           = (Next, h)"
  shows "Reconcile env req h0 =
           (case deleteNetworkInterfaces env pn (nic # after) h of
              (Exit out, h') \<Rightarrow> (out, h')
            | (Next, h') \<Rightarrow> (Return Result_RequeueAfter None, h')
            | (Break, h') \<Rightarrow> (Return Result_RequeueAfter None, h'))"
proof -
  have "Reconcile env req h0 =
      reconcileDelete env pn (h0 @ [Get_PrivateNetwork req, NewPrefix (pns_CIDR (pn_Spec pn))])"
    using get prefix deleting by (rule Reconcile_deleting)
  moreover have "deleteNetworkInterfaces env pn (before @ nic # after)
           (h0 @ [Get_PrivateNetwork req, NewPrefix (pns_CIDR (pn_Spec pn)),
                  List_NetworkInterface [privateNetworkLabel \<mapsto> om_Name (pn_ObjectMeta pn)]])
        = deleteNetworkInterfaces env pn (nic # after) h"
    using reach by (rule deleteNetworkInterfaces_append)
  ultimately show ?thesis
    using fin list
    by (simp add: reconcileDelete_def Let_def split: prod.splits flow.splits)
qed

lemma deleteNetworkInterfaces_Exit:
  "deleteNetworkInterface env pn nic h = (Exit out, h') \<Longrightarrow>
   deleteNetworkInterfaces env pn (nic # after) h = (Exit out, h')"
  by simp

lemma deleteNetworkInterfaces_history:
  assumes "deleteNetworkInterface env pn nic h = (r, h1)"
  shows "\<exists>es. snd (deleteNetworkInterfaces env pn (nic # after) h) = h1 @ es"
proof (cases r)
  case Next
  obtain r2 h2 where l: "deleteNetworkInterfaces env pn after h1 = (r2, h2)"
    by (cases "deleteNetworkInterfaces env pn after h1")
  from deleteNetworkInterfaces_step [OF l] obtain es where "h2 = h1 @ es"
    unfolding child_step_def by blast
  then show ?thesis using assms Next l by simp
next
  case Break
  then show ?thesis using assms by simp
next
  case (Exit out)
  then show ?thesis using assms by simp
qed

lemma strings_Split_not_Nil [simp]: "strings_Split s c \<noteq> []"
  by (induction s) (auto split: list.splits)

lemma release_goes_on:
  assumes marked: "\<not> IsZero (om_DeletionTimestamp (ni_ObjectMeta nic))"
    and nofin: "\<not> ContainsFinalizer (ni_ObjectMeta nic) finalizerName"
    and ok: "IPAM_ReleaseIPFromPrefix env h (pns_CIDR (pn_Spec pn))
               (strings_Split (nis_Address (ni_Spec nic)) CHR ''/'' ! 0) = None \<or>
             (\<exists>err. IPAM_ReleaseIPFromPrefix env h (pns_CIDR (pn_Spec pn))
               (strings_Split (nis_Address (ni_Spec nic)) CHR ''/'' ! 0) = Some err \<and>
               As_NotFoundError err)"
  shows "\<exists>es. snd (deleteNetworkInterface env pn nic h) =
           h @ [ReleaseIPFromPrefix (pns_CIDR (pn_Spec pn))
                  (strings_Split (nis_Address (ni_Spec nic)) CHR ''/'' ! 0),
                Get_Node (nis_NodeName (ni_Spec nic))] @ es"
proof -
  let ?h2 = "h @ [ReleaseIPFromPrefix (pns_CIDR (pn_Spec pn))
                  (strings_Split (nis_Address (ni_Spec nic)) CHR ''/'' ! 0),
                Get_Node (nis_NodeName (ni_Spec nic))]"
  have rm: "\<exists>es. snd (removeIPFinalizer env nic h') = h' @ es" for h'
    using removeIPFinalizer_step [of env nic h' "fst (removeIPFinalizer env nic h')"
        "snd (removeIPFinalizer env nic h')"]
    by (auto simp: child_step_def)
  have dl: "\<exists>es. snd (deletePrivateNICOfNode env pn node h') = h' @ es" for h' node
    using deletePrivateNICOfNode_step [of env pn node h' "fst (deletePrivateNICOfNode env pn node h')"
        "snd (deletePrivateNICOfNode env pn node h')"]
    by (auto simp: child_step_def)
  show ?thesis
  proof (cases "Client_Get_Node env
        (h @ [ReleaseIPFromPrefix (pns_CIDR (pn_Spec pn))
                  (strings_Split (nis_Address (ni_Spec nic)) CHR ''/'' ! 0)])
        (nis_NodeName (ni_Spec nic))")
    case (Inl err)
    then show ?thesis
      using marked nofin ok rm [of ?h2]
      by (auto simp: deleteNetworkInterface_def releaseNetworkInterface_def Let_def)
  next
    case (Inr node)
    obtain r3 h3 where d: "deletePrivateNICOfNode env pn node ?h2 = (r3, h3)"
      by (cases "deletePrivateNICOfNode env pn node ?h2")
    with dl [of node ?h2] obtain es3 where h3: "h3 = ?h2 @ es3" by auto
    from rm [of h3] obtain es4 where "snd (removeIPFinalizer env nic h3) = h3 @ es4" by blast
    then show ?thesis
      using marked nofin ok Inr d h3
      by (cases r3) (auto simp: deleteNetworkInterface_def releaseNetworkInterface_def Let_def)
  qed
qed

lemma syncNodes_append:
  "syncNodes env pn prefix before h1 = (Next, h) \<Longrightarrow>
   syncNodes env pn prefix (before @ rest) h1 = syncNodes env pn prefix rest h"
proof (induction before arbitrary: h1)
  case Nil
  then show ?case by simp
next
  case (Cons node before)
  obtain r2 h2 where b: "syncNode env pn prefix node h1 = (r2, h2)"
    by (cases "syncNode env pn prefix node h1")
  with Cons.prems have r2: "r2 = Next"
    by (cases r2) auto
  with Cons.prems b have "syncNodes env pn prefix before h2 = (Next, h)" by simp
  from Cons.IH [OF this] b r2 show ?case by simp
qed

text \<open>
  The pass on a network that is not marked for deletion synchronizes the network \<open>pn\<close>
  from the history \<open>h2\<close>: the network read from the store when it carries the generic
  finalizer, and else the network that the store answers to the update that adds it.
\<close>

lemma Reconcile_sync:
  assumes get: "Client_Get_PrivateNetwork env h0 req = Inr pn0"
    and prefix: "IPAM_NewPrefix env (h0 @ [Get_PrivateNetwork req]) (pns_CIDR (pn_Spec pn0)) = Inr prefix"
    and live: "IsZero (om_DeletionTimestamp (pn_ObjectMeta pn0))"
    and finalizer:
      "ContainsFinalizer (pn_ObjectMeta pn0) finalizerName \<and> pn = pn0 \<and>
         h2 = h0 @ [Get_PrivateNetwork req, NewPrefix (pns_CIDR (pn_Spec pn0))] \<or>
       \<not> ContainsFinalizer (pn_ObjectMeta pn0) finalizerName \<and>
         Client_Update_PrivateNetwork env
           (h0 @ [Get_PrivateNetwork req, NewPrefix (pns_CIDR (pn_Spec pn0))])
           (pn0\<lparr>pn_ObjectMeta := AddFinalizer (pn_ObjectMeta pn0) finalizerName\<rparr>) = Inr pn \<and>
         h2 = h0 @ [Get_PrivateNetwork req, NewPrefix (pns_CIDR (pn_Spec pn0)),
                    Update_PrivateNetwork
                      (pn0\<lparr>pn_ObjectMeta := AddFinalizer (pn_ObjectMeta pn0) finalizerName\<rparr>)]"
  shows "Reconcile env req h0 = reconcileNormal env pn prefix h2"
  using finalizer Reconcile_not_deleting [OF get prefix live]
    Reconcile_add_finalizer [OF get prefix live]
  by auto

lemma Reconcile_reaches_node:
  assumes pass: "Reconcile env req h0 = reconcileNormal env pn prefix h2"
    and vpc: "VpcAPI_GetPrivateNetwork env h2 (pns_Zone (pn_Spec pn)) (pns_ID (pn_Spec pn)) = None"
    and nodes: "Client_List_Node env
           (h2 @ [GetPrivateNetwork (pns_Zone (pn_Spec pn)) (pns_ID (pn_Spec pn))])
           = Inr (before @ node # after)"
    and reach: "syncNodes env pn prefix before
           (h2 @ [GetPrivateNetwork (pns_Zone (pn_Spec pn)) (pns_ID (pn_Spec pn)), List_Node])
           = (Next, h)"
  shows "Reconcile env req h0 =
           (case syncNodes env pn prefix (node # after) h of
              (Exit out, h') \<Rightarrow> (out, h')
            | (Next, h') \<Rightarrow> (Return Result_empty None, h')
            | (Break, h') \<Rightarrow> (Return Result_empty None, h'))"
proof -
  have "syncNodes env pn prefix (before @ node # after)
           (h2 @ [GetPrivateNetwork (pns_Zone (pn_Spec pn)) (pns_ID (pn_Spec pn)), List_Node])
        = syncNodes env pn prefix (node # after) h"
    using reach by (rule syncNodes_append)
  then show ?thesis
    using pass vpc nodes
    by (simp add: reconcileNormal_def Let_def split: prod.splits flow.splits)
qed

text \<open>The definitions that an evaluation on an example unfolds.\<close>

lemmas example_defs =
  unavailable_def pn_a_def pn_a_deleting_def child1_def child1_released_def node1_def node2_def
  server1_def server2_def

lemmas const_defs =
  finalizerName_def ipFinalizerName_def privateNetworkLabel_def nodeLabel_def
  Result_empty_def Result_RequeueAfter_def RequeueDuration_def Second_def

lemmas block_defs =
  Reconcile_def reconcileDelete_def reconcileNormal_def deleteNetworkInterface_def
  releaseNetworkInterface_def deletePrivateNICOfNode_def removeIPFinalizer_def
  deletePrefixAndFinalizer_def syncNode_def ensurePrivateNIC_def createNetworkInterface_def
  constructNetworkInterfaceForPrivateNetwork_def SetControllerReference_def
  getServerFromNode_def listServersByName_def parseProviderID_def
  IsZero_def ContainsFinalizer_def AddFinalizer_def RemoveFinalizer_def
  As_NotFoundError_def IsNotFound_def IgnoreNotFound_def Let_def

lemma fmt_d_24: "fmt_d 24 = ''24''"
  by (simp add: fmt_d.simps digit_def)

lemmas remembering_defs =
  remembering_def first_pass_def created1_def created_interfaces_def created_nics_def
  List.map_filter_def index_def IPNet_String_def fmt_d_24

section \<open>Deletion: the network is cleaned up after its children\<close>





















section \<open>Synchronization: nothing is created twice\<close>

lemma find_attached:
  assumes "p \<in> set xs" "P p"
  shows "\<exists>q. find P xs = Some q \<and> q \<in> set xs \<and> P q"
proof (cases "find P xs")
  case None
  with assms show ?thesis by (auto simp: find_None_iff)
next
  case (Some q)
  then show ?thesis by (auto simp: find_Some_iff)
qed

lemma createNetworkInterface_nic_id:
  assumes "createNetworkInterface env pn prefix node privateNIC h = (r, h')"
    and "Create_NetworkInterface nic \<in> set (drop (length h) h')"
  shows "nis_ID (ni_Spec nic) = pnic_ID privateNIC"
  using assms
  by (auto simp: createNetworkInterface_def Let_def split: sum.splits option.splits)

lemma createNetworkInterface_no_nic_creation:
  "createNetworkInterface env pn prefix node privateNIC h = (r, h') \<Longrightarrow>
   \<exists>es. h' = h @ es \<and> list_all (\<lambda>e. \<not> is_CreatePrivateNIC e) es"
  by (auto simp: createNetworkInterface_def Let_def split: option.splits sum.splits)

text \<open>
  Claim C2. The synchronizer handles the pair of the network and a node from the
  history \<open>h\<close>. When the store lists exactly one NetworkInterface for the pair, it
  acquires no address and creates no NetworkInterface. When the server of the node is
  resolved and has a private NIC attached on the network, it creates no private NIC, and
  a NetworkInterface it creates carries the identifier of such an attached NIC. When
  both hold, the step only reads (the list, the lookups of the server) and goes on to
  the next node: a pass that follows a pass which created both, with nothing changed in
  between, creates nothing for the pair.
\<close>

theorem synchronizer_reuses_existing:
  assumes run: "syncNode env pn prefix node h = (r, h')"
    and labels: "labels = [privateNetworkLabel \<mapsto> om_Name (pn_ObjectMeta pn), nodeLabel \<mapsto> node_Name node]"
  shows
    "(Client_List_NetworkInterface env h labels = Inr [item] \<longrightarrow>
        list_all (\<lambda>e. \<not> is_Create_NetworkInterface e \<and> \<not> is_AcquireIP e) (drop (length h) h')) \<and>
     (getServerFromNode env node (h @ [List_NetworkInterface labels]) = (Inr server, h2) \<and>
      attached \<in> set (srv_PrivateNics server) \<and>
      pnic_PrivateNetworkID attached = pns_ID (pn_Spec pn) \<longrightarrow>
        list_all (\<lambda>e. \<not> is_CreatePrivateNIC e) (drop (length h) h') \<and>
        (\<forall>nic. Create_NetworkInterface nic \<in> set (drop (length h) h') \<longrightarrow>
           (\<exists>p\<in>set (srv_PrivateNics server).
              pnic_PrivateNetworkID p = pns_ID (pn_Spec pn) \<and> nis_ID (ni_Spec nic) = pnic_ID p))) \<and>
     (Client_List_NetworkInterface env h labels = Inr [item] \<and>
      getServerFromNode env node (h @ [List_NetworkInterface labels]) = (Inr server, h2) \<and>
      attached \<in> set (srv_PrivateNics server) \<and>
      pnic_PrivateNetworkID attached = pns_ID (pn_Spec pn) \<longrightarrow>
        r = Next \<and> h' = h2 \<and>
        list_all (\<lambda>e. is_List_NetworkInterface e \<or> is_GetServer e \<or> is_ListServers e)
          (drop (length h) h'))"
proof (intro conjI impI)
  assume one: "Client_List_NetworkInterface env h labels = Inr [item]"
  obtain sr h2' where g: "getServerFromNode env node (h @ [List_NetworkInterface labels]) = (sr, h2')"
    by (cases "getServerFromNode env node (h @ [List_NetworkInterface labels])")
  from getServerFromNode_events [OF g] obtain es where
    es: "h2' = (h @ [List_NetworkInterface labels]) @ es" "list_all resolver_event es" by blast
  have n: "list_all (\<lambda>e. \<not> is_Create_NetworkInterface e \<and> \<not> is_AcquireIP e) es"
    using es(2) by (auto simp: list_all_iff resolver_event_def)
  show "list_all (\<lambda>e. \<not> is_Create_NetworkInterface e \<and> \<not> is_AcquireIP e) (drop (length h) h')"
    using run one g es(1) n unfolding labels
    by (cases sr)
      (auto simp: syncNode_def ensurePrivateNIC_def Let_def split: option.splits sum.splits)
next
  assume a: "getServerFromNode env node (h @ [List_NetworkInterface labels]) = (Inr server, h2) \<and>
      attached \<in> set (srv_PrivateNics server) \<and>
      pnic_PrivateNetworkID attached = pns_ID (pn_Spec pn)"
  then have g: "getServerFromNode env node (h @ [List_NetworkInterface labels]) = (Inr server, h2)"
    by simp
  from a find_attached [of attached "srv_PrivateNics server"
      "\<lambda>p. pnic_PrivateNetworkID p = pns_ID (pn_Spec pn)"]
  obtain q where q: "find (\<lambda>p. pnic_PrivateNetworkID p = pns_ID (pn_Spec pn)) (srv_PrivateNics server)
      = Some q" "q \<in> set (srv_PrivateNics server)" "pnic_PrivateNetworkID q = pns_ID (pn_Spec pn)"
    by blast
  then have e: "ensurePrivateNIC env pn server h2 = (Inr q, h2)"
    by (simp add: ensurePrivateNIC_def)
  from getServerFromNode_events [OF g] obtain es where
    es: "h2 = (h @ [List_NetworkInterface labels]) @ es" "list_all resolver_event es" by blast
  have n: "list_all (\<lambda>e. \<not> is_CreatePrivateNIC e \<and> \<not> is_Create_NetworkInterface e) es"
    using es(2) by (auto simp: list_all_iff resolver_event_def)
  show "list_all (\<lambda>e. \<not> is_CreatePrivateNIC e) (drop (length h) h')"
  proof (cases "Client_List_NetworkInterface env h labels")
    case (Inl err)
    then show ?thesis using run unfolding labels by (auto simp: syncNode_def Let_def)
  next
    case (Inr items)
    then show ?thesis
      using run g e es(1) n unfolding labels
      by (auto simp: syncNode_def Let_def list_all_iff
          dest!: createNetworkInterface_no_nic_creation split: if_splits)
  qed
  show "\<forall>nic. Create_NetworkInterface nic \<in> set (drop (length h) h') \<longrightarrow>
           (\<exists>p\<in>set (srv_PrivateNics server).
              pnic_PrivateNetworkID p = pns_ID (pn_Spec pn) \<and> nis_ID (ni_Spec nic) = pnic_ID p)"
  proof (intro allI impI)
    fix nic
    assume c: "Create_NetworkInterface nic \<in> set (drop (length h) h')"
    have "nis_ID (ni_Spec nic) = pnic_ID q"
    proof (cases "Client_List_NetworkInterface env h labels")
      case (Inl err)
      then show ?thesis using run c unfolding labels by (auto simp: syncNode_def Let_def)
    next
      case (Inr items)
      show ?thesis
      proof (cases "length items = 0")
        case True
        with Inr run g e have cr: "createNetworkInterface env pn prefix node q h2 = (r, h')"
          unfolding labels by (simp add: syncNode_def Let_def)
        from createNetworkInterface_events [OF cr] obtain es' where es': "h' = h2 @ es'" by blast
        with c es n have "Create_NetworkInterface nic \<in> set (drop (length h2) h')"
          by (auto simp: list_all_iff)
        with cr show ?thesis by (rule createNetworkInterface_nic_id)
      next
        case False
        have nc: "Create_NetworkInterface nic \<notin> set es"
          using n by (auto simp: list_all_iff)
        from False Inr run g e c es(1) nc show ?thesis
          unfolding labels by (auto simp: syncNode_def Let_def split: if_splits)
      qed
    qed
    with q show "\<exists>p\<in>set (srv_PrivateNics server).
              pnic_PrivateNetworkID p = pns_ID (pn_Spec pn) \<and> nis_ID (ni_Spec nic) = pnic_ID p"
      by blast
  qed
next
  assume a: "Client_List_NetworkInterface env h labels = Inr [item] \<and>
      getServerFromNode env node (h @ [List_NetworkInterface labels]) = (Inr server, h2) \<and>
      attached \<in> set (srv_PrivateNics server) \<and>
      pnic_PrivateNetworkID attached = pns_ID (pn_Spec pn)"
  then have one: "Client_List_NetworkInterface env h labels = Inr [item]"
    and g: "getServerFromNode env node (h @ [List_NetworkInterface labels]) = (Inr server, h2)"
    by simp_all
  from a find_attached [of attached "srv_PrivateNics server"
      "\<lambda>p. pnic_PrivateNetworkID p = pns_ID (pn_Spec pn)"]
  obtain q where q: "find (\<lambda>p. pnic_PrivateNetworkID p = pns_ID (pn_Spec pn)) (srv_PrivateNics server)
      = Some q"
    by blast
  then have e: "ensurePrivateNIC env pn server h2 = (Inr q, h2)"
    by (simp add: ensurePrivateNIC_def)
  from getServerFromNode_events [OF g] obtain es where
    es: "h2 = (h @ [List_NetworkInterface labels]) @ es" "list_all resolver_event es" by blast
  have res: "r = Next \<and> h' = h2"
    using run one g e unfolding labels by (simp add: syncNode_def Let_def)
  then show "r = Next" and "h' = h2" by simp_all
  show "list_all (\<lambda>e. is_List_NetworkInterface e \<or> is_GetServer e \<or> is_ListServers e)
          (drop (length h) h')"
    using res es by (auto simp: list_all_iff resolver_event_def)
qed

theorem synchronizer_reuses_existing_witness:
  "Reconcile (remembering pn_a) ''pn-a'' [] =
     (Return \<lparr>Requeue = False, RequeueAfter = 0\<rparr> None, first_pass) \<and>
   length (created_interfaces first_pass) = 1 \<and>
   Client_List_NetworkInterface (remembering pn_a)
     (first_pass @ [Get_PrivateNetwork ''pn-a'', NewPrefix ''10.0.0.0/24'',
                    GetPrivateNetwork ''fr-par-1'' ''net-a'', List_Node])
     [privateNetworkLabel \<mapsto> ''pn-a'', nodeLabel \<mapsto> ''node-1'']
     = Inr [hd (created_interfaces first_pass)] \<and>
   syncNode (remembering pn_a) pn_a \<lparr>Cidr = ''10.0.0.0/24''\<rparr> node1
     (first_pass @ [Get_PrivateNetwork ''pn-a'', NewPrefix ''10.0.0.0/24'',
                    GetPrivateNetwork ''fr-par-1'' ''net-a'', List_Node])
     = (Next,
        first_pass @ [Get_PrivateNetwork ''pn-a'', NewPrefix ''10.0.0.0/24'',
                      GetPrivateNetwork ''fr-par-1'' ''net-a'', List_Node,
                      List_NetworkInterface [privateNetworkLabel \<mapsto> ''pn-a'', nodeLabel \<mapsto> ''node-1''],
                      ListServers '''' ''node-1'']) \<and>
   Reconcile (remembering pn_a) ''pn-a'' first_pass =
     (Return \<lparr>Requeue = False, RequeueAfter = 0\<rparr> None,
      first_pass @ [Get_PrivateNetwork ''pn-a'', NewPrefix ''10.0.0.0/24'',
                    GetPrivateNetwork ''fr-par-1'' ''net-a'', List_Node,
                    List_NetworkInterface [privateNetworkLabel \<mapsto> ''pn-a'', nodeLabel \<mapsto> ''node-1''],
                    ListServers '''' ''node-1''])"
proof -
  let ?e = "remembering pn_a"
  let ?h = "first_pass @ [Get_PrivateNetwork ''pn-a'', NewPrefix ''10.0.0.0/24'',
                    GetPrivateNetwork ''fr-par-1'' ''net-a'', List_Node]"
  let ?labels = "[privateNetworkLabel \<mapsto> om_Name (pn_ObjectMeta pn_a), nodeLabel \<mapsto> node_Name node1]"
  let ?server = "\<lparr>srv_ID = ''abc'', srv_Zone = ''fr-par-1'',
      srv_PrivateNics = [\<lparr>pnic_ID = ''nic-1'', pnic_PrivateNetworkID = ''net-a'',
                          pnic_MacAddress = ''02:00:00:00:00:01''\<rparr>]\<rparr>"
  let ?attached = "\<lparr>pnic_ID = ''nic-1'', pnic_PrivateNetworkID = ''net-a'',
                          pnic_MacAddress = ''02:00:00:00:00:01''\<rparr>"
  have vals: "om_Name (pn_ObjectMeta pn_a) = ''pn-a''" "node_Name node1 = ''node-1''"
    by (simp_all add: example_defs)
  have p1: "Reconcile ?e ''pn-a'' [] = (Return \<lparr>Requeue = False, RequeueAfter = 0\<rparr> None, first_pass)"
    by (simp add: remembering_defs example_defs const_defs block_defs)
  have p2: "Reconcile ?e ''pn-a'' first_pass =
     (Return \<lparr>Requeue = False, RequeueAfter = 0\<rparr> None,
      first_pass @ [Get_PrivateNetwork ''pn-a'', NewPrefix ''10.0.0.0/24'',
                    GetPrivateNetwork ''fr-par-1'' ''net-a'', List_Node,
                    List_NetworkInterface [privateNetworkLabel \<mapsto> ''pn-a'', nodeLabel \<mapsto> ''node-1''],
                    ListServers '''' ''node-1''])"
    by (simp add: remembering_defs example_defs const_defs block_defs)
  have len: "length (created_interfaces first_pass) = 1"
    by (simp add: remembering_defs)
  have one: "Client_List_NetworkInterface ?e ?h ?labels = Inr [hd (created_interfaces first_pass)]"
    by (simp add: remembering_defs)
  have server: "getServerFromNode ?e node1 (?h @ [List_NetworkInterface ?labels])
      = (Inr ?server, ?h @ [List_NetworkInterface ?labels, ListServers '''' ''node-1''])"
    by (simp add: remembering_defs example_defs block_defs)
  have attached: "?attached \<in> set (srv_PrivateNics ?server)"
    by simp
  have network: "pnic_PrivateNetworkID ?attached = pns_ID (pn_Spec pn_a)"
    by (simp add: example_defs)
  have run: "syncNode ?e pn_a \<lparr>Cidr = ''10.0.0.0/24''\<rparr> node1 ?h =
      (fst (syncNode ?e pn_a \<lparr>Cidr = ''10.0.0.0/24''\<rparr> node1 ?h),
       snd (syncNode ?e pn_a \<lparr>Cidr = ''10.0.0.0/24''\<rparr> node1 ?h))"
    by simp
  from synchronizer_reuses_existing [OF run refl,
      of "hd (created_interfaces first_pass)" ?server
        "?h @ [List_NetworkInterface ?labels, ListServers '''' ''node-1'']" ?attached]
    one server attached network
  have "fst (syncNode ?e pn_a \<lparr>Cidr = ''10.0.0.0/24''\<rparr> node1 ?h) = Next \<and>
        snd (syncNode ?e pn_a \<lparr>Cidr = ''10.0.0.0/24''\<rparr> node1 ?h) =
          ?h @ [List_NetworkInterface ?labels, ListServers '''' ''node-1'']"
    by blast
  then have s: "syncNode ?e pn_a \<lparr>Cidr = ''10.0.0.0/24''\<rparr> node1 ?h =
      (Next, ?h @ [List_NetworkInterface ?labels, ListServers '''' ''node-1''])"
    by (simp add: prod_eq_iff)
  show ?thesis
    using p1 len one s p2 by (simp add: vals)
qed

section \<open>Synchronization: a node whose server cannot be resolved\<close>

text \<open>
  Claim C3. On \<open>unresolvable_node\<close> the network is not marked for deletion and the
  server of \<open>node-1\<close> cannot be resolved: the name lists no server. The pass logs the
  error, leaves the loop over the nodes and returns the empty result with no error: it
  reports success, and asks for no requeue.
\<close>

theorem unresolved_node_reports_success:
  "fst (getServerFromNode unresolvable_node node1
          [Get_PrivateNetwork ''pn-a'', NewPrefix ''10.0.0.0/24'', GetPrivateNetwork ''fr-par-1'' ''net-a'',
           List_Node, List_NetworkInterface [privateNetworkLabel \<mapsto> ''pn-a'', nodeLabel \<mapsto> ''node-1'']])
     = Inl (Err ''found 0 servers with name node-1 instead of 1'') \<and>
   Reconcile unresolvable_node ''pn-a'' [] =
     (Return \<lparr>Requeue = False, RequeueAfter = 0\<rparr> None,
      [Get_PrivateNetwork ''pn-a'', NewPrefix ''10.0.0.0/24'', GetPrivateNetwork ''fr-par-1'' ''net-a'',
       List_Node, List_NetworkInterface [privateNetworkLabel \<mapsto> ''pn-a'', nodeLabel \<mapsto> ''node-1''],
       ListServers '''' ''node-1'',
       Log_Error (Err ''found 0 servers with name node-1 instead of 1'')
         ''could not get scaleway server from node node-1''])"
  by (simp add: unresolvable_node_def cloud_has_net_a_def store_has_pn_a_def example_defs
      const_defs block_defs fmt_d.simps digit_def)

section \<open>Synchronization: more than one child for a pair\<close>

text \<open>The step of the synchronizer on a pair for which the store lists more than one child.\<close>

lemma syncNode_many:
  assumes list: "Client_List_NetworkInterface env h
        [privateNetworkLabel \<mapsto> om_Name (pn_ObjectMeta pn), nodeLabel \<mapsto> node_Name node] = Inr items"
    and many: "length items > 1"
    and run: "syncNode env pn prefix node h = (r, h')"
  shows "r \<noteq> Next \<and>
         (\<exists>es. h' = h @ es \<and>
            list_all (\<lambda>e. \<not> is_Create_NetworkInterface e \<and> \<not> is_Delete_NetworkInterface e \<and>
                         \<not> is_Update_NetworkInterface e \<and> \<not> is_Status_Update_NetworkInterface e) es)"
proof -
  let ?h1 = "h @ [List_NetworkInterface
      [privateNetworkLabel \<mapsto> om_Name (pn_ObjectMeta pn), nodeLabel \<mapsto> node_Name node]]"
  obtain sr h2 where g: "getServerFromNode env node ?h1 = (sr, h2)"
    by (cases "getServerFromNode env node ?h1")
  from getServerFromNode_events [OF g] obtain es2 where
    es2: "h2 = ?h1 @ es2" "list_all resolver_event es2" by blast
  have n2: "list_all (\<lambda>e. \<not> is_Create_NetworkInterface e \<and> \<not> is_Delete_NetworkInterface e \<and>
                         \<not> is_Update_NetworkInterface e \<and> \<not> is_Status_Update_NetworkInterface e) es2"
    using es2(2) by (auto simp: list_all_iff resolver_event_def)
  show ?thesis
  proof (cases sr)
    case (Inl err)
    then show ?thesis
      using list many run g es2(1) n2 by (auto simp: syncNode_def Let_def)
  next
    case (Inr server)
    then show ?thesis
      using list many run g es2(1) n2
      by (auto simp: syncNode_def ensurePrivateNIC_def Let_def
          split: option.splits sum.splits)
  qed
qed
text \<open>
  Claim C4, as amended. The pass is on a network that is not marked for deletion; it
  has reached, with the history \<open>h\<close>, a node for which the store lists more than one
  child of the network. From there on the pass creates, deletes and updates no
  NetworkInterface, and the whole pass deletes none. When the server of the node is
  resolved and its private NIC on the network is found or created (the two steps that
  come before the count is looked at), the pass logs the violation and returns the
  reschedule after the fixed delay, with no error.
\<close>

theorem duplicate_interfaces_abort:
  assumes get: "Client_Get_PrivateNetwork env h0 req = Inr pn0"
    and prefix: "IPAM_NewPrefix env (h0 @ [Get_PrivateNetwork req]) (pns_CIDR (pn_Spec pn0)) = Inr prefix"
    and live: "IsZero (om_DeletionTimestamp (pn_ObjectMeta pn0))"
    and finalizer:
      "ContainsFinalizer (pn_ObjectMeta pn0) finalizerName \<and> pn = pn0 \<and>
         h2 = h0 @ [Get_PrivateNetwork req, NewPrefix (pns_CIDR (pn_Spec pn0))] \<or>
       \<not> ContainsFinalizer (pn_ObjectMeta pn0) finalizerName \<and>
         Client_Update_PrivateNetwork env
           (h0 @ [Get_PrivateNetwork req, NewPrefix (pns_CIDR (pn_Spec pn0))])
           (pn0\<lparr>pn_ObjectMeta := AddFinalizer (pn_ObjectMeta pn0) finalizerName\<rparr>) = Inr pn \<and>
         h2 = h0 @ [Get_PrivateNetwork req, NewPrefix (pns_CIDR (pn_Spec pn0)),
                    Update_PrivateNetwork
                      (pn0\<lparr>pn_ObjectMeta := AddFinalizer (pn_ObjectMeta pn0) finalizerName\<rparr>)]"
    and vpc: "VpcAPI_GetPrivateNetwork env h2 (pns_Zone (pn_Spec pn)) (pns_ID (pn_Spec pn)) = None"
    and nodes: "Client_List_Node env
           (h2 @ [GetPrivateNetwork (pns_Zone (pn_Spec pn)) (pns_ID (pn_Spec pn))])
           = Inr (before @ node # after)"
    and reach: "syncNodes env pn prefix before
           (h2 @ [GetPrivateNetwork (pns_Zone (pn_Spec pn)) (pns_ID (pn_Spec pn)), List_Node])
           = (Next, h)"
    and list: "Client_List_NetworkInterface env h
        [privateNetworkLabel \<mapsto> om_Name (pn_ObjectMeta pn), nodeLabel \<mapsto> node_Name node] = Inr items"
    and many: "length items > 1"
  shows
    "(\<exists>es. snd (Reconcile env req h0) = h @ es \<and>
        list_all (\<lambda>e. \<not> is_Create_NetworkInterface e \<and> \<not> is_Delete_NetworkInterface e \<and>
                     \<not> is_Update_NetworkInterface e \<and> \<not> is_Status_Update_NetworkInterface e) es) \<and>
     list_all (\<lambda>e. \<not> is_Delete_NetworkInterface e) (drop (length h0) (snd (Reconcile env req h0))) \<and>
     (getServerFromNode env node
        (h @ [List_NetworkInterface
                [privateNetworkLabel \<mapsto> om_Name (pn_ObjectMeta pn), nodeLabel \<mapsto> node_Name node]])
        = (Inr server, h3) \<and>
      ensurePrivateNIC env pn server h3 = (Inr privateNIC, h4) \<longrightarrow>
        Reconcile env req h0 =
          (Return Result_RequeueAfter None,
           h4 @ [Log_Error
                   (Err (''node '' @ node_Name node @ '' have '' @ fmt_d (length items)
                         @ '' networkInterfaces instead of at most one''))
                   ''could not handle node'']))"
proof -
  note pass = Reconcile_reaches_node [OF Reconcile_sync [OF get prefix live finalizer] vpc nodes reach]
  obtain r h' where run: "syncNode env pn prefix node h = (r, h')"
    by (cases "syncNode env pn prefix node h")
  from syncNode_many [OF list many run] obtain es where
    r: "r \<noteq> Next" and es: "h' = h @ es"
      "list_all (\<lambda>e. \<not> is_Create_NetworkInterface e \<and> \<not> is_Delete_NetworkInterface e \<and>
                   \<not> is_Update_NetworkInterface e \<and> \<not> is_Status_Update_NetworkInterface e) es"
    by blast
  have loop: "syncNodes env pn prefix (node # after) h = (r, h')"
    using run r by (cases r) simp_all
  have snd: "snd (Reconcile env req h0) = h'"
    using pass loop by (cases r) simp_all
  have 1: "\<exists>es. snd (Reconcile env req h0) = h @ es \<and>
        list_all (\<lambda>e. \<not> is_Create_NetworkInterface e \<and> \<not> is_Delete_NetworkInterface e \<and>
                     \<not> is_Update_NetworkInterface e \<and> \<not> is_Status_Update_NetworkInterface e) es"
    using snd es by blast
  from syncNodes_events [OF reach] obtain esb where
    esb: "h = (h2 @ [GetPrivateNetwork (pns_Zone (pn_Spec pn)) (pns_ID (pn_Spec pn)), List_Node]) @ esb"
      "list_all node_event esb" by blast
  have nb: "list_all (\<lambda>e. \<not> is_Delete_NetworkInterface e) esb"
    using esb(2) by (auto simp: list_all_iff node_event_def resolver_event_def)
  have ne: "list_all (\<lambda>e. \<not> is_Delete_NetworkInterface e) es"
    using es(2) by (auto simp: list_all_iff)
  have 2: "list_all (\<lambda>e. \<not> is_Delete_NetworkInterface e)
      (drop (length h0) (snd (Reconcile env req h0)))"
    using finalizer snd es(1) esb(1) nb ne by auto
  have 3: "getServerFromNode env node
        (h @ [List_NetworkInterface
                [privateNetworkLabel \<mapsto> om_Name (pn_ObjectMeta pn), nodeLabel \<mapsto> node_Name node]])
        = (Inr server, h3) \<and>
      ensurePrivateNIC env pn server h3 = (Inr privateNIC, h4) \<longrightarrow>
        Reconcile env req h0 =
          (Return Result_RequeueAfter None,
           h4 @ [Log_Error
                   (Err (''node '' @ node_Name node @ '' have '' @ fmt_d (length items)
                         @ '' networkInterfaces instead of at most one''))
                   ''could not handle node''])"
  proof
    assume a: "getServerFromNode env node
        (h @ [List_NetworkInterface
                [privateNetworkLabel \<mapsto> om_Name (pn_ObjectMeta pn), nodeLabel \<mapsto> node_Name node]])
        = (Inr server, h3) \<and>
      ensurePrivateNIC env pn server h3 = (Inr privateNIC, h4)"
    then have "syncNode env pn prefix node h =
          (Exit (Return Result_RequeueAfter None),
           h4 @ [Log_Error
                   (Err (''node '' @ node_Name node @ '' have '' @ fmt_d (length items)
                         @ '' networkInterfaces instead of at most one''))
                   ''could not handle node''])"
      using list many by (simp add: syncNode_def Let_def)
    then show "Reconcile env req h0 =
          (Return Result_RequeueAfter None,
           h4 @ [Log_Error
                   (Err (''node '' @ node_Name node @ '' have '' @ fmt_d (length items)
                         @ '' networkInterfaces instead of at most one''))
                   ''could not handle node''])"
      using pass by simp
  qed
  show ?thesis
    using 1 2 3 by blast
qed

text \<open>
  The claim as it was stated fails on \<open>two_children_no_nic\<close>: the store lists two
  children for the pair, the server of the node has no private NIC on the network and
  the creation of one fails. The pass logs and returns that error; the violation is not
  logged.
\<close>

theorem duplicate_interfaces_counterexample:
  "Client_List_NetworkInterface two_children_no_nic
     [Get_PrivateNetwork ''pn-a'', NewPrefix ''10.0.0.0/24'', GetPrivateNetwork ''fr-par-1'' ''net-a'',
      List_Node]
     [privateNetworkLabel \<mapsto> ''pn-a'', nodeLabel \<mapsto> ''node-1''] = Inr [child1, child1_twin] \<and>
   Reconcile two_children_no_nic ''pn-a'' [] =
     (Return \<lparr>Requeue = False, RequeueAfter = 30000000000\<rparr> (Some (Err ''unavailable'')),
      [Get_PrivateNetwork ''pn-a'', NewPrefix ''10.0.0.0/24'', GetPrivateNetwork ''fr-par-1'' ''net-a'',
       List_Node, List_NetworkInterface [privateNetworkLabel \<mapsto> ''pn-a'', nodeLabel \<mapsto> ''node-1''],
       ListServers '''' ''node-1'', CreatePrivateNIC ''fr-par-1'' ''net-a'' ''abc'',
       Log_Error (Err ''unavailable'') ''unable to create private on server abc''])"
  by (simp add: two_children_no_nic_def two_children_def cloud_has_net_a_def store_has_pn_a_def
      example_defs const_defs block_defs)

theorem duplicate_interfaces_abort_witness:
  "Client_List_NetworkInterface two_children
     [Get_PrivateNetwork ''pn-a'', NewPrefix ''10.0.0.0/24'', GetPrivateNetwork ''fr-par-1'' ''net-a'',
      List_Node]
     [privateNetworkLabel \<mapsto> ''pn-a'', nodeLabel \<mapsto> ''node-1''] = Inr [child1, child1_twin] \<and>
   length [child1, child1_twin] > 1 \<and>
   Reconcile two_children ''pn-a'' [] =
     (Return \<lparr>Requeue = False, RequeueAfter = 30000000000\<rparr> None,
      [Get_PrivateNetwork ''pn-a'', NewPrefix ''10.0.0.0/24'', GetPrivateNetwork ''fr-par-1'' ''net-a'',
       List_Node, List_NetworkInterface [privateNetworkLabel \<mapsto> ''pn-a'', nodeLabel \<mapsto> ''node-1''],
       ListServers '''' ''node-1'',
       Log_Error (Err ''node node-1 have 2 networkInterfaces instead of at most one'')
         ''could not handle node''])"
proof -
  let ?e = two_children
  let ?h2 = "[Get_PrivateNetwork ''pn-a'', NewPrefix ''10.0.0.0/24'']"
  let ?h = "[Get_PrivateNetwork ''pn-a'', NewPrefix ''10.0.0.0/24'',
      GetPrivateNetwork ''fr-par-1'' ''net-a'', List_Node]"
  let ?labels = "[privateNetworkLabel \<mapsto> ''pn-a'', nodeLabel \<mapsto> ''node-1'']"
  have env: "?e = unavailable
     \<lparr>Client_Get_PrivateNetwork := (\<lambda>h name. Inr pn_a),
      IPAM_NewPrefix := (\<lambda>h cidr. Inr \<lparr>Cidr = cidr\<rparr>),
      VpcAPI_GetPrivateNetwork := (\<lambda>h zone id. None),
      Client_List_Node := (\<lambda>h. Inr [node1]),
      Client_List_NetworkInterface := (\<lambda>h labels. Inr [child1, child1_twin]),
      InstanceAPI_ListServers := (\<lambda>h zone name. Inr [server2])\<rparr>"
    by (simp add: two_children_def cloud_has_net_a_def store_has_pn_a_def)
  have vals: "pns_CIDR (pn_Spec pn_a) = ''10.0.0.0/24''" "pns_Zone (pn_Spec pn_a) = ''fr-par-1''"
    "pns_ID (pn_Spec pn_a) = ''net-a''" "om_Name (pn_ObjectMeta pn_a) = ''pn-a''"
    "node_Name node1 = ''node-1''"
    by (simp_all add: example_defs)
  have get: "Client_Get_PrivateNetwork ?e [] ''pn-a'' = Inr pn_a"
    by (simp add: env)
  have prefix: "IPAM_NewPrefix ?e ([] @ [Get_PrivateNetwork ''pn-a'']) (pns_CIDR (pn_Spec pn_a))
      = Inr \<lparr>Cidr = ''10.0.0.0/24''\<rparr>"
    by (simp add: env vals)
  have live: "IsZero (om_DeletionTimestamp (pn_ObjectMeta pn_a))"
    by (simp add: example_defs IsZero_def)
  have finalizer:
      "ContainsFinalizer (pn_ObjectMeta pn_a) finalizerName \<and> pn_a = pn_a \<and>
         ?h2 = [] @ [Get_PrivateNetwork ''pn-a'', NewPrefix (pns_CIDR (pn_Spec pn_a))] \<or>
       \<not> ContainsFinalizer (pn_ObjectMeta pn_a) finalizerName \<and>
         Client_Update_PrivateNetwork ?e
           ([] @ [Get_PrivateNetwork ''pn-a'', NewPrefix (pns_CIDR (pn_Spec pn_a))])
           (pn_a\<lparr>pn_ObjectMeta := AddFinalizer (pn_ObjectMeta pn_a) finalizerName\<rparr>) = Inr pn_a \<and>
         ?h2 = [] @ [Get_PrivateNetwork ''pn-a'', NewPrefix (pns_CIDR (pn_Spec pn_a)),
                    Update_PrivateNetwork
                      (pn_a\<lparr>pn_ObjectMeta := AddFinalizer (pn_ObjectMeta pn_a) finalizerName\<rparr>)]"
    by (simp add: example_defs ContainsFinalizer_def finalizerName_def)
  have vpc: "VpcAPI_GetPrivateNetwork ?e ?h2 (pns_Zone (pn_Spec pn_a)) (pns_ID (pn_Spec pn_a)) = None"
    by (simp add: env)
  have nodes: "Client_List_Node ?e
      (?h2 @ [GetPrivateNetwork (pns_Zone (pn_Spec pn_a)) (pns_ID (pn_Spec pn_a))])
      = Inr ([] @ node1 # [])"
    by (simp add: env)
  have reach: "syncNodes ?e pn_a \<lparr>Cidr = ''10.0.0.0/24''\<rparr> []
      (?h2 @ [GetPrivateNetwork (pns_Zone (pn_Spec pn_a)) (pns_ID (pn_Spec pn_a)), List_Node])
      = (Next, ?h)"
    by (simp add: vals)
  have list: "Client_List_NetworkInterface ?e ?h
      [privateNetworkLabel \<mapsto> om_Name (pn_ObjectMeta pn_a), nodeLabel \<mapsto> node_Name node1]
      = Inr [child1, child1_twin]"
    by (simp add: env)
  have many: "length [child1, child1_twin] > 1"
    by simp
  have server: "getServerFromNode ?e node1
      (?h @ [List_NetworkInterface
               [privateNetworkLabel \<mapsto> om_Name (pn_ObjectMeta pn_a), nodeLabel \<mapsto> node_Name node1]])
      = (Inr server2, ?h @ [List_NetworkInterface ?labels, ListServers '''' ''node-1''])"
    by (simp add: env example_defs block_defs)
  have nic: "ensurePrivateNIC ?e pn_a server2
      (?h @ [List_NetworkInterface ?labels, ListServers '''' ''node-1''])
      = (Inr (hd (srv_PrivateNics server2)),
         ?h @ [List_NetworkInterface ?labels, ListServers '''' ''node-1''])"
    by (simp add: ensurePrivateNIC_def example_defs)
  from duplicate_interfaces_abort [OF get prefix live finalizer vpc nodes reach list many,
      of server2 _ "hd (srv_PrivateNics server2)"] server nic
  have "Reconcile ?e ''pn-a'' [] =
          (Return Result_RequeueAfter None,
           (?h @ [List_NetworkInterface ?labels, ListServers '''' ''node-1'']) @
           [Log_Error
              (Err (''node '' @ node_Name node1 @ '' have '' @ fmt_d (length [child1, child1_twin])
                    @ '' networkInterfaces instead of at most one''))
              ''could not handle node''])"
    by blast
  then have "Reconcile ?e ''pn-a'' [] =
     (Return \<lparr>Requeue = False, RequeueAfter = 30000000000\<rparr> None,
      [Get_PrivateNetwork ''pn-a'', NewPrefix ''10.0.0.0/24'', GetPrivateNetwork ''fr-par-1'' ''net-a'',
       List_Node, List_NetworkInterface ?labels, ListServers '''' ''node-1'',
       Log_Error (Err ''node node-1 have 2 networkInterfaces instead of at most one'')
         ''could not handle node''])"
    by (simp add: vals const_defs fmt_d_2)
  moreover have "Client_List_NetworkInterface ?e ?h ?labels = Inr [child1, child1_twin]"
    by (simp add: env)
  ultimately show ?thesis
    by simp
qed

section \<open>Synchronization: the lookup of the network at the cloud provider\<close>

lemma reconcileNormal_lookup_fails:
  assumes "VpcAPI_GetPrivateNetwork env h (pns_Zone (pn_Spec pn)) (pns_ID (pn_Spec pn)) = Some err"
  shows "reconcileNormal env pn prefix h =
           (Return Result_RequeueAfter (Some err),
            h @ [GetPrivateNetwork (pns_Zone (pn_Spec pn)) (pns_ID (pn_Spec pn)),
                 Log_Error err ''error getting private network from api''])"
  using assms by (simp add: reconcileNormal_def Let_def)

text \<open>
  Claim C5, as amended. On a network that is not marked for deletion, when the cloud
  provider's lookup of the network by zone and identifier fails, the pass logs the
  error and returns a result with the fixed delay of 30 seconds together with the error
  of the lookup, not in place of it. The network looked up is the one read from the
  store when it carries the generic finalizer, and else the one that the store answers
  to the update that adds the finalizer.
\<close>

theorem lookup_failure_returns_delay_and_error:
  assumes "Client_Get_PrivateNetwork env h req = Inr pn"
    and "IPAM_NewPrefix env (h @ [Get_PrivateNetwork req]) (pns_CIDR (pn_Spec pn)) = Inr prefix"
    and "IsZero (om_DeletionTimestamp (pn_ObjectMeta pn))"
  shows
    "(ContainsFinalizer (pn_ObjectMeta pn) finalizerName \<and>
      VpcAPI_GetPrivateNetwork env (h @ [Get_PrivateNetwork req, NewPrefix (pns_CIDR (pn_Spec pn))])
        (pns_Zone (pn_Spec pn)) (pns_ID (pn_Spec pn)) = Some err \<longrightarrow>
      Reconcile env req h =
        (Return \<lparr>Requeue = False, RequeueAfter = 30 * 1000000000\<rparr> (Some err),
         h @ [Get_PrivateNetwork req, NewPrefix (pns_CIDR (pn_Spec pn)),
              GetPrivateNetwork (pns_Zone (pn_Spec pn)) (pns_ID (pn_Spec pn)),
              Log_Error err ''error getting private network from api''])) \<and>
     (\<not> ContainsFinalizer (pn_ObjectMeta pn) finalizerName \<and>
      Client_Update_PrivateNetwork env
        (h @ [Get_PrivateNetwork req, NewPrefix (pns_CIDR (pn_Spec pn))])
        (pn\<lparr>pn_ObjectMeta := AddFinalizer (pn_ObjectMeta pn) finalizerName\<rparr>) = Inr pn2 \<and>
      VpcAPI_GetPrivateNetwork env
        (h @ [Get_PrivateNetwork req, NewPrefix (pns_CIDR (pn_Spec pn)),
              Update_PrivateNetwork
                (pn\<lparr>pn_ObjectMeta := AddFinalizer (pn_ObjectMeta pn) finalizerName\<rparr>)])
        (pns_Zone (pn_Spec pn2)) (pns_ID (pn_Spec pn2)) = Some err \<longrightarrow>
      fst (Reconcile env req h) =
        Return \<lparr>Requeue = False, RequeueAfter = 30 * 1000000000\<rparr> (Some err))"
proof (intro conjI impI)
  assume a: "ContainsFinalizer (pn_ObjectMeta pn) finalizerName \<and>
      VpcAPI_GetPrivateNetwork env (h @ [Get_PrivateNetwork req, NewPrefix (pns_CIDR (pn_Spec pn))])
        (pns_Zone (pn_Spec pn)) (pns_ID (pn_Spec pn)) = Some err"
  then have fin: "ContainsFinalizer (pn_ObjectMeta pn) finalizerName"
    and f: "VpcAPI_GetPrivateNetwork env
        (h @ [Get_PrivateNetwork req, NewPrefix (pns_CIDR (pn_Spec pn))])
        (pns_Zone (pn_Spec pn)) (pns_ID (pn_Spec pn)) = Some err"
    by simp_all
  show "Reconcile env req h =
        (Return \<lparr>Requeue = False, RequeueAfter = 30 * 1000000000\<rparr> (Some err),
         h @ [Get_PrivateNetwork req, NewPrefix (pns_CIDR (pn_Spec pn)),
              GetPrivateNetwork (pns_Zone (pn_Spec pn)) (pns_ID (pn_Spec pn)),
              Log_Error err ''error getting private network from api''])"
    using Reconcile_not_deleting [OF assms fin] reconcileNormal_lookup_fails [OF f, of prefix]
    by (simp add: Result_RequeueAfter_def RequeueDuration_def Second_def)
next
  assume a: "\<not> ContainsFinalizer (pn_ObjectMeta pn) finalizerName \<and>
      Client_Update_PrivateNetwork env
        (h @ [Get_PrivateNetwork req, NewPrefix (pns_CIDR (pn_Spec pn))])
        (pn\<lparr>pn_ObjectMeta := AddFinalizer (pn_ObjectMeta pn) finalizerName\<rparr>) = Inr pn2 \<and>
      VpcAPI_GetPrivateNetwork env
        (h @ [Get_PrivateNetwork req, NewPrefix (pns_CIDR (pn_Spec pn)),
              Update_PrivateNetwork
                (pn\<lparr>pn_ObjectMeta := AddFinalizer (pn_ObjectMeta pn) finalizerName\<rparr>)])
        (pns_Zone (pn_Spec pn2)) (pns_ID (pn_Spec pn2)) = Some err"
  then have nofin: "\<not> ContainsFinalizer (pn_ObjectMeta pn) finalizerName"
    and u: "Client_Update_PrivateNetwork env
        (h @ [Get_PrivateNetwork req, NewPrefix (pns_CIDR (pn_Spec pn))])
        (pn\<lparr>pn_ObjectMeta := AddFinalizer (pn_ObjectMeta pn) finalizerName\<rparr>) = Inr pn2"
    and f: "VpcAPI_GetPrivateNetwork env
        (h @ [Get_PrivateNetwork req, NewPrefix (pns_CIDR (pn_Spec pn)),
              Update_PrivateNetwork
                (pn\<lparr>pn_ObjectMeta := AddFinalizer (pn_ObjectMeta pn) finalizerName\<rparr>)])
        (pns_Zone (pn_Spec pn2)) (pns_ID (pn_Spec pn2)) = Some err"
    by simp_all
  show "fst (Reconcile env req h) =
        Return \<lparr>Requeue = False, RequeueAfter = 30 * 1000000000\<rparr> (Some err)"
    using Reconcile_add_finalizer [OF assms nofin u] reconcileNormal_lookup_fails [OF f, of prefix]
    by (simp add: Result_RequeueAfter_def RequeueDuration_def Second_def)
qed

text \<open>
  The claim as it was stated fails on \<open>store_has_pn_a\<close>, where the lookup fails: the
  pass returns the error of the lookup.
\<close>

theorem lookup_failure_counterexample:
  "VpcAPI_GetPrivateNetwork store_has_pn_a [Get_PrivateNetwork ''pn-a'', NewPrefix ''10.0.0.0/24'']
     ''fr-par-1'' ''net-a'' = Some (Err ''unavailable'') \<and>
   IsZero (om_DeletionTimestamp (pn_ObjectMeta pn_a)) \<and>
   fst (Reconcile store_has_pn_a ''pn-a'' []) =
     Return \<lparr>Requeue = False, RequeueAfter = 30000000000\<rparr> (Some (Err ''unavailable'')) \<and>
   fst (Reconcile store_has_pn_a ''pn-a'' []) \<noteq>
     Return \<lparr>Requeue = False, RequeueAfter = 30000000000\<rparr> None"
  by (simp add: store_has_pn_a_def example_defs const_defs block_defs)

theorem lookup_failure_returns_delay_and_error_witness:
  "Client_Get_PrivateNetwork store_has_pn_a [] ''pn-a'' = Inr pn_a \<and>
   IPAM_NewPrefix store_has_pn_a [Get_PrivateNetwork ''pn-a''] (pns_CIDR (pn_Spec pn_a))
     = Inr \<lparr>Cidr = ''10.0.0.0/24''\<rparr> \<and>
   IsZero (om_DeletionTimestamp (pn_ObjectMeta pn_a)) \<and>
   ContainsFinalizer (pn_ObjectMeta pn_a) finalizerName \<and>
   VpcAPI_GetPrivateNetwork store_has_pn_a
     [Get_PrivateNetwork ''pn-a'', NewPrefix (pns_CIDR (pn_Spec pn_a))]
     (pns_Zone (pn_Spec pn_a)) (pns_ID (pn_Spec pn_a)) = Some (Err ''unavailable'') \<and>
   Reconcile store_has_pn_a ''pn-a'' [] =
     (Return \<lparr>Requeue = False, RequeueAfter = 30000000000\<rparr> (Some (Err ''unavailable'')),
      [Get_PrivateNetwork ''pn-a'', NewPrefix ''10.0.0.0/24'', GetPrivateNetwork ''fr-par-1'' ''net-a'',
       Log_Error (Err ''unavailable'') ''error getting private network from api''])"
proof -
  let ?env = store_has_pn_a
  have 1: "Client_Get_PrivateNetwork ?env [] ''pn-a'' = Inr pn_a"
    by (simp add: store_has_pn_a_def)
  have 2: "IPAM_NewPrefix ?env ([] @ [Get_PrivateNetwork ''pn-a'']) (pns_CIDR (pn_Spec pn_a))
     = Inr \<lparr>Cidr = ''10.0.0.0/24''\<rparr>"
    by (simp add: store_has_pn_a_def example_defs)
  have 3: "IsZero (om_DeletionTimestamp (pn_ObjectMeta pn_a))"
    by (simp add: example_defs IsZero_def)
  have 4: "ContainsFinalizer (pn_ObjectMeta pn_a) finalizerName"
    by (simp add: example_defs ContainsFinalizer_def finalizerName_def)
  have 5: "VpcAPI_GetPrivateNetwork ?env
     ([] @ [Get_PrivateNetwork ''pn-a'', NewPrefix (pns_CIDR (pn_Spec pn_a))])
     (pns_Zone (pn_Spec pn_a)) (pns_ID (pn_Spec pn_a)) = Some (Err ''unavailable'')"
    by (simp add: store_has_pn_a_def example_defs)
  from lookup_failure_returns_delay_and_error [OF 1 2 3, of "Err ''unavailable''"] 4 5
  have "Reconcile ?env ''pn-a'' [] =
        (Return \<lparr>Requeue = False, RequeueAfter = 30 * 1000000000\<rparr> (Some (Err ''unavailable'')),
         [] @ [Get_PrivateNetwork ''pn-a'', NewPrefix (pns_CIDR (pn_Spec pn_a)),
              GetPrivateNetwork (pns_Zone (pn_Spec pn_a)) (pns_ID (pn_Spec pn_a)),
              Log_Error (Err ''unavailable'') ''error getting private network from api''])"
    by blast
  then have "Reconcile ?env ''pn-a'' [] =
     (Return \<lparr>Requeue = False, RequeueAfter = 30000000000\<rparr> (Some (Err ''unavailable'')),
      [Get_PrivateNetwork ''pn-a'', NewPrefix ''10.0.0.0/24'', GetPrivateNetwork ''fr-par-1'' ''net-a'',
       Log_Error (Err ''unavailable'') ''error getting private network from api''])"
    by (simp add: example_defs)
  then show ?thesis
    using 1 2 3 4 5 by simp
qed

section \<open>Deletion: what the pool does not find\<close>

lemma listServersByName_release_irrelevant [simp]:
  "listServersByName (env\<lparr>IPAM_ReleaseIPFromPrefix := f\<rparr>) = listServersByName env"
  by (intro ext) (simp add: listServersByName_def Let_def split: sum.splits)

lemma getServerFromNode_release_irrelevant [simp]:
  "getServerFromNode (env\<lparr>IPAM_ReleaseIPFromPrefix := f\<rparr>) = getServerFromNode env"
  by (intro ext) (simp add: getServerFromNode_def split: prod.splits sum.splits)

lemma deletePrivateNICOfNode_release_irrelevant [simp]:
  "deletePrivateNICOfNode (env\<lparr>IPAM_ReleaseIPFromPrefix := f\<rparr>) = deletePrivateNICOfNode env"
  by (intro ext) (simp add: deletePrivateNICOfNode_def Let_def split: prod.splits sum.splits option.splits)

lemma removeIPFinalizer_release_irrelevant [simp]:
  "removeIPFinalizer (env\<lparr>IPAM_ReleaseIPFromPrefix := f\<rparr>) = removeIPFinalizer env"
  by (intro ext) (simp add: removeIPFinalizer_def Let_def split: option.splits)

lemma release_not_found_as_success:
  assumes "IPAM_ReleaseIPFromPrefix env h (pns_CIDR (pn_Spec pn))
               (strings_Split (nis_Address (ni_Spec nic)) CHR ''/'' ! 0) = Some err"
    and "As_NotFoundError err"
  shows "deleteNetworkInterface env pn nic h =
         deleteNetworkInterface (env\<lparr>IPAM_ReleaseIPFromPrefix := \<lambda>h cidr ip. None\<rparr>) pn nic h"
  using assms
  by (simp add: deleteNetworkInterface_def releaseNetworkInterface_def Let_def
      split: sum.splits option.splits prod.splits flow.splits)

lemma release_other_error:
  assumes marked: "\<not> IsZero (om_DeletionTimestamp (ni_ObjectMeta nic))"
    and nofin: "\<not> ContainsFinalizer (ni_ObjectMeta nic) finalizerName"
    and "IPAM_ReleaseIPFromPrefix env h (pns_CIDR (pn_Spec pn))
               (strings_Split (nis_Address (ni_Spec nic)) CHR ''/'' ! 0) = Some err"
    and "\<not> As_NotFoundError err"
  shows "deleteNetworkInterface env pn nic h =
          (Exit (Return Result_empty (Some err)),
           h @ [ReleaseIPFromPrefix (pns_CIDR (pn_Spec pn))
                  (strings_Split (nis_Address (ni_Spec nic)) CHR ''/'' ! 0),
                Log_Error err (''could not delete IP '' @ nis_Address (ni_Spec nic)
                               @ '' from prefix '' @ pns_CIDR (pn_Spec pn))])"
  using assms by (simp add: deleteNetworkInterface_def releaseNetworkInterface_def Let_def)

lemma Reconcile_no_child:
  assumes get: "Client_Get_PrivateNetwork env h0 req = Inr pn"
    and prefix: "IPAM_NewPrefix env (h0 @ [Get_PrivateNetwork req]) (pns_CIDR (pn_Spec pn)) = Inr prefix"
    and deleting: "\<not> IsZero (om_DeletionTimestamp (pn_ObjectMeta pn))"
    and fin: "ContainsFinalizer (pn_ObjectMeta pn) finalizerName"
    and list: "Client_List_NetworkInterface env
           (h0 @ [Get_PrivateNetwork req, NewPrefix (pns_CIDR (pn_Spec pn))])
           [privateNetworkLabel \<mapsto> om_Name (pn_ObjectMeta pn)] = Inr []"
  shows "Reconcile env req h0 =
           deletePrefixAndFinalizer env pn
             (h0 @ [Get_PrivateNetwork req, NewPrefix (pns_CIDR (pn_Spec pn)),
                    List_NetworkInterface [privateNetworkLabel \<mapsto> om_Name (pn_ObjectMeta pn)]])"
  using Reconcile_deleting [OF get prefix deleting] fin list
  by (simp add: reconcileDelete_def Let_def)
lemma deletePrefix_not_found_as_success:
  assumes "IPAM_DeletePrefix env h (pns_CIDR (pn_Spec pn)) = Some err"
    and "As_NotFoundError err"
  shows "deletePrefixAndFinalizer env pn h =
         deletePrefixAndFinalizer (env\<lparr>IPAM_DeletePrefix := \<lambda>h cidr. None\<rparr>) pn h"
  using assms by (simp add: deletePrefixAndFinalizer_def Let_def split: sum.splits)

lemma deletePrefix_goes_on:
  assumes "IPAM_DeletePrefix env h (pns_CIDR (pn_Spec pn)) = Some err"
    and "As_NotFoundError err"
  shows "deletePrefixAndFinalizer env pn h =
     (case Client_Update_PrivateNetwork env (h @ [DeletePrefix (pns_CIDR (pn_Spec pn))])
             (pn\<lparr>pn_ObjectMeta := RemoveFinalizer (pn_ObjectMeta pn) finalizerName\<rparr>) of
        Inl e \<Rightarrow>
          (Return Result_empty (Some e),
           h @ [DeletePrefix (pns_CIDR (pn_Spec pn)),
                Update_PrivateNetwork
                  (pn\<lparr>pn_ObjectMeta := RemoveFinalizer (pn_ObjectMeta pn) finalizerName\<rparr>),
                Log_Error e ''failed to add finalizer''])
      | Inr pn2 \<Rightarrow>
          (Return Result_empty None,
           h @ [DeletePrefix (pns_CIDR (pn_Spec pn)),
                Update_PrivateNetwork
                  (pn\<lparr>pn_ObjectMeta := RemoveFinalizer (pn_ObjectMeta pn) finalizerName\<rparr>)]))"
  using assms by (simp add: deletePrefixAndFinalizer_def Let_def split: sum.splits)

lemma deletePrefix_other_error:
  assumes "IPAM_DeletePrefix env h (pns_CIDR (pn_Spec pn)) = Some err"
    and "\<not> As_NotFoundError err"
  shows "deletePrefixAndFinalizer env pn h =
          (Return Result_empty (Some err),
           h @ [DeletePrefix (pns_CIDR (pn_Spec pn)),
                Log_Error err ''failed to delete PrivateNetwork prefix''])"
  using assms by (simp add: deletePrefixAndFinalizer_def Let_def)

text \<open>
  Claim C6. The pass is on a network that is marked for deletion and carries the generic
  finalizer.

  First part: the pass has reached, with the history \<open>h\<close>, a child that is marked for
  deletion and has no generic finalizer, and the pool answers the release of the
  child's address with an error. If the error is a not-found error, the step on the
  child is the step it would be had the pool answered success, and the pass goes on: its
  next call reads the node of the child. If it is another error, the pass logs it and
  returns it at once.

  Second part: the network has no child, and the pool answers the deletion of the
  prefix with an error. If the error is a not-found error, the pass goes on with the
  update of the network without its finalizer, and returns no error when that update
  succeeds. If it is another error, the pass logs it and returns it at once.
\<close>

theorem pool_not_found_is_success:
  assumes get: "Client_Get_PrivateNetwork env h0 req = Inr pn"
    and prefix: "IPAM_NewPrefix env (h0 @ [Get_PrivateNetwork req]) (pns_CIDR (pn_Spec pn)) = Inr prefix"
    and deleting: "\<not> IsZero (om_DeletionTimestamp (pn_ObjectMeta pn))"
    and fin: "ContainsFinalizer (pn_ObjectMeta pn) finalizerName"
  shows
    "(Client_List_NetworkInterface env
        (h0 @ [Get_PrivateNetwork req, NewPrefix (pns_CIDR (pn_Spec pn))])
        [privateNetworkLabel \<mapsto> om_Name (pn_ObjectMeta pn)] = Inr (before @ nic # after) \<and>
      deleteNetworkInterfaces env pn before
        (h0 @ [Get_PrivateNetwork req, NewPrefix (pns_CIDR (pn_Spec pn)),
               List_NetworkInterface [privateNetworkLabel \<mapsto> om_Name (pn_ObjectMeta pn)]])
        = (Next, h) \<and>
      \<not> IsZero (om_DeletionTimestamp (ni_ObjectMeta nic)) \<and>
      \<not> ContainsFinalizer (ni_ObjectMeta nic) finalizerName \<and>
      IPAM_ReleaseIPFromPrefix env h (pns_CIDR (pn_Spec pn))
        (strings_Split (nis_Address (ni_Spec nic)) CHR ''/'' ! 0) = Some err \<longrightarrow>
        (As_NotFoundError err \<longrightarrow>
           deleteNetworkInterface env pn nic h =
             deleteNetworkInterface (env\<lparr>IPAM_ReleaseIPFromPrefix := \<lambda>h cidr ip. None\<rparr>) pn nic h \<and>
           (\<exists>es. snd (Reconcile env req h0) =
                   h @ [ReleaseIPFromPrefix (pns_CIDR (pn_Spec pn))
                          (strings_Split (nis_Address (ni_Spec nic)) CHR ''/'' ! 0),
                        Get_Node (nis_NodeName (ni_Spec nic))] @ es)) \<and>
        (\<not> As_NotFoundError err \<longrightarrow>
           Reconcile env req h0 =
             (Return Result_empty (Some err),
              h @ [ReleaseIPFromPrefix (pns_CIDR (pn_Spec pn))
                     (strings_Split (nis_Address (ni_Spec nic)) CHR ''/'' ! 0),
                   Log_Error err (''could not delete IP '' @ nis_Address (ni_Spec nic)
                                  @ '' from prefix '' @ pns_CIDR (pn_Spec pn))]))) \<and>
     (Client_List_NetworkInterface env
        (h0 @ [Get_PrivateNetwork req, NewPrefix (pns_CIDR (pn_Spec pn))])
        [privateNetworkLabel \<mapsto> om_Name (pn_ObjectMeta pn)] = Inr [] \<and>
      IPAM_DeletePrefix env
        (h0 @ [Get_PrivateNetwork req, NewPrefix (pns_CIDR (pn_Spec pn)),
               List_NetworkInterface [privateNetworkLabel \<mapsto> om_Name (pn_ObjectMeta pn)]])
        (pns_CIDR (pn_Spec pn)) = Some err' \<longrightarrow>
        (As_NotFoundError err' \<longrightarrow>
           Reconcile env req h0 = Reconcile (env\<lparr>IPAM_DeletePrefix := \<lambda>h cidr. None\<rparr>) req h0 \<and>
           (\<exists>es. snd (Reconcile env req h0) =
                   h0 @ [Get_PrivateNetwork req, NewPrefix (pns_CIDR (pn_Spec pn)),
                         List_NetworkInterface [privateNetworkLabel \<mapsto> om_Name (pn_ObjectMeta pn)],
                         DeletePrefix (pns_CIDR (pn_Spec pn)),
                         Update_PrivateNetwork
                           (pn\<lparr>pn_ObjectMeta := RemoveFinalizer (pn_ObjectMeta pn) finalizerName\<rparr>)]
                      @ es) \<and>
           ((\<exists>pn2. Client_Update_PrivateNetwork env
                (h0 @ [Get_PrivateNetwork req, NewPrefix (pns_CIDR (pn_Spec pn)),
                       List_NetworkInterface [privateNetworkLabel \<mapsto> om_Name (pn_ObjectMeta pn)],
                       DeletePrefix (pns_CIDR (pn_Spec pn))])
                (pn\<lparr>pn_ObjectMeta := RemoveFinalizer (pn_ObjectMeta pn) finalizerName\<rparr>) = Inr pn2) \<longrightarrow>
              fst (Reconcile env req h0) = Return Result_empty None)) \<and>
        (\<not> As_NotFoundError err' \<longrightarrow>
           Reconcile env req h0 =
             (Return Result_empty (Some err'),
              h0 @ [Get_PrivateNetwork req, NewPrefix (pns_CIDR (pn_Spec pn)),
                    List_NetworkInterface [privateNetworkLabel \<mapsto> om_Name (pn_ObjectMeta pn)],
                    DeletePrefix (pns_CIDR (pn_Spec pn)),
                    Log_Error err' ''failed to delete PrivateNetwork prefix''])))"
proof (intro conjI impI)
  let ?cidr = "pns_CIDR (pn_Spec pn)"
  let ?ip = "strings_Split (nis_Address (ni_Spec nic)) CHR ''/'' ! 0"
  let ?labels = "[privateNetworkLabel \<mapsto> om_Name (pn_ObjectMeta pn)]"
  let ?h3 = "h0 @ [Get_PrivateNetwork req, NewPrefix ?cidr, List_NetworkInterface ?labels]"
  assume a: "Client_List_NetworkInterface env (h0 @ [Get_PrivateNetwork req, NewPrefix ?cidr])
        ?labels = Inr (before @ nic # after) \<and>
      deleteNetworkInterfaces env pn before ?h3 = (Next, h) \<and>
      \<not> IsZero (om_DeletionTimestamp (ni_ObjectMeta nic)) \<and>
      \<not> ContainsFinalizer (ni_ObjectMeta nic) finalizerName \<and>
      IPAM_ReleaseIPFromPrefix env h ?cidr ?ip = Some err"
  then have list: "Client_List_NetworkInterface env (h0 @ [Get_PrivateNetwork req, NewPrefix ?cidr])
        ?labels = Inr (before @ nic # after)"
    and reach: "deleteNetworkInterfaces env pn before ?h3 = (Next, h)"
    and marked: "\<not> IsZero (om_DeletionTimestamp (ni_ObjectMeta nic))"
    and nofin: "\<not> ContainsFinalizer (ni_ObjectMeta nic) finalizerName"
    and rel: "IPAM_ReleaseIPFromPrefix env h ?cidr ?ip = Some err"
    by simp_all
  note pass = Reconcile_reaches_child [OF get prefix deleting fin list reach]
  {
    assume nf: "As_NotFoundError err"
    show "deleteNetworkInterface env pn nic h =
             deleteNetworkInterface (env\<lparr>IPAM_ReleaseIPFromPrefix := \<lambda>h cidr ip. None\<rparr>) pn nic h"
      using rel nf by (rule release_not_found_as_success)
    obtain r1 h1 where step: "deleteNetworkInterface env pn nic h = (r1, h1)"
      by (cases "deleteNetworkInterface env pn nic h")
    from release_goes_on [OF marked nofin, of env h pn] rel nf step
    obtain es1 where h1: "h1 = h @ [ReleaseIPFromPrefix ?cidr ?ip, Get_Node (nis_NodeName (ni_Spec nic))] @ es1"
      by auto
    from deleteNetworkInterfaces_history [OF step, of after]
    obtain es2 where "snd (deleteNetworkInterfaces env pn (nic # after) h) = h1 @ es2"
      by blast
    moreover have "snd (Reconcile env req h0) = snd (deleteNetworkInterfaces env pn (nic # after) h)"
      using pass by (simp split: prod.splits flow.splits)
    ultimately have "snd (Reconcile env req h0) =
        h @ [ReleaseIPFromPrefix ?cidr ?ip, Get_Node (nis_NodeName (ni_Spec nic))] @ (es1 @ es2)"
      using h1 by simp
    then show "\<exists>es. snd (Reconcile env req h0) =
        h @ [ReleaseIPFromPrefix ?cidr ?ip, Get_Node (nis_NodeName (ni_Spec nic))] @ es"
      by blast
  }
  {
    assume other: "\<not> As_NotFoundError err"
    from release_other_error [OF marked nofin rel other]
    have "deleteNetworkInterfaces env pn (nic # after) h =
        (Exit (Return Result_empty (Some err)),
         h @ [ReleaseIPFromPrefix ?cidr ?ip,
              Log_Error err (''could not delete IP '' @ nis_Address (ni_Spec nic)
                             @ '' from prefix '' @ ?cidr)])"
      by simp
    then show "Reconcile env req h0 =
        (Return Result_empty (Some err),
         h @ [ReleaseIPFromPrefix ?cidr ?ip,
              Log_Error err (''could not delete IP '' @ nis_Address (ni_Spec nic)
                             @ '' from prefix '' @ ?cidr)])"
      using pass by simp
  }
next
  let ?cidr = "pns_CIDR (pn_Spec pn)"
  let ?labels = "[privateNetworkLabel \<mapsto> om_Name (pn_ObjectMeta pn)]"
  let ?h3 = "h0 @ [Get_PrivateNetwork req, NewPrefix ?cidr, List_NetworkInterface ?labels]"
  let ?pn1 = "pn\<lparr>pn_ObjectMeta := RemoveFinalizer (pn_ObjectMeta pn) finalizerName\<rparr>"
  let ?env' = "env\<lparr>IPAM_DeletePrefix := \<lambda>h cidr. None\<rparr>"
  assume a: "Client_List_NetworkInterface env (h0 @ [Get_PrivateNetwork req, NewPrefix ?cidr])
        ?labels = Inr [] \<and> IPAM_DeletePrefix env ?h3 ?cidr = Some err'"
  then have list: "Client_List_NetworkInterface env (h0 @ [Get_PrivateNetwork req, NewPrefix ?cidr])
        ?labels = Inr []"
    and del: "IPAM_DeletePrefix env ?h3 ?cidr = Some err'"
    by simp_all
  note pass = Reconcile_no_child [OF get prefix deleting fin list]
  {
    assume nf: "As_NotFoundError err'"
    have "Reconcile ?env' req h0 = deletePrefixAndFinalizer ?env' pn ?h3"
      using get prefix deleting fin list
      by (intro Reconcile_no_child [where prefix = prefix]) simp_all
    then show "Reconcile env req h0 = Reconcile ?env' req h0"
      using pass deletePrefix_not_found_as_success [OF del nf] by simp
    show "\<exists>es. snd (Reconcile env req h0) =
        h0 @ [Get_PrivateNetwork req, NewPrefix ?cidr, List_NetworkInterface ?labels,
              DeletePrefix ?cidr, Update_PrivateNetwork ?pn1] @ es"
      using pass deletePrefix_goes_on [OF del nf]
      by (cases "Client_Update_PrivateNetwork env (?h3 @ [DeletePrefix ?cidr]) ?pn1") simp_all
    {
      assume "\<exists>pn2. Client_Update_PrivateNetwork env
          (h0 @ [Get_PrivateNetwork req, NewPrefix ?cidr, List_NetworkInterface ?labels,
                 DeletePrefix ?cidr]) ?pn1 = Inr pn2"
      then show "fst (Reconcile env req h0) = Return Result_empty None"
        using pass deletePrefix_goes_on [OF del nf] by auto
    }
  }
  {
    assume other: "\<not> As_NotFoundError err'"
    show "Reconcile env req h0 =
        (Return Result_empty (Some err'),
         h0 @ [Get_PrivateNetwork req, NewPrefix ?cidr, List_NetworkInterface ?labels,
               DeletePrefix ?cidr, Log_Error err' ''failed to delete PrivateNetwork prefix''])"
      using pass deletePrefix_other_error [OF del other] by simp
  }
qed

theorem pool_not_found_is_success_witness:
  "Client_Get_PrivateNetwork child_released_node_gone [] ''pn-a'' = Inr pn_a_deleting \<and>
   Client_List_NetworkInterface child_released_node_gone
     [Get_PrivateNetwork ''pn-a'', NewPrefix ''10.0.0.0/24'']
     [privateNetworkLabel \<mapsto> ''pn-a''] = Inr ([] @ child1_released # []) \<and>
   \<not> IsZero (om_DeletionTimestamp (ni_ObjectMeta child1_released)) \<and>
   \<not> ContainsFinalizer (ni_ObjectMeta child1_released) finalizerName \<and>
   IPAM_ReleaseIPFromPrefix child_released_node_gone
     [Get_PrivateNetwork ''pn-a'', NewPrefix ''10.0.0.0/24'',
      List_NetworkInterface [privateNetworkLabel \<mapsto> ''pn-a'']]
     ''10.0.0.0/24'' ''10.0.0.2'' = Some (IpamNotFoundError ''NotFound'') \<and>
   As_NotFoundError (IpamNotFoundError ''NotFound'') \<and>
   deleteNetworkInterface child_released_node_gone pn_a_deleting child1_released
     [Get_PrivateNetwork ''pn-a'', NewPrefix ''10.0.0.0/24'',
      List_NetworkInterface [privateNetworkLabel \<mapsto> ''pn-a'']] =
   deleteNetworkInterface
     (child_released_node_gone\<lparr>IPAM_ReleaseIPFromPrefix := \<lambda>h cidr ip. None\<rparr>)
     pn_a_deleting child1_released
     [Get_PrivateNetwork ''pn-a'', NewPrefix ''10.0.0.0/24'',
      List_NetworkInterface [privateNetworkLabel \<mapsto> ''pn-a'']] \<and>
   take 5 (snd (Reconcile child_released_node_gone ''pn-a'' [])) =
     [Get_PrivateNetwork ''pn-a'', NewPrefix ''10.0.0.0/24'',
      List_NetworkInterface [privateNetworkLabel \<mapsto> ''pn-a''],
      ReleaseIPFromPrefix ''10.0.0.0/24'' ''10.0.0.2'', Get_Node ''node-1''] \<and>
   Client_List_NetworkInterface no_child_prefix_gone
     [Get_PrivateNetwork ''pn-a'', NewPrefix ''10.0.0.0/24'']
     [privateNetworkLabel \<mapsto> ''pn-a''] = Inr [] \<and>
   IPAM_DeletePrefix no_child_prefix_gone
     [Get_PrivateNetwork ''pn-a'', NewPrefix ''10.0.0.0/24'',
      List_NetworkInterface [privateNetworkLabel \<mapsto> ''pn-a'']]
     ''10.0.0.0/24'' = Some (IpamNotFoundError ''NotFound'') \<and>
   fst (Reconcile no_child_prefix_gone ''pn-a'' []) = Return \<lparr>Requeue = False, RequeueAfter = 0\<rparr> None"
proof -
  let ?e1 = child_released_node_gone
  let ?e2 = no_child_prefix_gone
  let ?h3 = "[Get_PrivateNetwork ''pn-a'', NewPrefix ''10.0.0.0/24'',
      List_NetworkInterface [privateNetworkLabel \<mapsto> ''pn-a'']]"
  have cidr: "pns_CIDR (pn_Spec pn_a_deleting) = ''10.0.0.0/24''"
    and name: "om_Name (pn_ObjectMeta pn_a_deleting) = ''pn-a''"
    and ip: "strings_Split (nis_Address (ni_Spec child1_released)) CHR ''/'' ! 0 = ''10.0.0.2''"
    and node: "nis_NodeName (ni_Spec child1_released) = ''node-1''"
    by (simp_all add: example_defs)
  have deleting: "\<not> IsZero (om_DeletionTimestamp (pn_ObjectMeta pn_a_deleting))"
    by (simp add: example_defs IsZero_def)
  have fin: "ContainsFinalizer (pn_ObjectMeta pn_a_deleting) finalizerName"
    by (simp add: example_defs ContainsFinalizer_def finalizerName_def)
  have get1: "Client_Get_PrivateNetwork ?e1 [] ''pn-a'' = Inr pn_a_deleting"
    by (simp add: child_released_node_gone_def)
  have prefix1: "IPAM_NewPrefix ?e1 ([] @ [Get_PrivateNetwork ''pn-a''])
      (pns_CIDR (pn_Spec pn_a_deleting)) = Inr \<lparr>Cidr = ''10.0.0.0/24''\<rparr>"
    by (simp add: child_released_node_gone_def cidr)
  have list1: "Client_List_NetworkInterface ?e1
     [Get_PrivateNetwork ''pn-a'', NewPrefix ''10.0.0.0/24'']
     [privateNetworkLabel \<mapsto> ''pn-a''] = Inr ([] @ child1_released # [])"
    by (simp add: child_released_node_gone_def)
  have marked: "\<not> IsZero (om_DeletionTimestamp (ni_ObjectMeta child1_released))"
    by (simp add: example_defs IsZero_def)
  have nofin: "\<not> ContainsFinalizer (ni_ObjectMeta child1_released) finalizerName"
    by (simp add: example_defs ContainsFinalizer_def finalizerName_def)
  have rel: "IPAM_ReleaseIPFromPrefix ?e1 ?h3 ''10.0.0.0/24'' ''10.0.0.2''
      = Some (IpamNotFoundError ''NotFound'')"
    by (simp add: child_released_node_gone_def)
  have nf: "As_NotFoundError (IpamNotFoundError ''NotFound'')"
    by (simp add: As_NotFoundError_def)
  have reach: "deleteNetworkInterfaces ?e1 pn_a_deleting [] ?h3 = (Next, ?h3)"
    by simp
  note a = pool_not_found_is_success [OF get1 prefix1 deleting fin,
      where before = "[]" and nic = child1_released and after = "[]" and h = ?h3
        and err = "IpamNotFoundError ''NotFound''", unfolded cidr name ip node]
  have a1: "deleteNetworkInterface ?e1 pn_a_deleting child1_released ?h3 =
     deleteNetworkInterface (?e1\<lparr>IPAM_ReleaseIPFromPrefix := \<lambda>h cidr ip. None\<rparr>)
       pn_a_deleting child1_released ?h3"
    using a list1 reach marked nofin rel nf by simp
  have a2: "\<exists>es. snd (Reconcile ?e1 ''pn-a'' []) =
      ?h3 @ [ReleaseIPFromPrefix ''10.0.0.0/24'' ''10.0.0.2'', Get_Node ''node-1''] @ es"
    using a list1 reach marked nofin rel nf by simp
  then have a3: "take 5 (snd (Reconcile ?e1 ''pn-a'' [])) =
      ?h3 @ [ReleaseIPFromPrefix ''10.0.0.0/24'' ''10.0.0.2'', Get_Node ''node-1'']"
    by auto
  have get2: "Client_Get_PrivateNetwork ?e2 [] ''pn-a'' = Inr pn_a_deleting"
    by (simp add: no_child_prefix_gone_def)
  have prefix2: "IPAM_NewPrefix ?e2 ([] @ [Get_PrivateNetwork ''pn-a''])
      (pns_CIDR (pn_Spec pn_a_deleting)) = Inr \<lparr>Cidr = ''10.0.0.0/24''\<rparr>"
    by (simp add: no_child_prefix_gone_def cidr)
  have list2: "Client_List_NetworkInterface ?e2
     [Get_PrivateNetwork ''pn-a'', NewPrefix ''10.0.0.0/24'']
     [privateNetworkLabel \<mapsto> ''pn-a''] = Inr []"
    by (simp add: no_child_prefix_gone_def)
  have del: "IPAM_DeletePrefix ?e2 ?h3 ''10.0.0.0/24'' = Some (IpamNotFoundError ''NotFound'')"
    by (simp add: no_child_prefix_gone_def)
  have upd: "\<exists>pn2. Client_Update_PrivateNetwork ?e2
      [Get_PrivateNetwork ''pn-a'', NewPrefix ''10.0.0.0/24'',
       List_NetworkInterface [privateNetworkLabel \<mapsto> ''pn-a''], DeletePrefix ''10.0.0.0/24'']
      (pn_a_deleting\<lparr>pn_ObjectMeta :=
         RemoveFinalizer (pn_ObjectMeta pn_a_deleting) finalizerName\<rparr>) = Inr pn2"
    by (simp add: no_child_prefix_gone_def)
  note b = pool_not_found_is_success [OF get2 prefix2 deleting fin,
      where err' = "IpamNotFoundError ''NotFound''", unfolded cidr name append_Nil]
  have b1: "fst (Reconcile ?e2 ''pn-a'' []) = Return Result_empty None"
    using b list2 del nf upd by blast
  show ?thesis
    using get1 list1 marked nofin rel nf a1 a3 list2 del b1
    by (simp add: Result_empty_def)
qed

section \<open>Properties of the node resolver\<close>

lemma parseProviderID_empty:
  "node_ProviderID node = '''' \<Longrightarrow> parseProviderID node = ('''', '''')"
  by (simp add: parseProviderID_def)

lemma parseProviderID_no_match:
  "\<not> MatchString (node_ProviderID node) \<Longrightarrow> parseProviderID node = ('''', '''')"
  by (simp add: parseProviderID_def MatchString_def)

lemma listServersByName_result:
  assumes "InstanceAPI_ListServers env h zone name = Inr servers"
  shows "fst (listServersByName env zone name h) =
           (if length servers = 1 then Inr (servers ! 0)
            else Inl (Err (''found '' @ fmt_d (length servers) @ '' servers with name '' @ name
                           @ '' instead of 1'')))"
  using assms by (simp add: listServersByName_def)

lemma listServersByName_history:
  "snd (listServersByName env zone name h) = h @ [ListServers zone name]"
  by (simp add: listServersByName_def Let_def split: sum.splits)

lemma after_literal_prefix: "after_literal ''scaleway://'' (''scaleway://'' @ rest) = Some rest"
  by simp

lemma takeWhile_all: "\<forall>x\<in>set xs. P x \<Longrightarrow> takeWhile P xs = xs"
  by (simp add: takeWhile_eq_all_conv)

lemma takeWhile_stop: "\<forall>x\<in>set xs. P x \<Longrightarrow> \<not> P y \<Longrightarrow> takeWhile P (xs @ y # ys) = xs"
  by (simp add: takeWhile_tail takeWhile_eq_all_conv)

lemma FindStringSubmatch_three:
  assumes "CHR ''/'' \<notin> set product" "CHR ''/'' \<notin> set localization"
    and "CHR 0x0A \<notin> set (product @ localization @ uuid)"
  shows "FindStringSubmatch (''scaleway://'' @ product @ ''/'' @ localization @ ''/'' @ uuid) =
         Some [''scaleway://'' @ product @ ''/'' @ localization @ ''/'' @ uuid,
               product @ ''/'' @ localization @ ''/'' @ uuid, product, localization, uuid, '''']"
proof -
  let ?line = "product @ ''/'' @ localization @ ''/'' @ uuid"
  have a: "after_literal ''scaleway://'' (''scaleway://'' @ ?line) = Some ?line"
    by (rule after_literal_prefix)
  have l: "takeWhile (\<lambda>c. c \<noteq> CHR 0x0A) ?line = ?line"
    using assms(3) by (intro takeWhile_all) auto
  have p: "takeWhile (\<lambda>c. c \<noteq> CHR ''/'') ?line = product"
    using assms(1) by (auto simp: takeWhile_tail takeWhile_eq_all_conv)
  have q: "takeWhile (\<lambda>c. c \<noteq> CHR ''/'') (localization @ CHR ''/'' # uuid) = localization"
    using assms(2) by (auto simp: takeWhile_tail takeWhile_eq_all_conv)
  show ?thesis
    unfolding FindStringSubmatch_def a by (simp only: option.case Let_def l p) (simp add: q)
qed

lemma parseProviderID_three:
  assumes "node_ProviderID node = ''scaleway://'' @ product @ ''/'' @ localization @ ''/'' @ uuid"
    and "CHR ''/'' \<notin> set product" "CHR ''/'' \<notin> set localization"
    and "CHR 0x0A \<notin> set (product @ localization @ uuid)"
  shows "parseProviderID node = (uuid, localization)"
  using FindStringSubmatch_three [OF assms(2-4)] assms(1)
  by (simp add: parseProviderID_def SubexpNames_def regexpUUID_def regexpLocalization_def
      regexpProduct_def upt_rec)

lemma FindStringSubmatch_one:
  assumes "CHR ''/'' \<notin> set uuid" "CHR 0x0A \<notin> set uuid"
  shows "FindStringSubmatch (''scaleway://'' @ uuid) =
         Some [''scaleway://'' @ uuid, uuid, '''', '''', '''', uuid]"
proof -
  have a: "after_literal ''scaleway://'' (''scaleway://'' @ uuid) = Some uuid"
    by (rule after_literal_prefix)
  have l: "takeWhile (\<lambda>c. c \<noteq> CHR 0x0A) uuid = uuid"
    using assms(2) by (intro takeWhile_all) auto
  have p: "takeWhile (\<lambda>c. c \<noteq> CHR ''/'') uuid = uuid"
    using assms(1) by (intro takeWhile_all) auto
  show ?thesis
    unfolding FindStringSubmatch_def a by (simp only: option.case Let_def l p) simp
qed

lemma parseProviderID_one:
  assumes "node_ProviderID node = ''scaleway://'' @ uuid"
    and "CHR ''/'' \<notin> set uuid" "CHR 0x0A \<notin> set uuid"
  shows "parseProviderID node = (uuid, '''')"
  using FindStringSubmatch_one [OF assms(2-3)] assms(1)
  by (simp add: parseProviderID_def SubexpNames_def regexpUUID_def regexpLocalization_def
      regexpProduct_def upt_rec)

lemma getServerFromNode_by_name:
  assumes p: "parseProviderID node = (instanceID, zone)"
    and f: "instanceID = '''' \<and> h' = h \<or>
            instanceID \<noteq> '''' \<and> (\<exists>err. InstanceAPI_GetServer env h zone instanceID = Inl err) \<and>
            h' = h @ [GetServer zone instanceID]"
  shows "getServerFromNode env node h = listServersByName env zone (node_Name node) h'"
  using p f by (auto simp: getServerFromNode_def)

text \<open>
  Claim C7. Let the provider identifier of the node be parsed into an instance
  identifier and a zone. Both are empty when the provider identifier is empty or is not
  matched by the pattern; they are the uuid and the localization of an identifier of the
  form \<^verbatim>\<open>scaleway://product/localization/uuid\<close>, of which the uuid may be empty, and
  the uuid and the empty zone of an identifier of the form \<^verbatim>\<open>scaleway://uuid\<close>.

  Where the instance identifier is not empty and the lookup of the server by it
  succeeds, the resolver returns that server and makes no other call. In every other
  case (the instance identifier is empty, or the lookup by it fails) the resolver goes
  on to the lookup by name: it lists the servers of the zone with the name of the node,
  and returns a server exactly when the list is answered and has one entry, which is the
  server returned. For a list of any other number \<open>N\<close> of entries it returns the error
  \<^verbatim>\<open>found N servers with name X instead of 1\<close>, \<open>X\<close> being the name of the node, and
  where the listing fails it returns the error of the listing.
\<close>

theorem getServerFromNode_fallback:
  assumes "parseProviderID node = (instanceID, zone)"
  shows
   "(node_ProviderID node = '''' \<or> \<not> MatchString (node_ProviderID node) \<longrightarrow>
       instanceID = '''' \<and> zone = '''') \<and>
    (\<forall>product localization uuid.
       node_ProviderID node = ''scaleway://'' @ product @ ''/'' @ localization @ ''/'' @ uuid \<and>
       CHR ''/'' \<notin> set product \<and> CHR ''/'' \<notin> set localization \<and>
       CHR 0x0A \<notin> set (product @ localization @ uuid) \<longrightarrow>
         instanceID = uuid \<and> zone = localization) \<and>
    (\<forall>uuid.
       node_ProviderID node = ''scaleway://'' @ uuid \<and> CHR ''/'' \<notin> set uuid \<and>
       CHR 0x0A \<notin> set uuid \<longrightarrow>
         instanceID = uuid \<and> zone = '''') \<and>
    (\<forall>server.
       instanceID \<noteq> '''' \<and> InstanceAPI_GetServer env h zone instanceID = Inr server \<longrightarrow>
         getServerFromNode env node h = (Inr server, h @ [GetServer zone instanceID])) \<and>
    (instanceID = '''' \<and> h' = h \<or>
     instanceID \<noteq> '''' \<and> (\<exists>err. InstanceAPI_GetServer env h zone instanceID = Inl err) \<and>
     h' = h @ [GetServer zone instanceID] \<longrightarrow>
       snd (getServerFromNode env node h) = h' @ [ListServers zone (node_Name node)] \<and>
       (\<forall>server. fst (getServerFromNode env node h) = Inr server \<longleftrightarrow>
          (\<exists>servers. InstanceAPI_ListServers env h' zone (node_Name node) = Inr servers \<and>
             length servers = 1 \<and> server = servers ! 0)) \<and>
       (\<forall>servers. InstanceAPI_ListServers env h' zone (node_Name node) = Inr servers \<and>
          length servers \<noteq> 1 \<longrightarrow>
            fst (getServerFromNode env node h) =
              Inl (Err (''found '' @ fmt_d (length servers) @ '' servers with name ''
                        @ node_Name node @ '' instead of 1''))) \<and>
       (\<forall>err. InstanceAPI_ListServers env h' zone (node_Name node) = Inl err \<longrightarrow>
          fst (getServerFromNode env node h) = Inl err))"
proof (intro conjI allI impI)
  assume "node_ProviderID node = '''' \<or> \<not> MatchString (node_ProviderID node)"
  then have "parseProviderID node = ('''', '''')"
    using parseProviderID_empty parseProviderID_no_match by blast
  with assms show "instanceID = ''''" "zone = ''''" by simp_all
next
  fix product localization uuid
  assume "node_ProviderID node = ''scaleway://'' @ product @ ''/'' @ localization @ ''/'' @ uuid \<and>
       CHR ''/'' \<notin> set product \<and> CHR ''/'' \<notin> set localization \<and>
       CHR 0x0A \<notin> set (product @ localization @ uuid)"
  then have "parseProviderID node = (uuid, localization)"
    by (elim conjE) (rule parseProviderID_three)
  with assms show "instanceID = uuid" "zone = localization" by simp_all
next
  fix uuid
  assume "node_ProviderID node = ''scaleway://'' @ uuid \<and> CHR ''/'' \<notin> set uuid \<and>
       CHR 0x0A \<notin> set uuid"
  then have "parseProviderID node = (uuid, '''')"
    by (elim conjE) (rule parseProviderID_one)
  with assms show "instanceID = uuid" "zone = ''''" by simp_all
next
  fix server
  assume "instanceID \<noteq> '''' \<and> InstanceAPI_GetServer env h zone instanceID = Inr server"
  with assms show "getServerFromNode env node h = (Inr server, h @ [GetServer zone instanceID])"
    by (simp add: getServerFromNode_def)
next
  assume f: "instanceID = '''' \<and> h' = h \<or>
     instanceID \<noteq> '''' \<and> (\<exists>err. InstanceAPI_GetServer env h zone instanceID = Inl err) \<and>
     h' = h @ [GetServer zone instanceID]"
  note eq = getServerFromNode_by_name [OF assms f]
  show "snd (getServerFromNode env node h) = h' @ [ListServers zone (node_Name node)]"
    unfolding eq by (rule listServersByName_history)
  show "fst (getServerFromNode env node h) = Inr server \<longleftrightarrow>
          (\<exists>servers. InstanceAPI_ListServers env h' zone (node_Name node) = Inr servers \<and>
             length servers = 1 \<and> server = servers ! 0)" for server
    unfolding eq by (auto simp: listServersByName_def Let_def split: sum.splits if_splits)
  show "fst (getServerFromNode env node h) =
              Inl (Err (''found '' @ fmt_d (length servers) @ '' servers with name ''
                        @ node_Name node @ '' instead of 1''))"
    if "InstanceAPI_ListServers env h' zone (node_Name node) = Inr servers \<and> length servers \<noteq> 1"
    for servers
    unfolding eq using that by (simp add: listServersByName_def)
  show "fst (getServerFromNode env node h) = Inl err"
    if "InstanceAPI_ListServers env h' zone (node_Name node) = Inl err" for err
    unfolding eq using that by (simp add: listServersByName_def)
qed

theorem getServerFromNode_fallback_witness:
  "parseProviderID node1 = ('''', '''') \<and>
   InstanceAPI_ListServers two_servers [] '''' ''node-1'' = Inr [server1, server2] \<and>
   getServerFromNode two_servers node1 [] =
     (Inl (Err ''found 2 servers with name node-1 instead of 1''), [ListServers '''' ''node-1'']) \<and>
   parseProviderID node2 = (''abc'', ''fr-par-1'') \<and>
   InstanceAPI_GetServer one_server [] ''fr-par-1'' ''abc'' = Inl (Err ''unavailable'') \<and>
   InstanceAPI_ListServers one_server [GetServer ''fr-par-1'' ''abc''] ''fr-par-1'' ''node-2''
     = Inr [server1] \<and>
   getServerFromNode one_server node2 [] =
     (Inr server1, [GetServer ''fr-par-1'' ''abc'', ListServers ''fr-par-1'' ''node-2'']) \<and>
   parseProviderID node3 = ('''', ''fr-par-1'') \<and>
   InstanceAPI_ListServers unavailable [] ''fr-par-1'' ''node-3'' = Inl (Err ''unavailable'') \<and>
   getServerFromNode unavailable node3 [] =
     (Inl (Err ''unavailable''), [ListServers ''fr-par-1'' ''node-3''])"
proof -
  have p1: "parseProviderID node1 = ('''', '''')"
    by (simp add: parseProviderID_def node1_def)
  have l2: "InstanceAPI_ListServers two_servers [] '''' ''node-1'' = Inr [server1, server2]"
    by (simp add: two_servers_def)
  have p2: "parseProviderID node2 = (''abc'', ''fr-par-1'')"
    by (simp add: parseProviderID_def node2_def FindStringSubmatch_def SubexpNames_def
        regexpUUID_def regexpLocalization_def regexpProduct_def upt_rec Let_def)
  have g: "InstanceAPI_GetServer one_server [] ''fr-par-1'' ''abc'' = Inl (Err ''unavailable'')"
    by (simp add: one_server_def unavailable_def)
  have l1: "InstanceAPI_ListServers one_server [GetServer ''fr-par-1'' ''abc''] ''fr-par-1''
              ''node-2'' = Inr [server1]"
    by (simp add: one_server_def)
  have p3: "parseProviderID node3 = ('''', ''fr-par-1'')"
    by (simp add: parseProviderID_def node3_def FindStringSubmatch_def SubexpNames_def
        regexpUUID_def regexpLocalization_def regexpProduct_def upt_rec Let_def)
  have l3: "InstanceAPI_ListServers unavailable [] ''fr-par-1'' ''node-3'' = Inl (Err ''unavailable'')"
    by (simp add: unavailable_def)
  note a = getServerFromNode_fallback [OF p1, where env = two_servers and h = "[]" and h' = "[]"]
  note b = getServerFromNode_fallback [OF p2, where env = one_server and h = "[]"
      and h' = "[GetServer ''fr-par-1'' ''abc'']"]
  note c = getServerFromNode_fallback [OF p3, where env = unavailable and h = "[]" and h' = "[]"]
  have r1: "getServerFromNode two_servers node1 [] =
     (Inl (Err ''found 2 servers with name node-1 instead of 1''), [ListServers '''' ''node-1''])"
    using a l2 by (simp add: node1_def fmt_d_2 prod_eq_iff)
  have r2: "getServerFromNode one_server node2 [] =
     (Inr server1, [GetServer ''fr-par-1'' ''abc'', ListServers ''fr-par-1'' ''node-2''])"
    using b g l1 by (simp add: node2_def prod_eq_iff)
  have r3: "getServerFromNode unavailable node3 [] =
     (Inl (Err ''unavailable''), [ListServers ''fr-par-1'' ''node-3''])"
    using c l3 by (simp add: node3_def prod_eq_iff)
  show ?thesis
    using p1 l2 r1 p2 g l1 r2 p3 l3 r3 by simp
qed

section \<open>Synchronization: the NetworkInterface that is created\<close>

lemma digit_not_slash: "d < 10 \<Longrightarrow> CHR ''/'' \<noteq> digit d"
proof -
  assume "d < 10"
  then have "d \<in> {0, 1, 2, 3, 4, 5, 6, 7, 8, 9}" by auto
  then show ?thesis by (auto simp: digit_def)
qed

lemma fmt_d_no_slash: "CHR ''/'' \<notin> set (fmt_d n)"
proof (induction n rule: fmt_d.induct)
  case (1 n)
  show ?case
  proof (cases "n < 10")
    case True
    then show ?thesis
      by (subst fmt_d.simps) (simp add: digit_not_slash)
  next
    case False
    then have "n mod 10 < 10" by simp
    with False 1 show ?thesis
      by (subst fmt_d.simps) (simp add: digit_not_slash)
  qed
qed

lemma strings_Split_no_separator: "c \<notin> set s \<Longrightarrow> strings_Split s c = [s]"
  by (induction s) auto

lemma strings_Split_at_separator:
  "c \<notin> set a \<Longrightarrow> strings_Split (a @ c # b) c = a # strings_Split b c"
  by (induction a) auto

lemma mask_of_IPNet_String:
  assumes "CHR ''/'' \<notin> set (ipnet_IP n)"
  shows "index (strings_Split (IPNet_String n) CHR ''/'') 1 = Some (fmt_d (ipnet_Ones n))"
  using assms
  by (simp add: IPNet_String_def strings_Split_at_separator strings_Split_no_separator
      fmt_d_no_slash index_def)

lemma constructed_contents:
  assumes "constructNetworkInterfaceForPrivateNetwork env pn nodeName = Inr nic"
  shows "om_Finalizers (ni_ObjectMeta nic) = [finalizerName, ipFinalizerName] \<and>
         (\<exists>apiVersion kind. om_OwnerReferences (ni_ObjectMeta nic) =
            [\<lparr>ref_APIVersion = apiVersion, ref_Kind = kind,
              ref_Name = om_Name (pn_ObjectMeta pn), ref_UID = om_UID (pn_ObjectMeta pn),
              ref_Controller = True, ref_BlockOwnerDeletion = True\<rparr>]) \<and>
         om_Annotations (ni_ObjectMeta nic) = om_Annotations (pn_ObjectMeta pn) \<and>
         om_Labels (ni_ObjectMeta nic) =
           (om_Labels (pn_ObjectMeta pn))
             (privateNetworkLabel \<mapsto> om_Name (pn_ObjectMeta pn), nodeLabel \<mapsto> nodeName) \<and>
         om_GenerateName (ni_ObjectMeta nic) = om_Name (pn_ObjectMeta pn) @ ''-'' \<and>
         nis_NodeName (ni_Spec nic) = nodeName \<and>
         nist_MacAddress (ni_Status nic) = ''''"
  using assms
  by (auto simp: constructNetworkInterfaceForPrivateNetwork_def SetControllerReference_def
      AddFinalizer_def Let_def finalizerName_def ipFinalizerName_def
      split: sum.splits prod.splits)

lemma createNetworkInterface_created:
  assumes run: "createNetworkInterface env pn prefix node privateNIC h = (r, h')"
    and ev: "Create_NetworkInterface nic \<in> set (drop (length h) h')"
  shows "\<exists>nic0 ip ipnet mask es.
           constructNetworkInterfaceForPrivateNetwork env pn (node_Name node) = Inr nic0 \<and>
           IPAM_AcquireIP env h (Cidr prefix) = Inr ip \<and>
           Prefix_IPNet env prefix = Inr ipnet \<and>
           index (strings_Split (IPNet_String ipnet) CHR ''/'') 1 = Some mask \<and>
           nic = nic0\<lparr>ni_Spec := (ni_Spec nic0)
                   \<lparr>nis_Address := ip @ ''/'' @ mask, nis_ID := pnic_ID privateNIC\<rparr>\<rparr> \<and>
           h' = h @ [AcquireIP (Cidr prefix), Create_NetworkInterface nic] @ es \<and>
           (case Client_Create_NetworkInterface env (h @ [AcquireIP (Cidr prefix)]) nic of
              Inl err \<Rightarrow> es = [Log_Error err ''could not create networkInterface'']
            | Inr nic2 \<Rightarrow>
                \<exists>es'. es = Status_Update_NetworkInterface
                              (nic2\<lparr>ni_Status := (ni_Status nic2)
                                     \<lparr>nist_MacAddress := pnic_MacAddress privateNIC\<rparr>\<rparr>) # es' \<and>
                      list_all (\<lambda>e. \<not> is_Create_NetworkInterface e \<and>
                                   \<not> is_Status_Update_NetworkInterface e) es')"
  using assms
  by (auto simp: createNetworkInterface_def Let_def split: sum.splits option.splits)

lemma ensurePrivateNIC_quiet:
  "ensurePrivateNIC env pn server h = (x, h') \<Longrightarrow>
   \<exists>es. h' = h @ es \<and>
     list_all (\<lambda>e. \<not> is_Create_NetworkInterface e \<and> \<not> is_Status_Update_NetworkInterface e) es"
  by (auto simp: ensurePrivateNIC_def Let_def split: option.splits sum.splits)

lemma syncNode_created:
  assumes run: "syncNode env pn prefix node h = (r, h')"
    and created: "Create_NetworkInterface nic \<in> set (drop (length h) h')"
    and labels: "labels = [privateNetworkLabel \<mapsto> om_Name (pn_ObjectMeta pn), nodeLabel \<mapsto> node_Name node]"
  shows "Client_List_NetworkInterface env h labels = Inr [] \<and>
    (\<exists>server h2 privateNIC h3.
       getServerFromNode env node (h @ [List_NetworkInterface labels]) = (Inr server, h2) \<and>
       ensurePrivateNIC env pn server h2 = (Inr privateNIC, h3) \<and>
       list_all (\<lambda>e. \<not> is_Create_NetworkInterface e \<and> \<not> is_Status_Update_NetworkInterface e)
         (drop (length h) h3) \<and>
       createNetworkInterface env pn prefix node privateNIC h3 = (r, h') \<and>
       Create_NetworkInterface nic \<in> set (drop (length h3) h'))"
proof -
  let ?h1 = "h @ [List_NetworkInterface labels]"
  have noc: "Create_NetworkInterface nic \<notin> set es"
    if "list_all (\<lambda>e. \<not> is_Create_NetworkInterface e \<and> \<not> is_Status_Update_NetworkInterface e) es"
    for es using that by (auto simp: list_all_iff)
  obtain items where items: "Client_List_NetworkInterface env h labels = Inr items"
    using run created unfolding labels
    by (cases "Client_List_NetworkInterface env h
        [privateNetworkLabel \<mapsto> om_Name (pn_ObjectMeta pn), nodeLabel \<mapsto> node_Name node]")
      (auto simp: syncNode_def Let_def)
  obtain sr h2 where g: "getServerFromNode env node ?h1 = (sr, h2)"
    by (cases "getServerFromNode env node ?h1")
  from getServerFromNode_events [OF g] obtain es2 where
    es2: "h2 = ?h1 @ es2" "list_all resolver_event es2" by blast
  have q2: "list_all (\<lambda>e. \<not> is_Create_NetworkInterface e \<and> \<not> is_Status_Update_NetworkInterface e) es2"
    using es2(2) by (auto simp: list_all_iff resolver_event_def)
  obtain server where sr: "sr = Inr server"
    using run created items g es2(1) noc [OF q2] unfolding labels
    by (cases sr) (auto simp: syncNode_def Let_def)
  obtain x h3 where e: "ensurePrivateNIC env pn server h2 = (x, h3)"
    by (cases "ensurePrivateNIC env pn server h2")
  from ensurePrivateNIC_quiet [OF e] obtain es3 where
    es3: "h3 = h2 @ es3"
      "list_all (\<lambda>e. \<not> is_Create_NetworkInterface e \<and> \<not> is_Status_Update_NetworkInterface e) es3"
    by blast
  obtain privateNIC where x: "x = Inr privateNIC"
    using run created items g sr e es2(1) es3(1) noc [OF q2] noc [OF es3(2)] unfolding labels
    by (cases x) (auto simp: syncNode_def Let_def)
  have zero: "items = []" and cr: "createNetworkInterface env pn prefix node privateNIC h3 = (r, h')"
    using run created items g sr e x es2(1) es3(1) noc [OF q2] noc [OF es3(2)] unfolding labels
    by (auto simp: syncNode_def Let_def split: if_splits)
  from createNetworkInterface_events [OF cr] obtain es4 where es4: "h' = h3 @ es4" by blast
  have in4: "Create_NetworkInterface nic \<in> set (drop (length h3) h')"
    using created es4 es3(1) es2(1) noc [OF q2] noc [OF es3(2)] by auto
  have quiet: "list_all (\<lambda>e. \<not> is_Create_NetworkInterface e \<and> \<not> is_Status_Update_NetworkInterface e)
         (drop (length h) h3)"
    using es2(1) es3 q2 by simp
  show ?thesis
    using items zero g sr e x quiet cr in4 by blast
qed

text \<open>
  Claim C8, as amended. Every NetworkInterface that the synchronizer creates for a pair,
  from the history \<open>h\<close>, is created when the store lists none for the pair, and
  carries: the two finalizers, the generic one first; one owner reference, to the
  network, marked as controller; every annotation of the network; every label of the
  network whose key is not one of the two identifying keys, and under those two keys
  the name of the network and the name of the node; the identifier of the private NIC
  that was found or created for the server of the node; and the acquired address, a
  slash and the mask length of the prefix's network (the text of a network address has
  no slash). Its MAC address is empty when it is created. The creation is the first
  write of an object in the step; when the store answers it with an object, the next
  call is the update of the status of that object with the MAC address of the private
  NIC, and no other creation or status update follows; when the creation fails, only
  its error is logged.
\<close>

theorem created_interface_contents:
  assumes run: "syncNode env pn prefix node h = (r, h')"
    and created: "Create_NetworkInterface nic \<in> set (drop (length h) h')"
    and labels: "labels = [privateNetworkLabel \<mapsto> om_Name (pn_ObjectMeta pn), nodeLabel \<mapsto> node_Name node]"
  shows
    "Client_List_NetworkInterface env h labels = Inr [] \<and>
     om_Finalizers (ni_ObjectMeta nic) = [finalizerName, ipFinalizerName] \<and>
     (\<exists>apiVersion kind. om_OwnerReferences (ni_ObjectMeta nic) =
        [\<lparr>ref_APIVersion = apiVersion, ref_Kind = kind,
          ref_Name = om_Name (pn_ObjectMeta pn), ref_UID = om_UID (pn_ObjectMeta pn),
          ref_Controller = True, ref_BlockOwnerDeletion = True\<rparr>]) \<and>
     (\<forall>k v. om_Annotations (pn_ObjectMeta pn) k = Some v \<longrightarrow>
            om_Annotations (ni_ObjectMeta nic) k = Some v) \<and>
     (\<forall>k v. om_Labels (pn_ObjectMeta pn) k = Some v \<and> k \<noteq> privateNetworkLabel \<and> k \<noteq> nodeLabel \<longrightarrow>
            om_Labels (ni_ObjectMeta nic) k = Some v) \<and>
     om_Labels (ni_ObjectMeta nic) privateNetworkLabel = Some (om_Name (pn_ObjectMeta pn)) \<and>
     om_Labels (ni_ObjectMeta nic) nodeLabel = Some (node_Name node) \<and>
     (\<exists>server h2 privateNIC h3 ip ipnet es.
        getServerFromNode env node (h @ [List_NetworkInterface labels]) = (Inr server, h2) \<and>
        ensurePrivateNIC env pn server h2 = (Inr privateNIC, h3) \<and>
        nis_ID (ni_Spec nic) = pnic_ID privateNIC \<and>
        IPAM_AcquireIP env h3 (Cidr prefix) = Inr ip \<and>
        Prefix_IPNet env prefix = Inr ipnet \<and>
        (CHR ''/'' \<notin> set (ipnet_IP ipnet) \<longrightarrow>
           nis_Address (ni_Spec nic) = ip @ ''/'' @ fmt_d (ipnet_Ones ipnet)) \<and>
        nist_MacAddress (ni_Status nic) = '''' \<and>
        list_all (\<lambda>e. \<not> is_Create_NetworkInterface e \<and> \<not> is_Status_Update_NetworkInterface e)
          (drop (length h) h3) \<and>
        h' = h3 @ [AcquireIP (Cidr prefix), Create_NetworkInterface nic] @ es \<and>
        (case Client_Create_NetworkInterface env (h3 @ [AcquireIP (Cidr prefix)]) nic of
           Inl err \<Rightarrow> es = [Log_Error err ''could not create networkInterface'']
         | Inr nic2 \<Rightarrow>
             \<exists>es'. es = Status_Update_NetworkInterface
                           (nic2\<lparr>ni_Status := (ni_Status nic2)
                                  \<lparr>nist_MacAddress := pnic_MacAddress privateNIC\<rparr>\<rparr>) # es' \<and>
                   list_all (\<lambda>e. \<not> is_Create_NetworkInterface e \<and>
                                \<not> is_Status_Update_NetworkInterface e) es'))"
proof -
  from syncNode_created [OF run created labels]
  obtain server h2 privateNIC h3 where
    zero: "Client_List_NetworkInterface env h labels = Inr []"
    and g: "getServerFromNode env node (h @ [List_NetworkInterface labels]) = (Inr server, h2)"
    and e: "ensurePrivateNIC env pn server h2 = (Inr privateNIC, h3)"
    and quiet: "list_all (\<lambda>e. \<not> is_Create_NetworkInterface e \<and> \<not> is_Status_Update_NetworkInterface e)
         (drop (length h) h3)"
    and cr: "createNetworkInterface env pn prefix node privateNIC h3 = (r, h')"
    and in4: "Create_NetworkInterface nic \<in> set (drop (length h3) h')"
    by blast
  from createNetworkInterface_created [OF cr in4]
  obtain nic0 ip ipnet mask es where
    c0: "constructNetworkInterfaceForPrivateNetwork env pn (node_Name node) = Inr nic0"
    and ip: "IPAM_AcquireIP env h3 (Cidr prefix) = Inr ip"
    and ipnet: "Prefix_IPNet env prefix = Inr ipnet"
    and mask: "index (strings_Split (IPNet_String ipnet) CHR ''/'') 1 = Some mask"
    and nic: "nic = nic0\<lparr>ni_Spec := (ni_Spec nic0)
                   \<lparr>nis_Address := ip @ ''/'' @ mask, nis_ID := pnic_ID privateNIC\<rparr>\<rparr>"
    and h': "h' = h3 @ [AcquireIP (Cidr prefix), Create_NetworkInterface nic] @ es"
    and after: "case Client_Create_NetworkInterface env (h3 @ [AcquireIP (Cidr prefix)]) nic of
              Inl err \<Rightarrow> es = [Log_Error err ''could not create networkInterface'']
            | Inr nic2 \<Rightarrow>
                \<exists>es'. es = Status_Update_NetworkInterface
                              (nic2\<lparr>ni_Status := (ni_Status nic2)
                                     \<lparr>nist_MacAddress := pnic_MacAddress privateNIC\<rparr>\<rparr>) # es' \<and>
                      list_all (\<lambda>e. \<not> is_Create_NetworkInterface e \<and>
                                   \<not> is_Status_Update_NetworkInterface e) es'"
    by blast
  note c = constructed_contents [OF c0]
  have 2: "om_Finalizers (ni_ObjectMeta nic) = [finalizerName, ipFinalizerName]"
    using c nic by simp
  have 3: "\<exists>apiVersion kind. om_OwnerReferences (ni_ObjectMeta nic) =
        [\<lparr>ref_APIVersion = apiVersion, ref_Kind = kind,
          ref_Name = om_Name (pn_ObjectMeta pn), ref_UID = om_UID (pn_ObjectMeta pn),
          ref_Controller = True, ref_BlockOwnerDeletion = True\<rparr>]"
    using c nic by simp
  have 4: "\<forall>k v. om_Annotations (pn_ObjectMeta pn) k = Some v \<longrightarrow>
            om_Annotations (ni_ObjectMeta nic) k = Some v"
    using c nic by simp
  have 5: "\<forall>k v. om_Labels (pn_ObjectMeta pn) k = Some v \<and> k \<noteq> privateNetworkLabel \<and> k \<noteq> nodeLabel \<longrightarrow>
            om_Labels (ni_ObjectMeta nic) k = Some v"
    using c nic by simp
  have 6: "om_Labels (ni_ObjectMeta nic) privateNetworkLabel = Some (om_Name (pn_ObjectMeta pn))"
    using c nic by (simp add: privateNetworkLabel_def nodeLabel_def)
  have 7: "om_Labels (ni_ObjectMeta nic) nodeLabel = Some (node_Name node)"
    using c nic by simp
  have 8: "nis_ID (ni_Spec nic) = pnic_ID privateNIC" "nist_MacAddress (ni_Status nic) = ''''"
    using c nic by simp_all
  have 9: "CHR ''/'' \<notin> set (ipnet_IP ipnet) \<longrightarrow>
           nis_Address (ni_Spec nic) = ip @ ''/'' @ fmt_d (ipnet_Ones ipnet)"
    using mask nic mask_of_IPNet_String [of ipnet] by auto
  have 10: "\<exists>server h2 privateNIC h3 ip ipnet es.
        getServerFromNode env node (h @ [List_NetworkInterface labels]) = (Inr server, h2) \<and>
        ensurePrivateNIC env pn server h2 = (Inr privateNIC, h3) \<and>
        nis_ID (ni_Spec nic) = pnic_ID privateNIC \<and>
        IPAM_AcquireIP env h3 (Cidr prefix) = Inr ip \<and>
        Prefix_IPNet env prefix = Inr ipnet \<and>
        (CHR ''/'' \<notin> set (ipnet_IP ipnet) \<longrightarrow>
           nis_Address (ni_Spec nic) = ip @ ''/'' @ fmt_d (ipnet_Ones ipnet)) \<and>
        nist_MacAddress (ni_Status nic) = '''' \<and>
        list_all (\<lambda>e. \<not> is_Create_NetworkInterface e \<and> \<not> is_Status_Update_NetworkInterface e)
          (drop (length h) h3) \<and>
        h' = h3 @ [AcquireIP (Cidr prefix), Create_NetworkInterface nic] @ es \<and>
        (case Client_Create_NetworkInterface env (h3 @ [AcquireIP (Cidr prefix)]) nic of
           Inl err \<Rightarrow> es = [Log_Error err ''could not create networkInterface'']
         | Inr nic2 \<Rightarrow>
             \<exists>es'. es = Status_Update_NetworkInterface
                           (nic2\<lparr>ni_Status := (ni_Status nic2)
                                  \<lparr>nist_MacAddress := pnic_MacAddress privateNIC\<rparr>\<rparr>) # es' \<and>
                   list_all (\<lambda>e. \<not> is_Create_NetworkInterface e \<and>
                                \<not> is_Status_Update_NetworkInterface e) es')"
    using g e 8 ip ipnet 9 quiet h' after by blast
  show ?thesis
    using zero 2 3 4 5 6 7 10 by blast
qed

text \<open>
  The claim as it was stated fails on a network that has a label of its own under an
  identifying key: \<open>pn_a_labelled\<close> has the label \<open>node\<close> with the value \<open>other\<close>, and
  the NetworkInterface created for it on \<open>node-1\<close> has the label \<open>node\<close> with the value
  \<open>node-1\<close>.
\<close>

theorem created_interface_labels_counterexample:
  "om_Labels (pn_ObjectMeta pn_a_labelled) ''node'' = Some ''other'' \<and>
   map (\<lambda>nic. om_Labels (ni_ObjectMeta nic) ''node'')
     (created_interfaces (snd (Reconcile (remembering pn_a_labelled) ''pn-a'' [])))
     = [Some ''node-1'']"
  by (simp add: pn_a_labelled_def remembering_defs example_defs const_defs block_defs)

theorem created_interface_contents_witness:
  "syncNode (remembering pn_a) pn_a \<lparr>Cidr = ''10.0.0.0/24''\<rparr> node1
     [Get_PrivateNetwork ''pn-a'', NewPrefix ''10.0.0.0/24'', GetPrivateNetwork ''fr-par-1'' ''net-a'',
      List_Node] = (Next, first_pass) \<and>
   Create_NetworkInterface created1 \<in> set (drop 4 first_pass) \<and>
   Client_List_NetworkInterface (remembering pn_a)
     [Get_PrivateNetwork ''pn-a'', NewPrefix ''10.0.0.0/24'', GetPrivateNetwork ''fr-par-1'' ''net-a'',
      List_Node]
     [privateNetworkLabel \<mapsto> ''pn-a'', nodeLabel \<mapsto> ''node-1''] = Inr [] \<and>
   om_Finalizers (ni_ObjectMeta created1) = [''scaleway.com/finalizer'', ''scaleway.com/finalizer-ip''] \<and>
   om_Labels (ni_ObjectMeta created1) ''private-network'' = Some ''pn-a'' \<and>
   om_Labels (ni_ObjectMeta created1) ''node'' = Some ''node-1'' \<and>
   nis_Address (ni_Spec created1) = ''10.0.0.2/24'' \<and>
   nis_ID (ni_Spec created1) = ''nic-1''"
proof -
  let ?e = "remembering pn_a"
  let ?h = "[Get_PrivateNetwork ''pn-a'', NewPrefix ''10.0.0.0/24'',
      GetPrivateNetwork ''fr-par-1'' ''net-a'', List_Node]"
  have vals: "om_Name (pn_ObjectMeta pn_a) = ''pn-a''" "node_Name node1 = ''node-1''"
    by (simp_all add: example_defs)
  have run: "syncNode ?e pn_a \<lparr>Cidr = ''10.0.0.0/24''\<rparr> node1 ?h = (Next, first_pass)"
    by (simp add: remembering_defs example_defs const_defs block_defs)
  have created: "Create_NetworkInterface created1 \<in> set (drop (length ?h) first_pass)"
    by (simp add: first_pass_def)
  from created_interface_contents [OF run created refl]
  have "Client_List_NetworkInterface ?e ?h
      [privateNetworkLabel \<mapsto> om_Name (pn_ObjectMeta pn_a), nodeLabel \<mapsto> node_Name node1] = Inr [] \<and>
     om_Finalizers (ni_ObjectMeta created1) = [finalizerName, ipFinalizerName] \<and>
     om_Labels (ni_ObjectMeta created1) privateNetworkLabel = Some (om_Name (pn_ObjectMeta pn_a)) \<and>
     om_Labels (ni_ObjectMeta created1) nodeLabel = Some (node_Name node1)"
    by blast
  moreover have "nis_Address (ni_Spec created1) = ''10.0.0.2/24''"
    and "nis_ID (ni_Spec created1) = ''nic-1''"
    by (simp_all add: created1_def)
  moreover have "Create_NetworkInterface created1 \<in> set (drop 4 first_pass)"
    by (simp add: first_pass_def)
  ultimately show ?thesis
    using run by (simp add: vals const_defs)
qed

section \<open>Deletion: a child whose node is gone\<close>

lemma node_not_found_step:
  assumes marked: "\<not> IsZero (om_DeletionTimestamp (ni_ObjectMeta nic))"
    and nofin: "\<not> ContainsFinalizer (ni_ObjectMeta nic) finalizerName"
    and released: "IPAM_ReleaseIPFromPrefix env h (pns_CIDR (pn_Spec pn))
               (strings_Split (nis_Address (ni_Spec nic)) CHR ''/'' ! 0) = None \<or>
             (\<exists>e. IPAM_ReleaseIPFromPrefix env h (pns_CIDR (pn_Spec pn))
               (strings_Split (nis_Address (ni_Spec nic)) CHR ''/'' ! 0) = Some e \<and>
               As_NotFoundError e)"
    and gone: "Client_Get_Node env
             (h @ [ReleaseIPFromPrefix (pns_CIDR (pn_Spec pn))
                     (strings_Split (nis_Address (ni_Spec nic)) CHR ''/'' ! 0)])
             (nis_NodeName (ni_Spec nic)) = Inl err"
    and nf: "IsNotFound err"
  shows "deleteNetworkInterface env pn nic h =
           removeIPFinalizer env nic
             (h @ [ReleaseIPFromPrefix (pns_CIDR (pn_Spec pn))
                     (strings_Split (nis_Address (ni_Spec nic)) CHR ''/'' ! 0),
                   Get_Node (nis_NodeName (ni_Spec nic))])"
  using assms
  by (auto simp: deleteNetworkInterface_def releaseNetworkInterface_def Let_def)

text \<open>
  Claim C9. The pass is on a network that is marked for deletion and carries the
  generic finalizer; it has reached, with the history \<open>h\<close>, a child that is marked for
  deletion and has no generic finalizer; the release of the child's address has not
  failed (the pool answered success or not found); and the store answers the read of the
  child's node with a not-found error. Then the step on the child is: the release, the
  read of the node, and at once the update of the child without its address finalizer;
  when that update succeeds the loop goes on, and when it fails its error is logged and
  returned. No server is looked up or listed and no private NIC is deleted in the step,
  and the three calls are in the history of the pass.
\<close>

theorem missing_node_skips_cloud_cleanup:
  assumes get: "Client_Get_PrivateNetwork env h0 req = Inr pn"
    and prefix: "IPAM_NewPrefix env (h0 @ [Get_PrivateNetwork req]) (pns_CIDR (pn_Spec pn)) = Inr prefix"
    and deleting: "\<not> IsZero (om_DeletionTimestamp (pn_ObjectMeta pn))"
    and fin: "ContainsFinalizer (pn_ObjectMeta pn) finalizerName"
    and list: "Client_List_NetworkInterface env
        (h0 @ [Get_PrivateNetwork req, NewPrefix (pns_CIDR (pn_Spec pn))])
        [privateNetworkLabel \<mapsto> om_Name (pn_ObjectMeta pn)] = Inr (before @ nic # after)"
    and reach: "deleteNetworkInterfaces env pn before
        (h0 @ [Get_PrivateNetwork req, NewPrefix (pns_CIDR (pn_Spec pn)),
               List_NetworkInterface [privateNetworkLabel \<mapsto> om_Name (pn_ObjectMeta pn)]])
        = (Next, h)"
    and marked: "\<not> IsZero (om_DeletionTimestamp (ni_ObjectMeta nic))"
    and nofin: "\<not> ContainsFinalizer (ni_ObjectMeta nic) finalizerName"
    and released: "IPAM_ReleaseIPFromPrefix env h (pns_CIDR (pn_Spec pn))
               (strings_Split (nis_Address (ni_Spec nic)) CHR ''/'' ! 0) = None \<or>
             (\<exists>e. IPAM_ReleaseIPFromPrefix env h (pns_CIDR (pn_Spec pn))
               (strings_Split (nis_Address (ni_Spec nic)) CHR ''/'' ! 0) = Some e \<and>
               As_NotFoundError e)"
    and gone: "Client_Get_Node env
             (h @ [ReleaseIPFromPrefix (pns_CIDR (pn_Spec pn))
                     (strings_Split (nis_Address (ni_Spec nic)) CHR ''/'' ! 0)])
             (nis_NodeName (ni_Spec nic)) = Inl err"
    and nf: "IsNotFound err"
    and nic': "nic' = nic\<lparr>ni_ObjectMeta := RemoveFinalizer (ni_ObjectMeta nic) ipFinalizerName\<rparr>"
    and calls: "calls = [ReleaseIPFromPrefix (pns_CIDR (pn_Spec pn))
                           (strings_Split (nis_Address (ni_Spec nic)) CHR ''/'' ! 0),
                         Get_Node (nis_NodeName (ni_Spec nic)),
                         Update_NetworkInterface nic']"
  shows "deleteNetworkInterface env pn nic h =
           (case Client_Update_NetworkInterface env (h @ butlast calls) nic' of
              None \<Rightarrow> (Next, h @ calls)
            | Some e \<Rightarrow>
                (Exit (Return Result_empty (Some e)),
                 h @ calls @ [Log_Error e (''failed to delete networkInterface '' @
                                           om_Name (ni_ObjectMeta nic'))])) \<and>
         ipFinalizerName \<notin> set (om_Finalizers (ni_ObjectMeta nic')) \<and>
         list_all (\<lambda>e. \<not> is_GetServer e \<and> \<not> is_ListServers e \<and> \<not> is_DeletePrivateNIC e)
           (drop (length h) (snd (deleteNetworkInterface env pn nic h))) \<and>
         (\<exists>es. snd (Reconcile env req h0) = h @ calls @ es)"
proof -
  let ?h2 = "h @ [ReleaseIPFromPrefix (pns_CIDR (pn_Spec pn))
                     (strings_Split (nis_Address (ni_Spec nic)) CHR ''/'' ! 0),
                   Get_Node (nis_NodeName (ni_Spec nic))]"
  have step: "deleteNetworkInterface env pn nic h = removeIPFinalizer env nic ?h2"
    using marked nofin released gone nf by (rule node_not_found_step)
  have 1: "deleteNetworkInterface env pn nic h =
           (case Client_Update_NetworkInterface env (h @ butlast calls) nic' of
              None \<Rightarrow> (Next, h @ calls)
            | Some e \<Rightarrow>
                (Exit (Return Result_empty (Some e)),
                 h @ calls @ [Log_Error e (''failed to delete networkInterface '' @
                                           om_Name (ni_ObjectMeta nic'))]))"
    unfolding step by (simp add: removeIPFinalizer_def Let_def nic' calls split: option.splits)
  have 2: "ipFinalizerName \<notin> set (om_Finalizers (ni_ObjectMeta nic'))"
    by (simp add: nic' RemoveFinalizer_def)
  have 3: "list_all (\<lambda>e. \<not> is_GetServer e \<and> \<not> is_ListServers e \<and> \<not> is_DeletePrivateNIC e)
           (drop (length h) (snd (deleteNetworkInterface env pn nic h)))"
    unfolding 1 by (simp add: calls split: option.splits)
  obtain r1 h1 where s: "deleteNetworkInterface env pn nic h = (r1, h1)"
    by (cases "deleteNetworkInterface env pn nic h")
  with 1 obtain es1 where h1: "h1 = h @ calls @ es1"
    by (auto split: option.splits)
  from deleteNetworkInterfaces_history [OF s, of after]
  obtain es2 where "snd (deleteNetworkInterfaces env pn (nic # after) h) = h1 @ es2"
    by blast
  moreover have "snd (Reconcile env req h0) = snd (deleteNetworkInterfaces env pn (nic # after) h)"
    using Reconcile_reaches_child [OF get prefix deleting fin list reach]
    by (simp split: prod.splits flow.splits)
  ultimately have "snd (Reconcile env req h0) = h @ calls @ (es1 @ es2)"
    using h1 by simp
  then have 4: "\<exists>es. snd (Reconcile env req h0) = h @ calls @ es"
    by blast
  show ?thesis
    using 1 2 3 4 by blast
qed

theorem missing_node_skips_cloud_cleanup_witness:
  "Client_Get_Node child_released_node_gone
     [Get_PrivateNetwork ''pn-a'', NewPrefix ''10.0.0.0/24'',
      List_NetworkInterface [privateNetworkLabel \<mapsto> ''pn-a''],
      ReleaseIPFromPrefix ''10.0.0.0/24'' ''10.0.0.2'']
     ''node-1'' = Inl (ApiNotFound ''nodes node-1 not found'') \<and>
   IsNotFound (ApiNotFound ''nodes node-1 not found'') \<and>
   om_Finalizers (ni_ObjectMeta child1_released) = [''scaleway.com/finalizer-ip''] \<and>
   Reconcile child_released_node_gone ''pn-a'' [] =
     (Return \<lparr>Requeue = False, RequeueAfter = 30000000000\<rparr> None,
      [Get_PrivateNetwork ''pn-a'', NewPrefix ''10.0.0.0/24'',
       List_NetworkInterface [privateNetworkLabel \<mapsto> ''pn-a''],
       ReleaseIPFromPrefix ''10.0.0.0/24'' ''10.0.0.2'', Get_Node ''node-1'',
       Update_NetworkInterface
         (child1_released\<lparr>ni_ObjectMeta := (ni_ObjectMeta child1_released)\<lparr>om_Finalizers := []\<rparr>\<rparr>)])"
proof -
  let ?e = child_released_node_gone
  let ?h3 = "[Get_PrivateNetwork ''pn-a'', NewPrefix ''10.0.0.0/24'',
      List_NetworkInterface [privateNetworkLabel \<mapsto> ''pn-a'']]"
  let ?nic' = "child1_released\<lparr>ni_ObjectMeta :=
      RemoveFinalizer (ni_ObjectMeta child1_released) ipFinalizerName\<rparr>"
  have cidr: "pns_CIDR (pn_Spec pn_a_deleting) = ''10.0.0.0/24''"
    and name: "om_Name (pn_ObjectMeta pn_a_deleting) = ''pn-a''"
    and ip: "strings_Split (nis_Address (ni_Spec child1_released)) CHR ''/'' ! 0 = ''10.0.0.2''"
    and node: "nis_NodeName (ni_Spec child1_released) = ''node-1''"
    and fins: "om_Finalizers (ni_ObjectMeta child1_released) = [''scaleway.com/finalizer-ip'']"
    by (simp_all add: example_defs)
  have nic': "?nic' =
      child1_released\<lparr>ni_ObjectMeta := (ni_ObjectMeta child1_released)\<lparr>om_Finalizers := []\<rparr>\<rparr>"
    by (simp add: RemoveFinalizer_def fins ipFinalizerName_def)
  have deleting: "\<not> IsZero (om_DeletionTimestamp (pn_ObjectMeta pn_a_deleting))"
    by (simp add: example_defs IsZero_def)
  have fin: "ContainsFinalizer (pn_ObjectMeta pn_a_deleting) finalizerName"
    by (simp add: example_defs ContainsFinalizer_def finalizerName_def)
  have get: "Client_Get_PrivateNetwork ?e [] ''pn-a'' = Inr pn_a_deleting"
    by (simp add: child_released_node_gone_def)
  have prefix: "IPAM_NewPrefix ?e ([] @ [Get_PrivateNetwork ''pn-a''])
      (pns_CIDR (pn_Spec pn_a_deleting)) = Inr \<lparr>Cidr = ''10.0.0.0/24''\<rparr>"
    by (simp add: child_released_node_gone_def cidr)
  have list: "Client_List_NetworkInterface ?e
     ([] @ [Get_PrivateNetwork ''pn-a'', NewPrefix (pns_CIDR (pn_Spec pn_a_deleting))])
     [privateNetworkLabel \<mapsto> om_Name (pn_ObjectMeta pn_a_deleting)] = Inr ([] @ child1_released # [])"
    by (simp add: child_released_node_gone_def)
  have reach: "deleteNetworkInterfaces ?e pn_a_deleting []
      ([] @ [Get_PrivateNetwork ''pn-a'', NewPrefix (pns_CIDR (pn_Spec pn_a_deleting)),
             List_NetworkInterface [privateNetworkLabel \<mapsto> om_Name (pn_ObjectMeta pn_a_deleting)]])
      = (Next, ?h3)"
    by (simp add: cidr name)
  have marked: "\<not> IsZero (om_DeletionTimestamp (ni_ObjectMeta child1_released))"
    by (simp add: example_defs IsZero_def)
  have nofin: "\<not> ContainsFinalizer (ni_ObjectMeta child1_released) finalizerName"
    by (simp add: example_defs ContainsFinalizer_def finalizerName_def)
  have released: "IPAM_ReleaseIPFromPrefix ?e ?h3 (pns_CIDR (pn_Spec pn_a_deleting))
               (strings_Split (nis_Address (ni_Spec child1_released)) CHR ''/'' ! 0) = None \<or>
             (\<exists>e. IPAM_ReleaseIPFromPrefix ?e ?h3 (pns_CIDR (pn_Spec pn_a_deleting))
               (strings_Split (nis_Address (ni_Spec child1_released)) CHR ''/'' ! 0) = Some e \<and>
               As_NotFoundError e)"
    by (simp add: child_released_node_gone_def As_NotFoundError_def)
  have gone: "Client_Get_Node ?e
             (?h3 @ [ReleaseIPFromPrefix (pns_CIDR (pn_Spec pn_a_deleting))
                     (strings_Split (nis_Address (ni_Spec child1_released)) CHR ''/'' ! 0)])
             (nis_NodeName (ni_Spec child1_released)) = Inl (ApiNotFound ''nodes node-1 not found'')"
    by (simp add: child_released_node_gone_def)
  have nf: "IsNotFound (ApiNotFound ''nodes node-1 not found'')"
    by (simp add: IsNotFound_def)
  from missing_node_skips_cloud_cleanup [OF get prefix deleting fin list reach marked nofin
      released gone nf refl refl]
  have "\<exists>es. snd (Reconcile ?e ''pn-a'' []) =
      ?h3 @ [ReleaseIPFromPrefix ''10.0.0.0/24'' ''10.0.0.2'', Get_Node ''node-1'',
             Update_NetworkInterface ?nic'] @ es"
    by (simp add: cidr ip node)
  then have "take 6 (snd (Reconcile ?e ''pn-a'' [])) =
      ?h3 @ [ReleaseIPFromPrefix ''10.0.0.0/24'' ''10.0.0.2'', Get_Node ''node-1'',
             Update_NetworkInterface ?nic']"
    by auto
  moreover have "length (snd (Reconcile ?e ''pn-a'' [])) = 6"
    and "fst (Reconcile ?e ''pn-a'' []) = Return \<lparr>Requeue = False, RequeueAfter = 30000000000\<rparr> None"
    by (simp_all add: child_released_node_gone_def example_defs const_defs block_defs)
  ultimately have "Reconcile ?e ''pn-a'' [] =
     (Return \<lparr>Requeue = False, RequeueAfter = 30000000000\<rparr> None,
      ?h3 @ [ReleaseIPFromPrefix ''10.0.0.0/24'' ''10.0.0.2'', Get_Node ''node-1'',
             Update_NetworkInterface ?nic'])"
    by (simp add: prod_eq_iff)
  then show ?thesis
    using gone nf fins nic' by (simp add: cidr ip node)
qed

section \<open>The copy functions copy deeply\<close>

subsection \<open>Heaps\<close>

lemma load_Some_iff: "load h a = Some c \<longleftrightarrow> a < length h \<and> h ! a = c"
  by (auto simp: load_def)

lemma load_extended:
  assumes "take (length h) h' = h" "a < length h"
  shows "load h' a = load h a"
proof -
  from assms(1) obtain t where "h' = h @ t"
    by (metis append_take_drop_id)
  with assms(2) show ?thesis by (simp add: load_def nth_append)
qed

lemma extended_length: "take (length h) h' = h \<Longrightarrow> length h \<le> length h'"
proof -
  assume "take (length h) h' = h"
  then obtain t where "h' = h @ t" by (metis append_take_drop_id)
  then show ?thesis by simp
qed

lemma extended_trans:
  assumes "take (length h) h' = h" "take (length h') h'' = h'"
  shows "take (length h) h'' = h"
proof -
  from assms(1) obtain t where t: "h' = h @ t" by (metis append_take_drop_id)
  from assms(2) obtain u where u: "h'' = h' @ u" by (metis append_take_drop_id)
  show ?thesis by (simp add: t u)
qed

lemma extended_store:
  "take (length h) h' = h \<Longrightarrow> length h \<le> a \<Longrightarrow> take (length h) (store a c h') = h"
  by (simp add: store_def)

lemma load_store_same: "a < length h \<Longrightarrow> load (store a c h) a = Some c"
  by (simp add: load_def store_def)

lemma load_store_other: "a \<noteq> b \<Longrightarrow> load (store a c h) b = load h b"
  by (simp add: load_def store_def)

lemma length_store [simp]: "length (store a c h) = length h"
  by (simp add: store_def)

lemma new_eq: "new z h = (length h, h @ [z])"
  by (simp add: new_def)

lemma framed_in_heap:
  "framed contents cells \<Longrightarrow> contents h v \<noteq> None \<Longrightarrow> a \<in> set (cells h v) \<Longrightarrow> a < length h"
proof -
  assume "framed contents cells"
  then have "\<forall>h v. contents h v \<noteq> None \<longrightarrow> (\<forall>a\<in>set (cells h v). a < length h)"
    unfolding framed_def by (rule conjunct1)
  then have "contents h v \<noteq> None \<longrightarrow> (\<forall>a\<in>set (cells h v). a < length h)"
    by blast
  moreover assume "contents h v \<noteq> None" "a \<in> set (cells h v)"
  ultimately show ?thesis by simp
qed

lemma framed_same:
  "framed contents cells \<Longrightarrow> contents h v \<noteq> None \<Longrightarrow>
   (\<And>a. a \<in> set (cells h v) \<Longrightarrow> load h' a = load h a) \<Longrightarrow>
   contents h' v = contents h v \<and> cells h' v = cells h v"
proof -
  assume f: "framed contents cells" and c: "contents h v \<noteq> None"
    and l: "\<And>a. a \<in> set (cells h v) \<Longrightarrow> load h' a = load h a"
  from f have "\<forall>h h' v. contents h v \<noteq> None \<and> (\<forall>a\<in>set (cells h v). load h' a = load h a) \<longrightarrow>
         contents h' v = contents h v \<and> cells h' v = cells h v"
    unfolding framed_def by (rule conjunct2)
  then have "contents h v \<noteq> None \<and> (\<forall>a\<in>set (cells h v). load h' a = load h a) \<longrightarrow>
         contents h' v = contents h v \<and> cells h' v = cells h v"
    by blast
  with c l show ?thesis by simp
qed

lemma framed_extended:
  assumes "framed contents cells" "contents h v \<noteq> None" "take (length h) h' = h"
  shows "contents h' v = contents h v \<and> cells h' v = cells h v"
  using assms(1,2)
proof (rule framed_same)
  fix a assume "a \<in> set (cells h v)"
  then have "a < length h" using assms(1,2) by (rule framed_in_heap [rotated 2])
  with assms(3) show "load h' a = load h a" by (rule load_extended)
qed

lemma framed_store:
  assumes "framed contents cells" "contents h v \<noteq> None" "b \<notin> set (cells h v)"
  shows "contents (store b c h) v = contents h v \<and> cells (store b c h) v = cells h v"
  using assms(1,2)
proof (rule framed_same)
  fix a assume "a \<in> set (cells h v)"
  with assms(3) have "b \<noteq> a" by auto
  then show "load (store b c h) a = load h a" by (rule load_store_other)
qed

lemma framed_plain: "framed contents_plain cells_plain"
  by (simp add: framed_def contents_plain_def cells_plain_def)

lemma copies_intoD:
  assumes "copies_into into contents cells" "contents h v \<noteq> None"
  shows "\<exists>v' h'. into v h = Some (v', h') \<and> take (length h) h' = h \<and>
           contents h' v' = contents h v \<and>
           (\<forall>a\<in>set (cells h' v'). length h \<le> a \<and> a < length h')"
proof -
  from assms(1) have "\<forall>h v. contents h v \<noteq> None \<longrightarrow>
        (\<exists>v' h'. into v h = Some (v', h') \<and> take (length h) h' = h \<and>
           contents h' v' = contents h v \<and>
           (\<forall>a\<in>set (cells h' v'). length h \<le> a \<and> a < length h'))"
    unfolding copies_into_def .
  then have "contents h v \<noteq> None \<longrightarrow>
        (\<exists>v' h'. into v h = Some (v', h') \<and> take (length h) h' = h \<and>
           contents h' v' = contents h v \<and>
           (\<forall>a\<in>set (cells h' v'). length h \<le> a \<and> a < length h'))"
    by blast
  with assms(2) show ?thesis by (rule rev_mp)
qed

text \<open>The generic step from \<open>copies_into\<close> to \<open>deep_copies\<close>.\<close>

lemma DeepCopy_deep_copies:
  assumes fr: "framed contents cells"
    and into: "copies_into into contents cells"
    and get: "\<And>v. get (cell v) = Some v"
  shows "deep_copies (DeepCopy get cell zero into) cell contents cells"
  unfolding deep_copies_def
proof (intro conjI allI impI)
  fix h
  show "DeepCopy get cell zero into None h = Some (None, h)"
    by (simp add: DeepCopy_def)
next
  fix h p v
  assume a: "load h p = Some (cell v) \<and> contents h v \<noteq> None"
  let ?out = "length h"
  let ?h1 = "h @ [cell zero]"
  have ext1: "take (length h) ?h1 = h" by simp
  from a have p: "p < length h" by (simp add: load_Some_iff)
  have l1: "load ?h1 p = Some (cell v)"
    using load_extended [OF ext1 p] a by simp
  have c1: "contents ?h1 v = contents h v"
    using framed_extended [OF fr _ ext1] a by blast
  with a have "contents ?h1 v \<noteq> None" by simp
  with into have "\<exists>v' h'. into v ?h1 = Some (v', h') \<and> take (length ?h1) h' = ?h1 \<and>
           contents h' v' = contents ?h1 v \<and>
           (\<forall>a\<in>set (cells h' v'). length ?h1 \<le> a \<and> a < length h')"
    by (rule copies_intoD)
  then obtain v' h2 where i: "into v ?h1 = Some (v', h2)"
    and ext2: "take (length ?h1) h2 = ?h1"
    and c2: "contents h2 v' = contents ?h1 v"
    and fresh: "\<forall>a\<in>set (cells h2 v'). length ?h1 \<le> a \<and> a < length h2"
    by blast
  let ?h3 = "store ?out (cell v') h2"
  have len2: "length ?h1 \<le> length h2" using ext2 by (rule extended_length)
  have out_not: "?out \<notin> set (cells h2 v')"
  proof
    assume "?out \<in> set (cells h2 v')"
    with fresh have "length ?h1 \<le> ?out" by blast
    then show False by simp
  qed
  have c2def: "contents h2 v' \<noteq> None" using c2 c1 a by simp
  note st = framed_store [OF fr c2def out_not, of "cell v'"]
  have r: "DeepCopy get cell zero into (Some p) h = Some (Some ?out, ?h3)"
    using l1 i get by (simp add: DeepCopy_def new_eq)
  have e3: "take (length h) ?h3 = h"
  proof (rule extended_store)
    show "take (length h) h2 = h" using ext1 ext2 by (rule extended_trans)
  qed simp
  have l3: "load ?h3 ?out = Some (cell v')"
  proof (rule load_store_same)
    show "length h < length h2" using len2 by simp
  qed
  have c3: "contents ?h3 v' = contents h v"
    using st c2 c1 by simp
  have f3: "\<forall>a\<in>set (cells ?h3 v'). length h \<le> a"
  proof
    fix a assume "a \<in> set (cells ?h3 v')"
    then have "a \<in> set (cells h2 v')" using st by simp
    with fresh have "length ?h1 \<le> a" by blast
    then show "length h \<le> a" by simp
  qed
  show "\<exists>q h' v'. DeepCopy get cell zero into (Some p) h = Some (Some q, h') \<and>
            length h \<le> q \<and> take (length h) h' = h \<and>
            load h' q = Some (cell v') \<and>
            contents h' v' = contents h v \<and>
            (\<forall>a\<in>set (cells h' v'). length h \<le> a)"
  proof (intro exI conjI)
    show "DeepCopy get cell zero into (Some p) h = Some (Some ?out, ?h3)" by (rule r)
  qed (simp, rule e3, rule l3, rule c3, rule f3)
qed

subsection \<open>Strings, routes and the static pool\<close>

lemma framedI:
  assumes "\<And>h v a. contents h v \<noteq> None \<Longrightarrow> a \<in> set (cells h v) \<Longrightarrow> a < length h"
    and "\<And>h h' v. contents h v \<noteq> None \<Longrightarrow> \<forall>a\<in>set (cells h v). load h' a = load h a \<Longrightarrow>
           contents h' v = contents h v \<and> cells h' v = cells h v"
  shows "framed contents cells"
  unfolding framed_def using assms by blast

lemma copies_intoI:
  assumes "\<And>h v. contents h v \<noteq> None \<Longrightarrow>
        \<exists>v' h'. into v h = Some (v', h') \<and> take (length h) h' = h \<and>
           contents h' v' = contents h v \<and>
           (\<forall>a\<in>set (cells h' v'). length h \<le> a \<and> a < length h')"
  shows "copies_into into contents cells"
  unfolding copies_into_def using assms by blast

lemma framed_strings: "framed contents_strings (\<lambda>h. cells_slice)"
  by (rule framedI)
     (auto simp: contents_strings_def cells_slice_def load_Some_iff split: option.splits cell.splits)

lemma framed_routes: "framed contents_routes (\<lambda>h. cells_slice)"
  by (rule framedI)
     (auto simp: contents_routes_def cells_slice_def load_Some_iff split: option.splits cell.splits)

lemma framed_PrivateNetworkIPAMStatic:
  "framed contents_PrivateNetworkIPAMStatic cells_PrivateNetworkIPAMStatic"
  using framed_strings
  by (simp add: framed_def contents_PrivateNetworkIPAMStatic_def cells_PrivateNetworkIPAMStatic_def)

lemma copy_window:
  "window s xs = Some src \<Longrightarrow> copy (replicate (s_len s) z) src = src"
  by (auto simp: window_def copy_def split: if_splits)

lemma window_whole:
  "window s xs = Some src \<Longrightarrow> window \<lparr>s_arr = a, s_off = 0, s_len = s_len s\<rparr> src = Some src"
  by (auto simp: window_def split: if_splits)

lemma copies_strings:
  assumes "contents_strings h (Some s) \<noteq> None"
  shows "\<exists>xs src. load h (s_arr s) = Some (string_array xs) \<and> window s xs = Some src \<and>
           contents_strings h (Some s) = Some (Some src)"
  using assms by (auto simp: contents_strings_def split: option.splits cell.splits)

lemma load_new_old: "a < length h \<Longrightarrow> load (h @ [c]) a = load h a"
  by (simp add: load_def nth_append)

lemma load_new_new: "load (h @ [c]) (length h) = Some c"
  by (simp add: load_def)

lemma store_new: "store (length h) c (h @ [z]) = h @ [c]"
  by (simp add: store_def)

lemma into_PrivateNetworkIPAMStatic:
  "copies_into PrivateNetworkIPAMStatic_DeepCopyInto
     contents_PrivateNetworkIPAMStatic cells_PrivateNetworkIPAMStatic"
proof (rule copies_intoI)
  fix h v
  assume d: "contents_PrivateNetworkIPAMStatic h v \<noteq> None"
  show "\<exists>v' h'. PrivateNetworkIPAMStatic_DeepCopyInto v h = Some (v', h') \<and> take (length h) h' = h \<and>
           contents_PrivateNetworkIPAMStatic h' v' = contents_PrivateNetworkIPAMStatic h v \<and>
           (\<forall>a\<in>set (cells_PrivateNetworkIPAMStatic h' v'). length h \<le> a \<and> a < length h')"
  proof (cases "AvailableRanges v")
    case None
    then show ?thesis
      by (simp add: PrivateNetworkIPAMStatic_DeepCopyInto_def contents_PrivateNetworkIPAMStatic_def
          cells_PrivateNetworkIPAMStatic_def contents_strings_def cells_slice_def)
  next
    case (Some s)
    with d have "contents_strings h (Some s) \<noteq> None"
      by (simp add: contents_PrivateNetworkIPAMStatic_def)
    then obtain xs src where l: "load h (s_arr s) = Some (string_array xs)"
      and w: "window s xs = Some src"
      and c: "contents_strings h (Some s) = Some (Some src)"
      using copies_strings by blast
    from l have lt: "s_arr s < length h" by (simp add: load_Some_iff)
    have r: "PrivateNetworkIPAMStatic_DeepCopyInto v h =
             Some (v\<lparr>AvailableRanges := Some \<lparr>s_arr = length h, s_off = 0, s_len = s_len s\<rparr>\<rparr>,
                   h @ [string_array src])"
      using Some l w lt
      by (simp add: PrivateNetworkIPAMStatic_DeepCopyInto_def new_eq load_new_old load_new_new
          store_new copy_window)
    show ?thesis
      using r c Some window_whole [OF w, of "length h"]
      by (simp add: contents_PrivateNetworkIPAMStatic_def cells_PrivateNetworkIPAMStatic_def
          contents_strings_def cells_slice_def load_new_new)
  qed
qed

subsection \<open>Pointers\<close>

lemma deep_copiesD:
  assumes "deep_copies copy_of cell contents cells" "load h p = Some (cell v)" "contents h v \<noteq> None"
  shows "\<exists>q h' v'. copy_of (Some p) h = Some (Some q, h') \<and>
            length h \<le> q \<and> take (length h) h' = h \<and>
            load h' q = Some (cell v') \<and>
            contents h' v' = contents h v \<and>
            (\<forall>a\<in>set (cells h' v'). length h \<le> a)"
proof -
  from assms(1) have "\<forall>h p v. load h p = Some (cell v) \<and> contents h v \<noteq> None \<longrightarrow>
         (\<exists>q h' v'. copy_of (Some p) h = Some (Some q, h') \<and>
            length h \<le> q \<and> take (length h) h' = h \<and>
            load h' q = Some (cell v') \<and>
            contents h' v' = contents h v \<and>
            (\<forall>a\<in>set (cells h' v'). length h \<le> a))"
    unfolding deep_copies_def by (rule conjunct2)
  then have "load h p = Some (cell v) \<and> contents h v \<noteq> None \<longrightarrow>
         (\<exists>q h' v'. copy_of (Some p) h = Some (Some q, h') \<and>
            length h \<le> q \<and> take (length h) h' = h \<and>
            load h' q = Some (cell v') \<and>
            contents h' v' = contents h v \<and>
            (\<forall>a\<in>set (cells h' v'). length h \<le> a))"
    by blast
  with assms(2,3) show ?thesis by blast
qed

lemma deep_copies_nil: "deep_copies copy_of cell contents cells \<Longrightarrow> copy_of None h = Some (None, h)"
  unfolding deep_copies_def by (drule conjunct1) blast

text \<open>A pointer field: its contents are those of the struct it points to.\<close>

lemma framed_pointer:
  assumes fr: "framed contents cells"
    and pc: "\<And>h. pc h None = Some None"
      "\<And>h p. pc h (Some p) =
         (case load h p of None \<Rightarrow> None
          | Some c \<Rightarrow> (case get c of None \<Rightarrow> None | Some v \<Rightarrow> map_option Some (contents h v)))"
    and pcs: "\<And>h. pcs h None = []"
      "\<And>h p. pcs h (Some p) =
         p # (case load h p of None \<Rightarrow> []
              | Some c \<Rightarrow> (case get c of None \<Rightarrow> [] | Some v \<Rightarrow> cells h v))"
  shows "framed pc pcs"
proof (rule framedI)
  fix h po a
  assume d: "pc h po \<noteq> None" and a: "a \<in> set (pcs h po)"
  show "a < length h"
  proof (cases po)
    case None
    with a show ?thesis by (simp add: pcs)
  next
    case (Some p)
    with d obtain c v where l: "load h p = Some c" and g: "get c = Some v"
      and cd: "contents h v \<noteq> None"
      by (auto simp: pc split: option.splits)
    from a Some l g have "a = p \<or> a \<in> set (cells h v)" by (simp add: pcs)
    then show ?thesis
    proof
      assume "a = p" with l show ?thesis by (simp add: load_Some_iff)
    next
      assume "a \<in> set (cells h v)"
      with fr cd show ?thesis by (rule framed_in_heap)
    qed
  qed
next
  fix h h' po
  assume d: "pc h po \<noteq> None" and s: "\<forall>a\<in>set (pcs h po). load h' a = load h a"
  show "pc h' po = pc h po \<and> pcs h' po = pcs h po"
  proof (cases po)
    case None
    then show ?thesis by (simp add: pc pcs)
  next
    case (Some p)
    with d obtain c v where l: "load h p = Some c" and g: "get c = Some v"
      and cd: "contents h v \<noteq> None"
      by (auto simp: pc split: option.splits)
    from s Some l g have l': "load h' p = Some c"
      and s': "\<And>a. a \<in> set (cells h v) \<Longrightarrow> load h' a = load h a"
      by (simp_all add: pcs)
    from framed_same [OF fr cd s']
    have "contents h' v = contents h v \<and> cells h' v = cells h v" by blast
    with Some l l' g show ?thesis by (simp add: pc pcs)
  qed
qed

lemma copies_pointer:
  assumes fr: "framed contents cells"
    and into: "copies_into into contents cells"
    and get: "\<And>c v. get c = Some v \<longleftrightarrow> c = cell v"
    and pc: "\<And>h. pc h None = Some None"
      "\<And>h p. pc h (Some p) =
         (case load h p of None \<Rightarrow> None
          | Some c \<Rightarrow> (case get c of None \<Rightarrow> None | Some v \<Rightarrow> map_option Some (contents h v)))"
    and pcs: "\<And>h. pcs h None = []"
      "\<And>h p. pcs h (Some p) =
         p # (case load h p of None \<Rightarrow> []
              | Some c \<Rightarrow> (case get c of None \<Rightarrow> [] | Some v \<Rightarrow> cells h v))"
  shows "copies_into (DeepCopy get cell zero into) pc pcs"
proof (rule copies_intoI)
  have g: "\<And>v. get (cell v) = Some v" by (simp add: get)
  have dc: "deep_copies (DeepCopy get cell zero into) cell contents cells"
    using fr into g by (rule DeepCopy_deep_copies)
  fix h po
  assume d: "pc h po \<noteq> None"
  show "\<exists>v' h'. DeepCopy get cell zero into po h = Some (v', h') \<and> take (length h) h' = h \<and>
           pc h' v' = pc h po \<and> (\<forall>a\<in>set (pcs h' v'). length h \<le> a \<and> a < length h')"
  proof (cases po)
    case None
    then show ?thesis by (simp add: deep_copies_nil [OF dc] pc pcs)
  next
    case (Some p)
    with d obtain c v where l: "load h p = Some c" and gc: "get c = Some v"
      and cd: "contents h v \<noteq> None"
      by (auto simp: pc split: option.splits)
    from gc have "c = cell v" by (simp add: get)
    with l have l: "load h p = Some (cell v)" by simp
    from deep_copiesD [OF dc l cd]
    obtain q h' v' where r: "DeepCopy get cell zero into (Some p) h = Some (Some q, h')"
      and q: "length h \<le> q" and e: "take (length h) h' = h"
      and lq: "load h' q = Some (cell v')"
      and c': "contents h' v' = contents h v"
      and f: "\<forall>a\<in>set (cells h' v'). length h \<le> a"
      by blast
    from c' cd have cd': "contents h' v' \<noteq> None" by simp
    have in_heap: "\<forall>a\<in>set (cells h' v'). a < length h'"
      using framed_in_heap [OF fr cd'] by blast
    from lq have ql: "q < length h'" by (simp add: load_Some_iff)
    have "pc h' (Some q) = pc h (Some p)"
      using l lq c' by (simp add: pc g)
    moreover have "\<forall>a\<in>set (pcs h' (Some q)). length h \<le> a \<and> a < length h'"
      using lq q ql f in_heap by (simp add: pcs g)
    ultimately show ?thesis using r e Some by blast
  qed
qed

lemma get_Static_iff:
  "(case c of PrivateNetworkIPAMStatic_cell v \<Rightarrow> Some v | _ \<Rightarrow> None) = Some v \<longleftrightarrow>
   c = PrivateNetworkIPAMStatic_cell v"
  by (cases c) auto

lemma get_IPAM_iff:
  "(case c of PrivateNetworkIPAM_cell v \<Rightarrow> Some v | _ \<Rightarrow> None) = Some v \<longleftrightarrow>
   c = PrivateNetworkIPAM_cell v"
  by (cases c) auto

text \<open>The pointer \<^verbatim>\<open>Static\<close> of a \<^verbatim>\<open>PrivateNetworkIPAM\<close>.\<close>

lemma framed_Static:
  "framed (\<lambda>h p. contents_PrivateNetworkIPAM h \<lparr>Static = p\<rparr>)
          (\<lambda>h p. cells_PrivateNetworkIPAM h \<lparr>Static = p\<rparr>)"
  by (rule framed_pointer [OF framed_PrivateNetworkIPAMStatic,
        where get = "\<lambda>c. case c of PrivateNetworkIPAMStatic_cell v \<Rightarrow> Some v | _ \<Rightarrow> None"])
     (simp_all add: contents_PrivateNetworkIPAM_def cells_PrivateNetworkIPAM_def
        split: option.splits cell.splits)

lemma copies_Static:
  "copies_into PrivateNetworkIPAMStatic_DeepCopy
     (\<lambda>h p. contents_PrivateNetworkIPAM h \<lparr>Static = p\<rparr>)
     (\<lambda>h p. cells_PrivateNetworkIPAM h \<lparr>Static = p\<rparr>)"
  unfolding PrivateNetworkIPAMStatic_DeepCopy_def
  by (rule copies_pointer [OF framed_PrivateNetworkIPAMStatic into_PrivateNetworkIPAMStatic])
     (simp_all add: get_Static_iff contents_PrivateNetworkIPAM_def cells_PrivateNetworkIPAM_def
        split: option.splits cell.splits)

lemma PrivateNetworkIPAM_eq [simp]: "\<lparr>Static = Static v\<rparr> = v"
  by simp

lemma framed_PrivateNetworkIPAM:
  "framed contents_PrivateNetworkIPAM cells_PrivateNetworkIPAM"
proof (rule framedI)
  fix h v a
  assume "contents_PrivateNetworkIPAM h v \<noteq> None" "a \<in> set (cells_PrivateNetworkIPAM h v)"
  then show "a < length h"
    using framed_in_heap [OF framed_Static, of h "Static v" a] by simp
next
  fix h h' v
  assume "contents_PrivateNetworkIPAM h v \<noteq> None"
    "\<forall>a\<in>set (cells_PrivateNetworkIPAM h v). load h' a = load h a"
  then show "contents_PrivateNetworkIPAM h' v = contents_PrivateNetworkIPAM h v \<and>
             cells_PrivateNetworkIPAM h' v = cells_PrivateNetworkIPAM h v"
    using framed_same [OF framed_Static, of h "Static v" h'] by simp
qed

lemma PrivateNetworkIPAM_DeepCopyInto_eq:
  "PrivateNetworkIPAM_DeepCopyInto inp h =
   map_option (\<lambda>(p, h'). (\<lparr>Static = p\<rparr>, h')) (PrivateNetworkIPAMStatic_DeepCopy (Static inp) h)"
  by (simp add: PrivateNetworkIPAM_DeepCopyInto_def PrivateNetworkIPAMStatic_DeepCopy_def
      DeepCopy_def Let_def split: option.splits prod.splits cell.splits)

lemma into_PrivateNetworkIPAM:
  "copies_into PrivateNetworkIPAM_DeepCopyInto contents_PrivateNetworkIPAM cells_PrivateNetworkIPAM"
proof (rule copies_intoI)
  fix h v
  assume "contents_PrivateNetworkIPAM h v \<noteq> None"
  then have "contents_PrivateNetworkIPAM h \<lparr>Static = Static v\<rparr> \<noteq> None" by simp
  from copies_intoD [OF copies_Static this]
  obtain p' h' where "PrivateNetworkIPAMStatic_DeepCopy (Static v) h = Some (p', h')"
    "take (length h) h' = h"
    "contents_PrivateNetworkIPAM h' \<lparr>Static = p'\<rparr> = contents_PrivateNetworkIPAM h \<lparr>Static = Static v\<rparr>"
    "\<forall>a\<in>set (cells_PrivateNetworkIPAM h' \<lparr>Static = p'\<rparr>). length h \<le> a \<and> a < length h'"
    by blast
  then show "\<exists>v' h'. PrivateNetworkIPAM_DeepCopyInto v h = Some (v', h') \<and> take (length h) h' = h \<and>
           contents_PrivateNetworkIPAM h' v' = contents_PrivateNetworkIPAM h v \<and>
           (\<forall>a\<in>set (cells_PrivateNetworkIPAM h' v'). length h \<le> a \<and> a < length h')"
    by (simp add: PrivateNetworkIPAM_DeepCopyInto_eq)
qed

text \<open>The pointer \<^verbatim>\<open>IPAM\<close> of a \<^verbatim>\<open>PrivateNetworkSpec\<close>.\<close>

lemma framed_IPAM: "framed contents_IPAM cells_IPAM"
  by (rule framed_pointer [OF framed_PrivateNetworkIPAM,
        where get = "\<lambda>c. case c of PrivateNetworkIPAM_cell v \<Rightarrow> Some v | _ \<Rightarrow> None"])
     (simp_all add: contents_IPAM_def cells_IPAM_def split: option.splits cell.splits)

lemma copy_IPAM_eq: "copy_IPAM = PrivateNetworkIPAM_DeepCopy"
  by (intro ext)
     (simp add: copy_IPAM_def PrivateNetworkIPAM_DeepCopy_def DeepCopy_def
        split: option.splits prod.splits cell.splits)

lemma copies_IPAM: "copies_into copy_IPAM contents_IPAM cells_IPAM"
  unfolding copy_IPAM_eq PrivateNetworkIPAM_DeepCopy_def
  by (rule copies_pointer [OF framed_PrivateNetworkIPAM into_PrivateNetworkIPAM])
     (simp_all add: get_IPAM_iff contents_IPAM_def cells_IPAM_def split: option.splits cell.splits)

text \<open>The slice \<^verbatim>\<open>Routes\<close> of a \<^verbatim>\<open>PrivateNetworkSpec\<close>.\<close>

lemma copies_Routes: "copies_into copy_Routes contents_routes (\<lambda>h. cells_slice)"
proof (rule copies_intoI)
  fix h v
  assume d: "contents_routes h v \<noteq> None"
  show "\<exists>v' h'. copy_Routes v h = Some (v', h') \<and> take (length h) h' = h \<and>
           contents_routes h' v' = contents_routes h v \<and>
           (\<forall>a\<in>set (cells_slice v'). length h \<le> a \<and> a < length h')"
  proof (cases v)
    case None
    then show ?thesis by (simp add: copy_Routes_def contents_routes_def cells_slice_def)
  next
    case (Some s)
    with d obtain xs src where l: "load h (s_arr s) = Some (PrivateNetworkRoute_array xs)"
      and w: "window s xs = Some src"
      and c: "contents_routes h (Some s) = Some (Some src)"
      by (auto simp: contents_routes_def split: option.splits cell.splits)
    from l have lt: "s_arr s < length h" by (simp add: load_Some_iff)
    have r: "copy_Routes v h =
             Some (Some \<lparr>s_arr = length h, s_off = 0, s_len = s_len s\<rparr>,
                   h @ [PrivateNetworkRoute_array src])"
      using Some l w lt
      by (simp add: copy_Routes_def new_eq load_new_old load_new_new store_new copy_window)
    show ?thesis
      using r c Some window_whole [OF w, of "length h"]
      by (simp add: contents_routes_def cells_slice_def load_new_new)
  qed
qed

subsection \<open>The specification of a network, and the network\<close>

lemma contents_PrivateNetworkSpec_defined:
  "contents_PrivateNetworkSpec h v \<noteq> None \<longleftrightarrow>
   contents_IPAM h (pns_IPAM v) \<noteq> None \<and> contents_routes h (pns_Routes v) \<noteq> None"
  by (auto simp: contents_PrivateNetworkSpec_def split: option.splits)

lemma contents_PrivateNetworkSpec_cong:
  "contents_IPAM h' ipam = contents_IPAM h (pns_IPAM v) \<Longrightarrow>
   contents_routes h' routes = contents_routes h (pns_Routes v) \<Longrightarrow>
   contents_PrivateNetworkSpec h' (v\<lparr>pns_IPAM := ipam, pns_Routes := routes\<rparr>) =
   contents_PrivateNetworkSpec h v"
  by (simp add: contents_PrivateNetworkSpec_def split: option.splits)

lemma framed_PrivateNetworkSpec:
  "framed contents_PrivateNetworkSpec cells_PrivateNetworkSpec"
proof (rule framedI)
  fix h v a
  assume d: "contents_PrivateNetworkSpec h v \<noteq> None"
    and a: "a \<in> set (cells_PrivateNetworkSpec h v)"
  from d have d1: "contents_IPAM h (pns_IPAM v) \<noteq> None"
    and d2: "contents_routes h (pns_Routes v) \<noteq> None"
    using contents_PrivateNetworkSpec_defined [of h v] by blast+
  from a have "a \<in> set (cells_IPAM h (pns_IPAM v)) \<or> a \<in> set (cells_slice (pns_Routes v))"
    by (simp add: cells_PrivateNetworkSpec_def)
  then show "a < length h"
    using framed_in_heap [OF framed_IPAM d1] framed_in_heap [OF framed_routes d2] by blast
next
  fix h h' v
  assume d: "contents_PrivateNetworkSpec h v \<noteq> None"
    and s: "\<forall>a\<in>set (cells_PrivateNetworkSpec h v). load h' a = load h a"
  from d have d1: "contents_IPAM h (pns_IPAM v) \<noteq> None"
    and d2: "contents_routes h (pns_Routes v) \<noteq> None"
    using contents_PrivateNetworkSpec_defined [of h v] by blast+
  from s have s1: "\<And>a. a \<in> set (cells_IPAM h (pns_IPAM v)) \<Longrightarrow> load h' a = load h a"
    and s2: "\<And>a. a \<in> set (cells_slice (pns_Routes v)) \<Longrightarrow> load h' a = load h a"
    by (simp_all add: cells_PrivateNetworkSpec_def)
  from framed_same [OF framed_IPAM d1 s1] framed_same [OF framed_routes d2 s2]
  show "contents_PrivateNetworkSpec h' v = contents_PrivateNetworkSpec h v \<and>
        cells_PrivateNetworkSpec h' v = cells_PrivateNetworkSpec h v"
    by (simp add: contents_PrivateNetworkSpec_def cells_PrivateNetworkSpec_def)
qed

lemma into_PrivateNetworkSpec:
  "copies_into PrivateNetworkSpec_DeepCopyInto contents_PrivateNetworkSpec cells_PrivateNetworkSpec"
proof (rule copies_intoI)
  fix h v
  assume d: "contents_PrivateNetworkSpec h v \<noteq> None"
  then have d1: "contents_IPAM h (pns_IPAM v) \<noteq> None"
    and d2: "contents_routes h (pns_Routes v) \<noteq> None"
    using contents_PrivateNetworkSpec_defined [of h v] by blast+
  from copies_intoD [OF copies_IPAM d1]
  obtain ipam h1 where r1: "copy_IPAM (pns_IPAM v) h = Some (ipam, h1)"
    and e1: "take (length h) h1 = h"
    and c1: "contents_IPAM h1 ipam = contents_IPAM h (pns_IPAM v)"
    and f1: "\<forall>a\<in>set (cells_IPAM h1 ipam). length h \<le> a \<and> a < length h1"
    by blast
  have c2: "contents_routes h1 (pns_Routes v) = contents_routes h (pns_Routes v)"
    using framed_extended [OF framed_routes d2 e1] by simp
  with d2 have d2': "contents_routes h1 (pns_Routes v) \<noteq> None" by simp
  from copies_intoD [OF copies_Routes d2']
  obtain routes h2 where r2: "copy_Routes (pns_Routes v) h1 = Some (routes, h2)"
    and e2: "take (length h1) h2 = h1"
    and c3: "contents_routes h2 routes = contents_routes h1 (pns_Routes v)"
    and f2: "\<forall>a\<in>set (cells_slice routes). length h1 \<le> a \<and> a < length h2"
    by blast
  from c1 d1 have d1': "contents_IPAM h1 ipam \<noteq> None" by simp
  have k: "contents_IPAM h2 ipam = contents_IPAM h1 ipam \<and> cells_IPAM h2 ipam = cells_IPAM h1 ipam"
    using framed_extended [OF framed_IPAM d1' e2] .
  have l1: "length h \<le> length h1" using e1 by (rule extended_length)
  have l2: "length h1 \<le> length h2" using e2 by (rule extended_length)
  let ?v' = "v\<lparr>pns_IPAM := ipam, pns_Routes := routes\<rparr>"
  have "PrivateNetworkSpec_DeepCopyInto v h = Some (?v', h2)"
    using r1 r2 by (simp add: PrivateNetworkSpec_DeepCopyInto_def)
  moreover have "take (length h) h2 = h" using e1 e2 by (rule extended_trans)
  moreover have "contents_PrivateNetworkSpec h2 ?v' = contents_PrivateNetworkSpec h v"
    using k c1 c3 c2 by (intro contents_PrivateNetworkSpec_cong) simp_all
  moreover have "\<forall>a\<in>set (cells_PrivateNetworkSpec h2 ?v'). length h \<le> a \<and> a < length h2"
  proof
    fix a assume "a \<in> set (cells_PrivateNetworkSpec h2 ?v')"
    then have "a \<in> set (cells_IPAM h1 ipam) \<or> a \<in> set (cells_slice routes)"
      using k by (simp add: cells_PrivateNetworkSpec_def)
    then show "length h \<le> a \<and> a < length h2"
    proof
      assume "a \<in> set (cells_IPAM h1 ipam)"
      with f1 have "length h \<le> a \<and> a < length h1" by blast
      with l2 show ?thesis by simp
    next
      assume "a \<in> set (cells_slice routes)"
      with f2 have "length h1 \<le> a \<and> a < length h2" by blast
      with l1 show ?thesis by simp
    qed
  qed
  ultimately show "\<exists>v' h'. PrivateNetworkSpec_DeepCopyInto v h = Some (v', h') \<and>
           take (length h) h' = h \<and>
           contents_PrivateNetworkSpec h' v' = contents_PrivateNetworkSpec h v \<and>
           (\<forall>a\<in>set (cells_PrivateNetworkSpec h' v'). length h \<le> a \<and> a < length h')"
    by blast
qed

lemma framed_PrivateNetwork: "framed contents_PrivateNetwork cells_PrivateNetwork"
proof (rule framedI)
  fix h v a
  assume "contents_PrivateNetwork h v \<noteq> None" "a \<in> set (cells_PrivateNetwork h v)"
  then show "a < length h"
    using framed_in_heap [OF framed_PrivateNetworkSpec, of h "pn_Spec v" a]
    by (simp add: contents_PrivateNetwork_def cells_PrivateNetwork_def)
next
  fix h h' v
  assume "contents_PrivateNetwork h v \<noteq> None"
    "\<forall>a\<in>set (cells_PrivateNetwork h v). load h' a = load h a"
  then show "contents_PrivateNetwork h' v = contents_PrivateNetwork h v \<and>
             cells_PrivateNetwork h' v = cells_PrivateNetwork h v"
    using framed_same [OF framed_PrivateNetworkSpec, of h "pn_Spec v" h']
    by (simp add: contents_PrivateNetwork_def cells_PrivateNetwork_def)
qed

lemma into_PrivateNetwork:
  "copies_into PrivateNetwork_DeepCopyInto contents_PrivateNetwork cells_PrivateNetwork"
proof (rule copies_intoI)
  fix h v
  assume "contents_PrivateNetwork h v \<noteq> None"
  then have "contents_PrivateNetworkSpec h (pn_Spec v) \<noteq> None"
    by (simp add: contents_PrivateNetwork_def)
  from copies_intoD [OF into_PrivateNetworkSpec this]
  obtain spec h' where "PrivateNetworkSpec_DeepCopyInto (pn_Spec v) h = Some (spec, h')"
    "take (length h) h' = h"
    "contents_PrivateNetworkSpec h' spec = contents_PrivateNetworkSpec h (pn_Spec v)"
    "\<forall>a\<in>set (cells_PrivateNetworkSpec h' spec). length h \<le> a \<and> a < length h'"
    by blast
  then show "\<exists>v' h'. PrivateNetwork_DeepCopyInto v h = Some (v', h') \<and> take (length h) h' = h \<and>
           contents_PrivateNetwork h' v' = contents_PrivateNetwork h v \<and>
           (\<forall>a\<in>set (cells_PrivateNetwork h' v'). length h \<le> a \<and> a < length h')"
    by (simp add: PrivateNetwork_DeepCopyInto_def ObjectMeta_DeepCopyInto_def
        contents_PrivateNetwork_def cells_PrivateNetwork_def)
qed

subsection \<open>The list of network interfaces\<close>

lemma NetworkInterface_DeepCopyInto_eq: "NetworkInterface_DeepCopyInto x h = Some (x, h)"
  by (simp add: NetworkInterface_DeepCopyInto_def ObjectMeta_DeepCopyInto_def)

lemma store_store: "store a c (store a c' h) = store a c h"
  by (simp add: store_def)

lemma store_load: "load h a = Some c \<Longrightarrow> store a c h = h"
  by (auto simp: load_def store_def split: if_splits)

lemma copy_NetworkInterfaces_loop:
  assumes "load h (s_arr s) = Some (NetworkInterface_array xs)"
    and "s_off s + i + k \<le> length xs"
    and "load h a = Some (NetworkInterface_array ys)"
    and "i + k \<le> length ys"
    and "a \<noteq> s_arr s"
  shows "copy_NetworkInterfaces s a i k h =
         Some (store a (NetworkInterface_array
                 (take i ys @ take k (drop (s_off s + i) xs) @ drop (i + k) ys)) h)"
  using assms
proof (induction k arbitrary: i ys h)
  case 0
  then show ?case by (simp add: store_load)
next
  case (Suc k)
  let ?x = "xs ! (s_off s + i)"
  let ?h = "store a (NetworkInterface_array (ys[i := ?x])) h"
  from Suc.prems have a: "a < length h" and i: "i < length ys" and o: "s_off s + i < length xs"
    by (simp_all add: load_Some_iff)
  have 1: "load ?h (s_arr s) = Some (NetworkInterface_array xs)"
    using Suc.prems by (simp add: load_store_other)
  have 2: "load ?h a = Some (NetworkInterface_array (ys[i := ?x]))"
    using a by (rule load_store_same)
  have "copy_NetworkInterfaces s a (Suc i) k ?h =
        Some (store a (NetworkInterface_array
                (take (Suc i) (ys[i := ?x]) @ take k (drop (s_off s + Suc i) xs) @
                 drop (Suc i + k) (ys[i := ?x]))) ?h)"
    using 1 _ 2 _ Suc.prems(5) by (rule Suc.IH) (use Suc.prems in simp_all)
  moreover have "take (Suc i) (ys[i := ?x]) = take i ys @ [?x]"
    using i by (simp add: take_Suc_conv_app_nth)
  moreover have "take (Suc k) (drop (s_off s + i) xs) = ?x # take k (drop (s_off s + Suc i) xs)"
    using o by (simp add: Cons_nth_drop_Suc [symmetric])
  ultimately show ?case
    using Suc.prems o i by (simp add: NetworkInterface_DeepCopyInto_eq store_store)
qed

lemma framed_NetworkInterfaceList:
  "framed contents_NetworkInterfaceList cells_NetworkInterfaceList"
  by (rule framedI)
     (auto simp: contents_NetworkInterfaceList_def cells_NetworkInterfaceList_def cells_slice_def
        load_Some_iff split: option.splits cell.splits)

lemma into_NetworkInterfaceList:
  "copies_into NetworkInterfaceList_DeepCopyInto
     contents_NetworkInterfaceList cells_NetworkInterfaceList"
proof (rule copies_intoI)
  fix h v
  assume d: "contents_NetworkInterfaceList h v \<noteq> None"
  show "\<exists>v' h'. NetworkInterfaceList_DeepCopyInto v h = Some (v', h') \<and> take (length h) h' = h \<and>
           contents_NetworkInterfaceList h' v' = contents_NetworkInterfaceList h v \<and>
           (\<forall>a\<in>set (cells_NetworkInterfaceList h' v'). length h \<le> a \<and> a < length h')"
  proof (cases "nil_Items v")
    case None
    then show ?thesis
      by (simp add: NetworkInterfaceList_DeepCopyInto_def ListMeta_DeepCopyInto_def
          contents_NetworkInterfaceList_def cells_NetworkInterfaceList_def cells_slice_def)
  next
    case (Some s)
    with d obtain xs src where l: "load h (s_arr s) = Some (NetworkInterface_array xs)"
      and w: "window s xs = Some src"
      by (auto simp: contents_NetworkInterfaceList_def split: option.splits cell.splits)
    from l have lt: "s_arr s < length h" by (simp add: load_Some_iff)
    from w have b: "s_off s + s_len s \<le> length xs" and src: "src = take (s_len s) (drop (s_off s) xs)"
      by (auto simp: window_def split: if_splits)
    let ?zs = "replicate (s_len s) zero_NetworkInterface"
    let ?h1 = "h @ [NetworkInterface_array ?zs]"
    have "copy_NetworkInterfaces s (length h) 0 (s_len s) ?h1 =
          Some (store (length h) (NetworkInterface_array
                  (take 0 ?zs @ take (s_len s) (drop (s_off s + 0) xs) @ drop (0 + s_len s) ?zs)) ?h1)"
    proof (rule copy_NetworkInterfaces_loop)
      show "load ?h1 (s_arr s) = Some (NetworkInterface_array xs)"
        using l lt by (simp add: load_new_old)
      show "load ?h1 (length h) = Some (NetworkInterface_array ?zs)"
        by (rule load_new_new)
    qed (use b lt in simp_all)
    then have loop: "copy_NetworkInterfaces s (length h) 0 (s_len s) ?h1 =
          Some (h @ [NetworkInterface_array src])"
      by (simp add: src store_new)
    have r: "NetworkInterfaceList_DeepCopyInto v h =
             Some (v\<lparr>nil_Items := Some \<lparr>s_arr = length h, s_off = 0, s_len = s_len s\<rparr>\<rparr>,
                   h @ [NetworkInterface_array src])"
      using Some loop
      by (simp add: NetworkInterfaceList_DeepCopyInto_def ListMeta_DeepCopyInto_def new_eq)
    show ?thesis
      using r l w Some window_whole [OF w, of "length h"]
      by (simp add: contents_NetworkInterfaceList_def cells_NetworkInterfaceList_def
          cells_slice_def load_new_new)
  qed
qed

subsection \<open>The list of networks\<close>

lemma those_map_defined:
  "those (map f xs) \<noteq> None \<longleftrightarrow> (\<forall>x\<in>set xs. f x \<noteq> None)"
  by (induction xs) (auto split: option.splits)

lemma those_map_cong:
  "(\<And>x. x \<in> set xs \<Longrightarrow> f x = g x) \<Longrightarrow> those (map f xs) = those (map g xs)"
  by (simp cong: map_cong)

lemma window_set:
  "window s xs = Some items \<Longrightarrow> items = take (s_len s) (drop (s_off s) xs)"
  by (auto simp: window_def split: if_splits)

lemma contents_PrivateNetworkList_defined:
  assumes "contents_PrivateNetworkList h v \<noteq> None" "pnl_Items v = Some s"
  shows "\<exists>xs items. load h (s_arr s) = Some (PrivateNetwork_array xs) \<and> window s xs = Some items \<and>
           (\<forall>x\<in>set items. contents_PrivateNetwork h x \<noteq> None)"
proof -
  from assms obtain xs items where l: "load h (s_arr s) = Some (PrivateNetwork_array xs)"
    and w: "window s xs = Some items"
    and t: "those (map (contents_PrivateNetwork h) items) \<noteq> None"
    by (auto simp: contents_PrivateNetworkList_def split: option.splits cell.splits)
  from t have "\<forall>x\<in>set items. contents_PrivateNetwork h x \<noteq> None"
    by (rule those_map_defined [THEN iffD1])
  with l w show ?thesis by blast
qed

lemma framed_PrivateNetworkList:
  "framed contents_PrivateNetworkList cells_PrivateNetworkList"
proof (rule framedI)
  fix h v a
  assume d: "contents_PrivateNetworkList h v \<noteq> None"
    and a: "a \<in> set (cells_PrivateNetworkList h v)"
  show "a < length h"
  proof (cases "pnl_Items v")
    case None
    with a show ?thesis by (simp add: cells_PrivateNetworkList_def)
  next
    case (Some s)
    from contents_PrivateNetworkList_defined [OF d Some]
    obtain xs items where l: "load h (s_arr s) = Some (PrivateNetwork_array xs)"
      and w: "window s xs = Some items"
      and i: "\<forall>x\<in>set items. contents_PrivateNetwork h x \<noteq> None"
      by blast
    from a Some l window_set [OF w]
    have "a = s_arr s \<or> (\<exists>x\<in>set items. a \<in> set (cells_PrivateNetwork h x))"
      by (auto simp: cells_PrivateNetworkList_def)
    then show ?thesis
    proof
      assume "a = s_arr s" with l show ?thesis by (simp add: load_Some_iff)
    next
      assume "\<exists>x\<in>set items. a \<in> set (cells_PrivateNetwork h x)"
      then obtain x where "x \<in> set items" "a \<in> set (cells_PrivateNetwork h x)" by blast
      with i framed_in_heap [OF framed_PrivateNetwork] show ?thesis by blast
    qed
  qed
next
  fix h h' v
  assume d: "contents_PrivateNetworkList h v \<noteq> None"
    and s: "\<forall>a\<in>set (cells_PrivateNetworkList h v). load h' a = load h a"
  show "contents_PrivateNetworkList h' v = contents_PrivateNetworkList h v \<and>
        cells_PrivateNetworkList h' v = cells_PrivateNetworkList h v"
  proof (cases "pnl_Items v")
    case None
    then show ?thesis by (simp add: contents_PrivateNetworkList_def cells_PrivateNetworkList_def)
  next
    case (Some sl)
    from contents_PrivateNetworkList_defined [OF d Some]
    obtain xs items where l: "load h (s_arr sl) = Some (PrivateNetwork_array xs)"
      and w: "window sl xs = Some items"
      and i: "\<forall>x\<in>set items. contents_PrivateNetwork h x \<noteq> None"
      by blast
    note items = window_set [OF w]
    from s Some l have l': "load h' (s_arr sl) = Some (PrivateNetwork_array xs)"
      by (simp add: cells_PrivateNetworkList_def)
    have each: "contents_PrivateNetwork h' x = contents_PrivateNetwork h x \<and>
                cells_PrivateNetwork h' x = cells_PrivateNetwork h x" if x: "x \<in> set items" for x
    proof (rule framed_same [OF framed_PrivateNetwork])
      from i x show "contents_PrivateNetwork h x \<noteq> None" by blast
      fix a assume "a \<in> set (cells_PrivateNetwork h x)"
      with x have "a \<in> set (cells_PrivateNetworkList h v)"
        using Some l items by (auto simp: cells_PrivateNetworkList_def)
      with s show "load h' a = load h a" by blast
    qed
    have "those (map (contents_PrivateNetwork h') items) = those (map (contents_PrivateNetwork h) items)"
      by (rule those_map_cong) (simp add: each)
    then have c: "contents_PrivateNetworkList h' v = contents_PrivateNetworkList h v"
      using Some l l' w by (simp add: contents_PrivateNetworkList_def)
    have "map (cells_PrivateNetwork h') items = map (cells_PrivateNetwork h) items"
      by (rule map_cong) (simp_all add: each)
    then have "concat (map (cells_PrivateNetwork h') (take (s_len sl) (drop (s_off sl) xs))) =
               concat (map (cells_PrivateNetwork h) (take (s_len sl) (drop (s_off sl) xs)))"
      unfolding items by (rule arg_cong)
    then have "cells_PrivateNetworkList h' v = cells_PrivateNetworkList h v"
      using Some l l' by (simp add: cells_PrivateNetworkList_def)
    with c show ?thesis by simp
  qed
qed

lemma copy_PrivateNetworks_loop:
  assumes "take (length h0) h = h0"
    and "load h0 (s_arr s) = Some (PrivateNetwork_array xs)"
    and "s_off s + i + k \<le> length xs"
    and "\<forall>j<k. contents_PrivateNetwork h0 (xs ! (s_off s + i + j)) \<noteq> None"
    and "load h (length h0) = Some (PrivateNetwork_array ys)"
    and "i + k \<le> length ys"
  shows "\<exists>h' ys'. copy_PrivateNetworks s (length h0) i k h = Some h' \<and>
      take (length h0) h' = h0 \<and> length h \<le> length h' \<and>
      load h' (length h0) = Some (PrivateNetwork_array ys') \<and> length ys' = length ys \<and>
      (\<forall>j<i. ys' ! j = ys ! j) \<and>
      (\<forall>b<length h. b \<noteq> length h0 \<longrightarrow> load h' b = load h b) \<and>
      (\<forall>j<k. contents_PrivateNetwork h' (ys' ! (i + j)) =
               contents_PrivateNetwork h0 (xs ! (s_off s + i + j)) \<and>
             (\<forall>b\<in>set (cells_PrivateNetwork h' (ys' ! (i + j))). length h0 < b \<and> b < length h'))"
  using assms
proof (induction k arbitrary: i h ys)
  case 0
  then show ?case by simp
next
  case (Suc k)
  let ?a = "length h0"
  let ?x_in = "xs ! (s_off s + i)"
  note e = Suc.prems(1) and l0 = Suc.prems(2) and la = Suc.prems(5)
  from l0 have s_lt: "s_arr s < length h0" by (simp add: load_Some_iff)
  from la have a_lt: "?a < length h" by (simp add: load_Some_iff)
  from Suc.prems have i_lt: "i < length ys" and o_lt: "s_off s + i < length xs" by simp_all
  have l: "load h (s_arr s) = Some (PrivateNetwork_array xs)"
    using load_extended [OF e s_lt] l0 by simp
  from Suc.prems(4) have d0: "contents_PrivateNetwork h0 ?x_in \<noteq> None"
    by (drule_tac x = 0 in spec) simp
  have c0: "contents_PrivateNetwork h ?x_in = contents_PrivateNetwork h0 ?x_in"
    using framed_extended [OF framed_PrivateNetwork d0 e] by simp
  with d0 have "contents_PrivateNetwork h ?x_in \<noteq> None" by simp
  from copies_intoD [OF into_PrivateNetwork this]
  obtain x h1 where r: "PrivateNetwork_DeepCopyInto ?x_in h = Some (x, h1)"
    and e1: "take (length h) h1 = h"
    and c1: "contents_PrivateNetwork h1 x = contents_PrivateNetwork h ?x_in"
    and f1: "\<forall>b\<in>set (cells_PrivateNetwork h1 x). length h \<le> b \<and> b < length h1"
    by blast
  have len1: "length h \<le> length h1" using e1 by (rule extended_length)
  have la1: "load h1 ?a = Some (PrivateNetwork_array ys)"
    using load_extended [OF e1 a_lt] la by simp
  let ?ys = "ys[i := x]"
  let ?h2 = "store ?a (PrivateNetwork_array ?ys) h1"
  have e2: "take (length h0) ?h2 = h0"
  proof (rule extended_store)
    show "take (length h0) h1 = h0" using e e1 by (rule extended_trans)
  qed simp
  have la2: "load ?h2 ?a = Some (PrivateNetwork_array ?ys)"
    using a_lt len1 by (intro load_store_same) simp
  have b2: "s_off s + Suc i + k \<le> length xs" using Suc.prems(3) by simp
  have d2: "\<forall>j<k. contents_PrivateNetwork h0 (xs ! (s_off s + Suc i + j)) \<noteq> None"
  proof (intro allI impI)
    fix j assume "j < k"
    then have "Suc j < Suc k" by simp
    with Suc.prems(4) have "contents_PrivateNetwork h0 (xs ! (s_off s + i + Suc j)) \<noteq> None"
      by blast
    then show "contents_PrivateNetwork h0 (xs ! (s_off s + Suc i + j)) \<noteq> None" by simp
  qed
  have n2: "Suc i + k \<le> length ?ys" using Suc.prems(6) by simp
  from Suc.IH [OF e2 l0 b2 d2 la2 n2]
  obtain h' ys' where r': "copy_PrivateNetworks s ?a (Suc i) k ?h2 = Some h'"
    and e': "take (length h0) h' = h0"
    and len': "length ?h2 \<le> length h'"
    and la': "load h' ?a = Some (PrivateNetwork_array ys')"
    and ly': "length ys' = length ?ys"
    and pre': "\<forall>j<Suc i. ys' ! j = ?ys ! j"
    and fr': "\<forall>b<length ?h2. b \<noteq> ?a \<longrightarrow> load h' b = load ?h2 b"
    and rest': "\<forall>j<k. contents_PrivateNetwork h' (ys' ! (Suc i + j)) =
               contents_PrivateNetwork h0 (xs ! (s_off s + Suc i + j)) \<and>
             (\<forall>b\<in>set (cells_PrivateNetwork h' (ys' ! (Suc i + j))). length h0 < b \<and> b < length h')"
    by blast
  have run: "copy_PrivateNetworks s ?a i (Suc k) h = Some h'"
    using l o_lt r la1 i_lt r' by simp
  have len: "length h \<le> length h'" using len1 len' by simp
  have pre: "\<forall>j<i. ys' ! j = ys ! j"
  proof (intro allI impI)
    fix j assume "j < i"
    with pre' have "ys' ! j = ?ys ! j" by simp
    with \<open>j < i\<close> show "ys' ! j = ys ! j" by simp
  qed
  have old: "load h' b = load h1 b" if "b < length h1" "b \<noteq> ?a" for b
  proof -
    from that fr' have "load h' b = load ?h2 b" by simp
    also from that have "\<dots> = load h1 b" by (intro load_store_other) simp
    finally show ?thesis .
  qed
  have fr: "\<forall>b<length h. b \<noteq> ?a \<longrightarrow> load h' b = load h b"
  proof (intro allI impI)
    fix b assume b: "b < length h" "b \<noteq> ?a"
    with len1 have "load h' b = load h1 b" by (intro old) simp_all
    also have "\<dots> = load h b" using e1 b(1) by (rule load_extended)
    finally show "load h' b = load h b" .
  qed
  have yi: "ys' ! i = x" using pre' i_lt by simp
  have d1: "contents_PrivateNetwork h1 x \<noteq> None" using c1 c0 d0 by simp
  have same: "contents_PrivateNetwork h' x = contents_PrivateNetwork h1 x \<and>
              cells_PrivateNetwork h' x = cells_PrivateNetwork h1 x"
  proof (rule framed_same [OF framed_PrivateNetwork d1])
    fix b assume "b \<in> set (cells_PrivateNetwork h1 x)"
    with f1 have "length h \<le> b \<and> b < length h1" by blast
    with a_lt show "load h' b = load h1 b" by (intro old) simp_all
  qed
  have first: "contents_PrivateNetwork h' (ys' ! i) = contents_PrivateNetwork h0 ?x_in \<and>
               (\<forall>b\<in>set (cells_PrivateNetwork h' (ys' ! i)). length h0 < b \<and> b < length h')"
  proof
    show "contents_PrivateNetwork h' (ys' ! i) = contents_PrivateNetwork h0 ?x_in"
      using yi same c1 c0 by simp
    show "\<forall>b\<in>set (cells_PrivateNetwork h' (ys' ! i)). length h0 < b \<and> b < length h'"
    proof
      fix b assume "b \<in> set (cells_PrivateNetwork h' (ys' ! i))"
      with yi same have "b \<in> set (cells_PrivateNetwork h1 x)" by simp
      with f1 have "length h \<le> b \<and> b < length h1" by blast
      with a_lt len' show "length h0 < b \<and> b < length h'" by simp
    qed
  qed
  have all: "\<forall>j<Suc k. contents_PrivateNetwork h' (ys' ! (i + j)) =
               contents_PrivateNetwork h0 (xs ! (s_off s + i + j)) \<and>
             (\<forall>b\<in>set (cells_PrivateNetwork h' (ys' ! (i + j))). length h0 < b \<and> b < length h')"
  proof (intro allI impI)
    fix j assume j: "j < Suc k"
    show "contents_PrivateNetwork h' (ys' ! (i + j)) =
               contents_PrivateNetwork h0 (xs ! (s_off s + i + j)) \<and>
             (\<forall>b\<in>set (cells_PrivateNetwork h' (ys' ! (i + j))). length h0 < b \<and> b < length h')"
    proof (cases j)
      case 0
      with first show ?thesis by simp
    next
      case (Suc j')
      with j have "j' < k" by simp
      with rest' have "contents_PrivateNetwork h' (ys' ! (Suc i + j')) =
               contents_PrivateNetwork h0 (xs ! (s_off s + Suc i + j')) \<and>
             (\<forall>b\<in>set (cells_PrivateNetwork h' (ys' ! (Suc i + j'))). length h0 < b \<and> b < length h')"
        by blast
      with Suc show ?thesis by simp
    qed
  qed
  from ly' have ly: "length ys' = length ys" by simp
  show ?case
    using run e' len la' ly pre fr all by blast
qed

lemma into_PrivateNetworkList:
  "copies_into PrivateNetworkList_DeepCopyInto contents_PrivateNetworkList cells_PrivateNetworkList"
proof (rule copies_intoI)
  fix h v
  assume d: "contents_PrivateNetworkList h v \<noteq> None"
  show "\<exists>v' h'. PrivateNetworkList_DeepCopyInto v h = Some (v', h') \<and> take (length h) h' = h \<and>
           contents_PrivateNetworkList h' v' = contents_PrivateNetworkList h v \<and>
           (\<forall>a\<in>set (cells_PrivateNetworkList h' v'). length h \<le> a \<and> a < length h')"
  proof (cases "pnl_Items v")
    case None
    then show ?thesis
      by (simp add: PrivateNetworkList_DeepCopyInto_def ListMeta_DeepCopyInto_def
          contents_PrivateNetworkList_def cells_PrivateNetworkList_def)
  next
    case (Some s)
    from contents_PrivateNetworkList_defined [OF d Some]
    obtain xs items where l: "load h (s_arr s) = Some (PrivateNetwork_array xs)"
      and w: "window s xs = Some items"
      and i: "\<forall>x\<in>set items. contents_PrivateNetwork h x \<noteq> None"
      by blast
    note items = window_set [OF w]
    from w have b: "s_off s + s_len s \<le> length xs"
      by (auto simp: window_def split: if_splits)
    then have li: "length items = s_len s" by (simp add: items)
    have nth_items: "items ! j = xs ! (s_off s + j)" if "j < s_len s" for j
      using that b by (simp add: items)
    let ?n = "s_len s"
    let ?zs = "replicate ?n zero_PrivateNetwork"
    let ?h1 = "h @ [PrivateNetwork_array ?zs]"
    have dj: "\<forall>j<?n. contents_PrivateNetwork h (xs ! (s_off s + 0 + j)) \<noteq> None"
    proof (intro allI impI)
      fix j assume j: "j < ?n"
      then have "items ! j \<in> set items" using li by simp
      with i have "contents_PrivateNetwork h (items ! j) \<noteq> None" by blast
      with j show "contents_PrivateNetwork h (xs ! (s_off s + 0 + j)) \<noteq> None"
        by (simp add: nth_items)
    qed
    have "\<exists>h' ys'. copy_PrivateNetworks s (length h) 0 ?n ?h1 = Some h' \<and>
      take (length h) h' = h \<and> length ?h1 \<le> length h' \<and>
      load h' (length h) = Some (PrivateNetwork_array ys') \<and> length ys' = length ?zs \<and>
      (\<forall>j<0. ys' ! j = ?zs ! j) \<and>
      (\<forall>b<length ?h1. b \<noteq> length h \<longrightarrow> load h' b = load ?h1 b) \<and>
      (\<forall>j<?n. contents_PrivateNetwork h' (ys' ! (0 + j)) =
               contents_PrivateNetwork h (xs ! (s_off s + 0 + j)) \<and>
             (\<forall>b\<in>set (cells_PrivateNetwork h' (ys' ! (0 + j))). length h < b \<and> b < length h'))"
    proof (rule copy_PrivateNetworks_loop [OF _ l _ dj])
      show "load ?h1 (length h) = Some (PrivateNetwork_array ?zs)" by (rule load_new_new)
    qed (use b in simp_all)
    then obtain h' ys' where run: "copy_PrivateNetworks s (length h) 0 ?n ?h1 = Some h'"
      and e': "take (length h) h' = h"
      and la': "load h' (length h) = Some (PrivateNetwork_array ys')"
      and ly: "length ys' = ?n"
      and each: "\<forall>j<?n. contents_PrivateNetwork h' (ys' ! j) =
               contents_PrivateNetwork h (xs ! (s_off s + j)) \<and>
             (\<forall>b\<in>set (cells_PrivateNetwork h' (ys' ! j)). length h < b \<and> b < length h')"
      by auto
    let ?sl = "\<lparr>s_arr = length h, s_off = 0, s_len = ?n\<rparr>"
    let ?v' = "v\<lparr>pnl_Items := Some ?sl\<rparr>"
    have r: "PrivateNetworkList_DeepCopyInto v h = Some (?v', h')"
      using Some run by (simp add: PrivateNetworkList_DeepCopyInto_def ListMeta_DeepCopyInto_def new_eq)
    have w': "window ?sl ys' = Some ys'" using ly by (simp add: window_def)
    have "map (contents_PrivateNetwork h') ys' = map (contents_PrivateNetwork h) items"
    proof (rule nth_equalityI)
      show "length (map (contents_PrivateNetwork h') ys') = length (map (contents_PrivateNetwork h) items)"
        using ly li by simp
      fix j assume "j < length (map (contents_PrivateNetwork h') ys')"
      then have j: "j < ?n" using ly by simp
      with each have "contents_PrivateNetwork h' (ys' ! j) = contents_PrivateNetwork h (xs ! (s_off s + j))"
        by blast
      with j show "map (contents_PrivateNetwork h') ys' ! j = map (contents_PrivateNetwork h) items ! j"
        using ly li by (simp add: nth_items)
    qed
    then have c: "contents_PrivateNetworkList h' ?v' = contents_PrivateNetworkList h v"
      using Some l w la' w' by (simp add: contents_PrivateNetworkList_def)
    have f: "\<forall>a\<in>set (cells_PrivateNetworkList h' ?v'). length h \<le> a \<and> a < length h'"
    proof
      fix a assume "a \<in> set (cells_PrivateNetworkList h' ?v')"
      then have "a = length h \<or> (\<exists>y\<in>set ys'. a \<in> set (cells_PrivateNetwork h' y))"
        using la' ly by (auto simp: cells_PrivateNetworkList_def)
      then show "length h \<le> a \<and> a < length h'"
      proof
        assume "a = length h"
        with la' show ?thesis by (simp add: load_Some_iff)
      next
        assume "\<exists>y\<in>set ys'. a \<in> set (cells_PrivateNetwork h' y)"
        then obtain y where y: "y \<in> set ys'" "a \<in> set (cells_PrivateNetwork h' y)"
          by blast
        from y(1) obtain j where "j < length ys'" "y = ys' ! j"
          by (auto simp: in_set_conv_nth)
        with y(2) have "j < length ys'" "a \<in> set (cells_PrivateNetwork h' (ys' ! j))"
          by simp_all
        with each ly have "length h < a \<and> a < length h'" by simp
        then show ?thesis by simp
      qed
    qed
    from r e' c f show ?thesis by blast
  qed
qed

text \<open>The types without pointers.\<close>

lemma into_plain:
  "(\<And>v h. into v h = Some (v, h)) \<Longrightarrow> copies_into into contents_plain cells_plain"
  by (rule copies_intoI) (simp add: contents_plain_def cells_plain_def)

subsection \<open>All the types\<close>

text \<open>
  Claim C10. For each of the eleven generated types, \<^verbatim>\<open>DeepCopy\<close> of the nil pointer
  returns nil, and \<^verbatim>\<open>DeepCopy\<close> of a pointer to a struct returns a pointer to a new cell
  holding a struct with the same contents (structurally equal to the receiver), and
  every cell that the new struct reaches is new: the array of the static address ranges
  and the array of the routes, when present, are copies, as are the structs behind the
  \<^verbatim>\<open>IPAM\<close> and \<^verbatim>\<open>Static\<close> pointers and the items of the two lists. The cells of the heap
  before the call are unchanged.
\<close>

theorem DeepCopy_copies_deeply:
  "deep_copies NetworkInterface_DeepCopy NetworkInterface_cell contents_plain cells_plain \<and>
   deep_copies NetworkInterfaceList_DeepCopy NetworkInterfaceList_cell
     contents_NetworkInterfaceList cells_NetworkInterfaceList \<and>
   deep_copies NetworkInterfaceSpec_DeepCopy NetworkInterfaceSpec_cell contents_plain cells_plain \<and>
   deep_copies NetworkInterfaceStatus_DeepCopy NetworkInterfaceStatus_cell contents_plain cells_plain \<and>
   deep_copies PrivateNetwork_DeepCopy PrivateNetwork_cell
     contents_PrivateNetwork cells_PrivateNetwork \<and>
   deep_copies PrivateNetworkIPAM_DeepCopy PrivateNetworkIPAM_cell
     contents_PrivateNetworkIPAM cells_PrivateNetworkIPAM \<and>
   deep_copies PrivateNetworkIPAMStatic_DeepCopy PrivateNetworkIPAMStatic_cell
     contents_PrivateNetworkIPAMStatic cells_PrivateNetworkIPAMStatic \<and>
   deep_copies PrivateNetworkList_DeepCopy PrivateNetworkList_cell
     contents_PrivateNetworkList cells_PrivateNetworkList \<and>
   deep_copies PrivateNetworkRoute_DeepCopy PrivateNetworkRoute_cell contents_plain cells_plain \<and>
   deep_copies PrivateNetworkSpec_DeepCopy PrivateNetworkSpec_cell
     contents_PrivateNetworkSpec cells_PrivateNetworkSpec \<and>
   deep_copies PrivateNetworkStatus_DeepCopy PrivateNetworkStatus_cell contents_plain cells_plain"
proof (intro conjI)
  show "deep_copies NetworkInterface_DeepCopy NetworkInterface_cell contents_plain cells_plain"
    unfolding NetworkInterface_DeepCopy_def
    by (rule DeepCopy_deep_copies [OF framed_plain into_plain])
       (simp_all add: NetworkInterface_DeepCopyInto_eq)
  show "deep_copies NetworkInterfaceList_DeepCopy NetworkInterfaceList_cell
     contents_NetworkInterfaceList cells_NetworkInterfaceList"
    unfolding NetworkInterfaceList_DeepCopy_def
    by (rule DeepCopy_deep_copies [OF framed_NetworkInterfaceList into_NetworkInterfaceList]) simp
  show "deep_copies NetworkInterfaceSpec_DeepCopy NetworkInterfaceSpec_cell contents_plain cells_plain"
    unfolding NetworkInterfaceSpec_DeepCopy_def
    by (rule DeepCopy_deep_copies [OF framed_plain into_plain])
       (simp_all add: NetworkInterfaceSpec_DeepCopyInto_def)
  show "deep_copies NetworkInterfaceStatus_DeepCopy NetworkInterfaceStatus_cell
     contents_plain cells_plain"
    unfolding NetworkInterfaceStatus_DeepCopy_def
    by (rule DeepCopy_deep_copies [OF framed_plain into_plain])
       (simp_all add: NetworkInterfaceStatus_DeepCopyInto_def)
  show "deep_copies PrivateNetwork_DeepCopy PrivateNetwork_cell
     contents_PrivateNetwork cells_PrivateNetwork"
    unfolding PrivateNetwork_DeepCopy_def
    by (rule DeepCopy_deep_copies [OF framed_PrivateNetwork into_PrivateNetwork]) simp
  show "deep_copies PrivateNetworkIPAM_DeepCopy PrivateNetworkIPAM_cell
     contents_PrivateNetworkIPAM cells_PrivateNetworkIPAM"
    unfolding PrivateNetworkIPAM_DeepCopy_def
    by (rule DeepCopy_deep_copies [OF framed_PrivateNetworkIPAM into_PrivateNetworkIPAM]) simp
  show "deep_copies PrivateNetworkIPAMStatic_DeepCopy PrivateNetworkIPAMStatic_cell
     contents_PrivateNetworkIPAMStatic cells_PrivateNetworkIPAMStatic"
    unfolding PrivateNetworkIPAMStatic_DeepCopy_def
    by (rule DeepCopy_deep_copies [OF framed_PrivateNetworkIPAMStatic
          into_PrivateNetworkIPAMStatic]) simp
  show "deep_copies PrivateNetworkList_DeepCopy PrivateNetworkList_cell
     contents_PrivateNetworkList cells_PrivateNetworkList"
    unfolding PrivateNetworkList_DeepCopy_def
    by (rule DeepCopy_deep_copies [OF framed_PrivateNetworkList into_PrivateNetworkList]) simp
  show "deep_copies PrivateNetworkRoute_DeepCopy PrivateNetworkRoute_cell contents_plain cells_plain"
    unfolding PrivateNetworkRoute_DeepCopy_def
    by (rule DeepCopy_deep_copies [OF framed_plain into_plain])
       (simp_all add: PrivateNetworkRoute_DeepCopyInto_def)
  show "deep_copies PrivateNetworkSpec_DeepCopy PrivateNetworkSpec_cell
     contents_PrivateNetworkSpec cells_PrivateNetworkSpec"
    unfolding PrivateNetworkSpec_DeepCopy_def
    by (rule DeepCopy_deep_copies [OF framed_PrivateNetworkSpec into_PrivateNetworkSpec]) simp
  show "deep_copies PrivateNetworkStatus_DeepCopy PrivateNetworkStatus_cell
     contents_plain cells_plain"
    unfolding PrivateNetworkStatus_DeepCopy_def
    by (rule DeepCopy_deep_copies [OF framed_plain into_plain])
       (simp_all add: PrivateNetworkStatus_DeepCopyInto_def)
qed

lemma contents_heap_a:
  "contents_PrivateNetwork heap_a pn_a_static =
   Some (pn_TypeMeta pn_a, pn_ObjectMeta pn_a,
         (''net-a'', ''fr-par-1'', ''10.0.0.0/24'',
          Some (Some (Some [''10.0.0.16/28'', ''10.0.0.32/28''])),
          Some [zero_PrivateNetworkRoute]),
         pn_Status pn_a)"
  by (simp add: contents_PrivateNetwork_def contents_PrivateNetworkSpec_def contents_IPAM_def
      contents_routes_def contents_PrivateNetworkIPAM_def contents_PrivateNetworkIPAMStatic_def
      contents_strings_def window_def load_def heap_a_def pn_a_static_def pn_a_def)

theorem DeepCopy_copies_deeply_witness:
  "PrivateNetwork_DeepCopy None heap_a = Some (None, heap_a) \<and>
   load heap_a 4 = Some (PrivateNetwork_cell pn_a_static) \<and>
   (\<exists>q h' v'. PrivateNetwork_DeepCopy (Some 4) heap_a = Some (Some q, h') \<and>
      5 \<le> q \<and> take 5 h' = heap_a \<and> load h' q = Some (PrivateNetwork_cell v') \<and>
      contents_PrivateNetwork h' v' =
        Some (pn_TypeMeta pn_a, pn_ObjectMeta pn_a,
              (''net-a'', ''fr-par-1'', ''10.0.0.0/24'',
               Some (Some (Some [''10.0.0.16/28'', ''10.0.0.32/28''])),
               Some [zero_PrivateNetworkRoute]),
              pn_Status pn_a) \<and>
      list_all (\<lambda>a. 5 \<le> a) (cells_PrivateNetwork h' v'))"
proof -
  have dc: "deep_copies PrivateNetwork_DeepCopy PrivateNetwork_cell
              contents_PrivateNetwork cells_PrivateNetwork"
    using DeepCopy_copies_deeply by simp
  have len: "length heap_a = 5" by (simp add: heap_a_def)
  have l: "load heap_a 4 = Some (PrivateNetwork_cell pn_a_static)"
    by (simp add: load_def heap_a_def)
  have c: "contents_PrivateNetwork heap_a pn_a_static \<noteq> None"
    by (simp add: contents_heap_a)
  from dc have nil: "PrivateNetwork_DeepCopy None heap_a = Some (None, heap_a)"
    by (rule deep_copies_nil)
  from deep_copiesD [OF dc l c]
  have "\<exists>q h' v'. PrivateNetwork_DeepCopy (Some 4) heap_a = Some (Some q, h') \<and>
      5 \<le> q \<and> take 5 h' = heap_a \<and> load h' q = Some (PrivateNetwork_cell v') \<and>
      contents_PrivateNetwork h' v' =
        Some (pn_TypeMeta pn_a, pn_ObjectMeta pn_a,
              (''net-a'', ''fr-par-1'', ''10.0.0.0/24'',
               Some (Some (Some [''10.0.0.16/28'', ''10.0.0.32/28''])),
               Some [zero_PrivateNetworkRoute]),
              pn_Status pn_a) \<and>
      list_all (\<lambda>a. 5 \<le> a) (cells_PrivateNetwork h' v')"
    unfolding len contents_heap_a list_all_iff .
  with nil l show ?thesis by blast
qed

end
